(* ===== verification/Prelude.thy ===== *)
theory Prelude
  imports Main "HOL-Library.Word" "HOL-Library.Monad_Syntax"
begin

text \<open>
  Shared vocabulary of the development: the fixed-width integer types of the C sources, the
  conversions between them that the sources use, byte-addressed memory with block reads and
  writes, and the collections of simplification rules that the component theories extend.
\<close>

unbundle bit_operations_syntax

section \<open>Integer types and conversions\<close>

type_synonym u8 = "8 word"
type_synonym u16 = "16 word"
type_synonym u32 = "32 word"

named_theorems c_conv \<open>conversions between C integer types\<close>
named_theorems mem_simps \<open>reads and writes of byte memory\<close>
named_theorems st_simps \<open>projections of updated machine states\<close>

text \<open>
  \<open>int_of_u32\<close> is the conversion of an unsigned 32-bit value to \<open>int\<close> (two's complement, as
  the RISC-V compilers of this platform do it), \<open>u32_of_int\<close> the conversion back, which C
  defines modulo \<open>2 ^ 32\<close>.
\<close>

definition int_of_u32 :: "u32 \<Rightarrow> int" where
  "int_of_u32 w = sint w"

definition u32_of_int :: "int \<Rightarrow> u32" where
  "u32_of_int i = word_of_int i"

definition u8_of_int :: "int \<Rightarrow> u8" where
  "u8_of_int i = word_of_int i"

lemma u8_of_int_uint [c_conv, simp]: "u8_of_int (uint b) = b"
  by (simp add: u8_of_int_def)

lemma u32_int_u32 [c_conv, simp]: "u32_of_int (int_of_u32 w) = w"
  by (simp add: int_of_u32_def u32_of_int_def)

lemma uint_u8_lt [simp]: "uint (b :: u8) < 256"
  using uint_lt2p [of b] by simp

lemma uint_u32_lt [simp]: "uint (w :: u32) < 4294967296"
  using uint_lt2p [of w] by simp

lemma unat_u8_lt [simp]: "unat (b :: u8) < 256"
  using uint_u8_lt [of b] by (simp only: uint_nat)

lemma unat_u32_lt [simp]: "unat (w :: u32) < 4294967296"
  using uint_u32_lt [of w] by (simp only: uint_nat)

lemma uint_u32_of_int [c_conv]: "0 \<le> i \<Longrightarrow> i < 4294967296 \<Longrightarrow> uint (u32_of_int i) = i"
  by (simp add: u32_of_int_def uint_word_of_int)

lemma unat_u32_of_int [c_conv]: "0 \<le> i \<Longrightarrow> i < 4294967296 \<Longrightarrow> unat (u32_of_int i) = nat i"
  by (metis uint_u32_of_int unat_eq_nat_uint)

lemma uint_eq_numeral_u8: "uint (b :: u8) = n \<longleftrightarrow> b = word_of_int n" if "0 \<le> n" "n < 256"
  using that by (auto simp: uint_word_of_int)

lemma word_xor_eq_0 [c_conv]: "a XOR b = 0 \<longleftrightarrow> a = (b :: 'a :: len word)"
  by (metis xor.assoc xor.left_neutral xor.right_neutral xor_self_eq)

section \<open>Byte memory\<close>

text \<open>
  A C pointer into a byte buffer is an address; \<open>0\<close> is \<open>NULL\<close>.
\<close>

type_synonym memory = "nat \<Rightarrow> u8"

definition mem_read :: "memory \<Rightarrow> nat \<Rightarrow> nat \<Rightarrow> u8 list" where
  "mem_read m p n = map m [p..<p + n]"

definition mem_write :: "memory \<Rightarrow> nat \<Rightarrow> u8 list \<Rightarrow> memory" where
  "mem_write m p bs = (\<lambda>a. if p \<le> a \<and> a < p + length bs then bs ! (a - p) else m a)"

lemma length_mem_read [mem_simps, simp]: "length (mem_read m p n) = n"
  by (simp add: mem_read_def)

lemma nth_mem_read [mem_simps, simp]: "i < n \<Longrightarrow> mem_read m p n ! i = m (p + i)"
  by (simp add: mem_read_def)

lemma mem_read_0 [mem_simps, simp]: "mem_read m p 0 = []"
  by (simp add: mem_read_def)

lemma mem_read_Nil_iff [mem_simps, simp]: "mem_read m p n = [] \<longleftrightarrow> n = 0"
  by (auto simp: mem_read_def)

lemma mem_write_Nil [mem_simps, simp]: "mem_write m p [] = m"
  by (auto simp: mem_write_def fun_eq_iff)

lemma mem_write_outside [mem_simps]:
  "a < p \<or> p + length bs \<le> a \<Longrightarrow> mem_write m p bs a = m a"
  by (auto simp: mem_write_def)

lemma mem_write_inside [mem_simps]:
  "p \<le> a \<Longrightarrow> a < p + length bs \<Longrightarrow> mem_write m p bs a = bs ! (a - p)"
  by (simp add: mem_write_def)

lemma mem_read_write_same [mem_simps, simp]: "mem_read (mem_write m p bs) p (length bs) = bs"
  by (rule nth_equalityI) (auto simp: mem_write_def)

lemma mem_read_write_disjoint [mem_simps]:
  "p + n \<le> q \<or> q + length bs \<le> p \<Longrightarrow> mem_read (mem_write m q bs) p n = mem_read m p n"
  by (rule nth_equalityI) (auto simp: mem_write_def)

lemma mem_read_cong: "(\<And>a. p \<le> a \<Longrightarrow> a < p + n \<Longrightarrow> m a = m' a) \<Longrightarrow> mem_read m p n = mem_read m' p n"
  by (auto simp: mem_read_def)

lemma mem_read_append: "mem_read m p (n + k) = mem_read m p n @ mem_read m (p + n) k"
  by (rule nth_equalityI) (auto simp: nth_append)

lemma mem_write_snoc:
  "(mem_write m p bs)(p + length bs := b) = mem_write m p (bs @ [b])"
  by (auto simp: mem_write_def nth_append fun_eq_iff)

lemma mem_write_append:
  "mem_write (mem_write m p xs) (p + length xs) ys = mem_write m p (xs @ ys)"
  by (auto simp: mem_write_def nth_append fun_eq_iff)

lemma mem_write_single: "m(p := b) = mem_write m p [b]"
  by (auto simp: mem_write_def fun_eq_iff)

lemma mem_write_Cons: "mem_write (m(p := b)) (Suc p) bs = mem_write m p (b # bs)"
  using mem_write_append [of m p "[b]" bs] by (simp add: mem_write_single)

section \<open>Lists\<close>

lemma take_append_take_drop:
  "take n xs @ take k (drop n xs) = take (n + k) xs"
  by (simp add: take_add)

lemma nth_list_update_other: "i \<noteq> j \<Longrightarrow> xs[i := x] ! j = xs ! j"
  by simp

section \<open>Endless loops\<close>

text \<open>
  C's \<open>for (;;)\<close> and \<open>while (1)\<close>: a body ends with \<open>Inl\<close> (a return or a break, with the result)
  or \<open>Inr\<close> (the state of the next round). A loop that never ends, or whose body does not, is
  \<open>None\<close>.
\<close>

partial_function (option) forever :: "('s \<Rightarrow> ('r + 's) option) \<Rightarrow> 's \<Rightarrow> 'r option" where
  "forever body s = body s \<bind> (\<lambda>r. case r of Inl x \<Rightarrow> Some x | Inr s' \<Rightarrow> forever body s')"

lemma forever_Inl: "body s = Some (Inl x) \<Longrightarrow> forever body s = Some x"
  by (subst forever.simps) simp

lemma forever_Inr: "body s = Some (Inr s') \<Longrightarrow> forever body s = forever body s'"
  by (subst forever.simps) simp

text \<open>What an invariant of the body says of the result, if the loop ends.\<close>

lemma forever_rule:
  assumes run: "forever body s = Some r" and init: "I s"
    and step: "\<And>s s'. I s \<Longrightarrow> body s = Some (Inr s') \<Longrightarrow> I s'"
    and ret: "\<And>s r. I s \<Longrightarrow> body s = Some (Inl r) \<Longrightarrow> Q r"
  shows "Q r"
proof -
  have "body = body \<longrightarrow> I s \<longrightarrow> Q r"
  proof (rule forever.raw_induct [where P = "\<lambda>b s r. b = body \<longrightarrow> I s \<longrightarrow> Q r", OF _ run])
    fix f b s r
    assume IH: "\<And>b s r. f b s = Some r \<Longrightarrow> b = body \<longrightarrow> I s \<longrightarrow> Q r"
      and eq: "b s \<bind> (\<lambda>r. case r of Inl x \<Rightarrow> Some x | Inr s' \<Rightarrow> f b s') = Some r"
    show "b = body \<longrightarrow> I s \<longrightarrow> Q r"
    proof (intro impI)
      assume b: "b = body" and I: "I s"
      from eq b obtain x where x: "body s = Some x"
        and rest: "(case x of Inl x \<Rightarrow> Some x | Inr s' \<Rightarrow> f body s') = Some r"
        by (auto simp: bind_eq_Some_conv)
      show "Q r"
        using x rest IH step [OF I] ret [OF I] by (cases x) auto
    qed
  qed
  with init show ?thesis by simp
qed

text \<open>
  A loop whose body always ends, and makes a measure smaller when it continues, ends, with what the
  body says when it ends.
\<close>

lemma forever_ends:
  fixes m :: "'s \<Rightarrow> nat"
  assumes body: "\<And>s. I s \<Longrightarrow> \<exists>r. body s = Some r
      \<and> (case r of Inl x \<Rightarrow> Q x | Inr s' \<Rightarrow> I s' \<and> m s' < m s)"
  shows "I s \<Longrightarrow> \<exists>x. forever body s = Some x \<and> Q x"
proof (induction "m s" arbitrary: s rule: less_induct)
  case less
  from body [OF less.prems] obtain r where r: "body s = Some r"
    and next_ok: "case r of Inl x \<Rightarrow> Q x | Inr s' \<Rightarrow> I s' \<and> m s' < m s" by blast
  show ?case
  proof (cases r)
    case (Inl x)
    with forever_Inl [of body s x] r next_ok show ?thesis by simp
  next
    case (Inr s')
    with forever_Inr [of body s s'] r next_ok less.hyps [of s'] show ?thesis by simp
  qed
qed

end
