(* ===== verification/Crc16.thy ===== *)
theory Crc16
  imports Prelude
begin

text \<open>
  The integrity checks of the XMODEM receiver (\<open>ota_demo/ota_demo/app.c\<close>): the CRC-16/CCITT
  loop \<open>crc16_ccitt\<close> and the function \<open>check\<close>, which compares it, or an 8-bit sum, with the
  trailer of a packet. A C pointer to the packet's data is a function from the offset to the
  byte there. The lemmas relate the loop to polynomial division over GF(2), give its algebra
  (linearity, injectivity of the shift step) and derive which corruptions it detects.
\<close>

section \<open>The code\<close>

abbreviation (input) CHAR_BIT :: nat where
  "CHAR_BIT \<equiv> 8"

text \<open>The inner loop \<open>for (i = 0; i < CHAR_BIT; ++i)\<close>; the first argument counts the rounds left.\<close>

fun crc16_bits :: "nat \<Rightarrow> u16 \<Rightarrow> u16" where
  "crc16_bits 0 crc = crc"
| "crc16_bits (Suc i) crc =
     crc16_bits i (if crc AND 0x8000 \<noteq> 0 then push_bit 1 crc XOR 0x1021 else push_bit 1 crc)"

text \<open>The outer loop \<open>while (remain--)\<close>, with the cursor \<open>p\<close> as an offset into the buffer.\<close>

fun crc16_loop :: "(nat \<Rightarrow> u8) \<Rightarrow> nat \<Rightarrow> nat \<Rightarrow> u16 \<Rightarrow> u16" where
  "crc16_loop buf p 0 crc = crc"
| "crc16_loop buf p (Suc remain) crc =
     crc16_loop buf (Suc p) remain
       (crc16_bits CHAR_BIT (crc XOR push_bit CHAR_BIT (ucast (buf p))))"

definition crc16_ccitt :: "(nat \<Rightarrow> u8) \<Rightarrow> nat \<Rightarrow> u16" where
  "crc16_ccitt buf len = crc16_loop buf 0 len 0"

text \<open>The checksum loop of \<open>check\<close>: \<open>cks += buf[i]\<close> modulo 256.\<close>

fun cks_loop :: "(nat \<Rightarrow> u8) \<Rightarrow> nat \<Rightarrow> nat \<Rightarrow> u8 \<Rightarrow> u8" where
  "cks_loop buf i 0 cks = cks"
| "cks_loop buf i (Suc k) cks = cks_loop buf (Suc i) k (cks + buf i)"

definition check :: "bool \<Rightarrow> (nat \<Rightarrow> u8) \<Rightarrow> nat \<Rightarrow> int" where
  "check is_crc buf sz =
     (if is_crc then
        (let crc = crc16_ccitt buf sz;
             tcrc = push_bit CHAR_BIT (ucast (buf sz)) + ucast (buf (sz + 1))
         in if crc = tcrc then 1 else 0)
      else (if cks_loop buf 0 sz 0 = buf sz then 1 else 0))"

section \<open>The loops as folds\<close>

text \<open>One shift of the register, and one byte folded into it.\<close>

definition crc_shift :: "u16 \<Rightarrow> u16" where
  "crc_shift c = (if bit c 15 then push_bit 1 c XOR 0x1021 else push_bit 1 c)"

definition crc_byte :: "u16 \<Rightarrow> u8 \<Rightarrow> u16" where
  "crc_byte c b = (crc_shift ^^ 8) (c XOR push_bit 8 (ucast b))"

definition crc_of :: "u16 \<Rightarrow> u8 list \<Rightarrow> u16" where
  "crc_of c bs = foldl crc_byte c bs"

lemma and_top_bit: "(c :: u16) AND 0x8000 \<noteq> 0 \<longleftrightarrow> bit c 15"
proof -
  have "(0x8000 :: u16) = push_bit 15 1" by simp
  then show ?thesis
    by (metis and_exp_eq_0_iff_not_bit push_bit_of_1)
qed

lemma crc16_bits_shift: "crc16_bits n c = (crc_shift ^^ n) c"
  by (induction n arbitrary: c)
    (simp_all add: crc_shift_def and_top_bit funpow_swap1 del: funpow.simps(2) add: funpow_Suc_right)

lemma crc_of_Nil [simp]: "crc_of c [] = c"
  by (simp add: crc_of_def)

lemma crc_of_Cons [simp]: "crc_of c (b # bs) = crc_of (crc_byte c b) bs"
  by (simp add: crc_of_def)

lemma crc_of_append: "crc_of c (xs @ ys) = crc_of (crc_of c xs) ys"
  by (simp add: crc_of_def)

lemma crc16_loop_crc_of: "crc16_loop buf p n c = crc_of c (map buf [p..<p + n])"
proof (induction n arbitrary: p c)
  case (Suc n)
  have "[p..<p + Suc n] = p # [Suc p..<Suc p + n]"
    by (simp add: upt_conv_Cons)
  with Suc show ?case
    by (simp add: crc_byte_def crc16_bits_shift del: upt_Suc)
qed simp

lemma crc16_ccitt_crc_of: "crc16_ccitt buf len = crc_of 0 (map buf [0..<len])"
  by (simp add: crc16_ccitt_def crc16_loop_crc_of)

lemma cks_loop_sum: "cks_loop buf i k c = c + sum_list (map buf [i..<i + k])"
proof (induction k arbitrary: i c)
  case (Suc k)
  have "[i..<i + Suc k] = i # [Suc i..<Suc i + k]"
    by (simp add: upt_conv_Cons)
  with Suc show ?case
    by (simp add: add.assoc del: upt_Suc)
qed simp

section \<open>Linearity and injectivity\<close>

lemma crc_shift_0 [simp]: "crc_shift 0 = 0"
  by (simp add: crc_shift_def)

lemma crc_shift_xor: "crc_shift (a XOR b) = crc_shift a XOR crc_shift b"
  by (auto simp: crc_shift_def bit_xor_iff push_bit_xor ac_simps)

lemma crc_shifts_xor: "(crc_shift ^^ n) (a XOR b) = (crc_shift ^^ n) a XOR (crc_shift ^^ n) b"
  by (induction n) (simp_all add: crc_shift_xor)

lemma crc_shifts_0 [simp]: "(crc_shift ^^ n) 0 = 0"
  by (induction n) simp_all

lemma bit_push1: "bit (push_bit 1 (c :: u16)) n \<longleftrightarrow> 1 \<le> n \<and> n < 16 \<and> bit c (n - 1)"
  by (subst bit_push_bit_iff) auto

lemma crc_shift_eq_0: "crc_shift c = 0 \<longleftrightarrow> c = 0"
proof
  assume z: "crc_shift c = 0"
  have "bit (crc_shift c) 0 \<longleftrightarrow> bit c 15"
    by (simp only: crc_shift_def bit_xor_iff bit_push1 split: if_split) simp
  with z have nb: "\<not> bit c 15" by simp
  with z have "push_bit 1 c = 0" by (simp only: crc_shift_def if_False)
  then have low: "\<not> bit c n" if "n < 15" for n
    using that bit_push1 [of c "Suc n"] by simp
  show "c = 0"
  proof (rule bit_word_eqI)
    fix n assume "n < LENGTH(16)"
    with nb low [of n] show "bit c n = bit (0 :: u16) n"
      by (cases "n = 15") auto
  qed
qed simp

lemma crc_shifts_eq_0: "(crc_shift ^^ n) c = 0 \<longleftrightarrow> c = 0"
  by (induction n) (simp_all add: crc_shift_eq_0)

lemma crc_shifts_inj: "(crc_shift ^^ n) a = (crc_shift ^^ n) b \<longleftrightarrow> a = b"
proof -
  have "(crc_shift ^^ n) a = (crc_shift ^^ n) b \<longleftrightarrow> (crc_shift ^^ n) (a XOR b) = 0"
    by (simp add: crc_shifts_xor word_xor_eq_0)
  then show ?thesis
    by (simp add: crc_shifts_eq_0 word_xor_eq_0)
qed

lemma crc_byte_xor: "crc_byte (a XOR b) (x XOR y) = crc_byte a x XOR crc_byte b y"
proof -
  have "(a XOR b) XOR push_bit 8 (ucast (x XOR y)) =
      (a XOR push_bit 8 (ucast x)) XOR (b XOR push_bit 8 (ucast y))"
    by (simp add: push_bit_xor unsigned_xor_eq ac_simps)
  then show ?thesis
    by (simp only: crc_byte_def crc_shifts_xor)
qed

lemma crc_of_xor:
  "length xs = length ys \<Longrightarrow>
    crc_of (a XOR b) (map2 (XOR) xs ys) = crc_of a xs XOR crc_of b ys"
  by (induction xs ys arbitrary: a b rule: list_induct2) (simp_all add: crc_byte_xor)

section \<open>The bit-serial view and polynomial division\<close>

text \<open>
  A byte as its bits, most significant first; the register fed bit by bit; and the 16-bit word
  whose top bits are a given bit list.
\<close>

definition byte_bits :: "u8 \<Rightarrow> bool list" where
  "byte_bits b = map (\<lambda>i. bit b (7 - i)) [0..<8]"

definition top_bit :: "bool \<Rightarrow> u16" where
  "top_bit t = (if t then 0x8000 else 0)"

definition crc_serial :: "u16 \<Rightarrow> bool list \<Rightarrow> u16" where
  "crc_serial c ts = foldl (\<lambda>c t. crc_shift (c XOR top_bit t)) c ts"

fun msb_word :: "bool list \<Rightarrow> u16" where
  "msb_word [] = 0"
| "msb_word (t # ts) = top_bit t XOR drop_bit 1 (msb_word ts)"

lemma length_byte_bits [simp]: "length (byte_bits b) = 8"
  by (simp add: byte_bits_def)

lemma nth_byte_bits: "i < 8 \<Longrightarrow> byte_bits b ! i = bit b (7 - i)"
  by (simp add: byte_bits_def del: upt_Suc)

lemma crc_serial_Nil [simp]: "crc_serial c [] = c"
  by (simp add: crc_serial_def)

lemma crc_serial_Cons [simp]: "crc_serial c (t # ts) = crc_serial (crc_shift (c XOR top_bit t)) ts"
  by (simp add: crc_serial_def)

lemma crc_serial_append: "crc_serial c (xs @ ys) = crc_serial (crc_serial c xs) ys"
  by (simp add: crc_serial_def)

lemma bit_top_bit: "bit (top_bit t) n \<longleftrightarrow> t \<and> n = 15"
proof -
  have "(0x8000 :: u16) = push_bit 15 1" by simp
  then have "bit (0x8000 :: u16) n \<longleftrightarrow> n = 15"
    by (auto simp only: bit_push_bit_iff bit_1_iff) auto
  then show ?thesis by (simp add: top_bit_def)
qed

lemma bit_msb_word: "bit (msb_word ts) n \<longleftrightarrow> n < 16 \<and> 15 - n < length ts \<and> ts ! (15 - n)"
proof (induction ts arbitrary: n)
  case (Cons t ts)
  have "bit (msb_word (t # ts)) n \<longleftrightarrow> (t \<and> n = 15) \<noteq> bit (msb_word ts) (Suc n)"
    by (simp add: bit_xor_iff bit_top_bit bit_drop_bit_eq)
  also have "\<dots> \<longleftrightarrow> n < 16 \<and> 15 - n < length (t # ts) \<and> (t # ts) ! (15 - n)"
  proof (cases "n < 15")
    case True
    then have "15 - n = Suc (15 - Suc n)" by simp
    with True show ?thesis by (simp add: Cons.IH del: diff_Suc_Suc)
  qed (auto simp: Cons.IH)
  finally show ?case .
qed simp

lemma crc_shift_xor_low:
  fixes w :: u16
  assumes "\<not> bit w 0"
  shows "crc_shift (c XOR drop_bit 1 w) = crc_shift c XOR w"
proof -
  have "\<not> bit (drop_bit 1 w) 15"
    using bit_imp_le_length [of w 16] by (auto simp: bit_drop_bit_eq)
  moreover have "push_bit 1 (drop_bit 1 w) = w"
  proof (rule bit_word_eqI)
    fix n assume "n < LENGTH(16)"
    with assms show "bit (push_bit 1 (drop_bit 1 w)) n = bit w n"
      by (cases n) (simp_all only: bit_push1 bit_drop_bit_eq, auto)
  qed
  ultimately have "crc_shift (drop_bit 1 w) = w"
    by (simp only: crc_shift_def if_False)
  then show ?thesis by (simp add: crc_shift_xor)
qed

lemma crc_serial_msb:
  "length ts \<le> 16 \<Longrightarrow> crc_serial c ts = (crc_shift ^^ length ts) (c XOR msb_word ts)"
proof (induction ts arbitrary: c)
  case (Cons t ts)
  have low: "\<not> bit (msb_word ts) 0"
    using Cons.prems by (simp add: bit_msb_word)
  have "crc_shift (c XOR top_bit t) XOR msb_word ts
      = crc_shift (c XOR (top_bit t XOR drop_bit 1 (msb_word ts)))"
    by (simp only: crc_shift_xor_low [OF low] flip: xor.assoc)
  with Cons show ?case
    by (simp add: funpow_swap1 del: funpow.simps(2) add: funpow_Suc_right)
qed simp

lemma crc_byte_serial: "crc_byte c b = crc_serial c (byte_bits b)"
proof -
  have "msb_word (byte_bits b) = push_bit 8 (ucast b)"
  proof (rule bit_word_eqI)
    fix n assume "n < LENGTH(16)"
    then show "bit (msb_word (byte_bits b)) n = bit (push_bit 8 (ucast b) :: u16) n"
      by (auto simp: bit_msb_word bit_push_bit_iff nth_byte_bits bit_unsigned_iff)
  qed
  then show ?thesis by (simp add: crc_serial_msb crc_byte_def)
qed

lemma crc_of_serial: "crc_of c bs = crc_serial c (concat (map byte_bits bs))"
  by (induction bs arbitrary: c) (simp_all add: crc_serial_append crc_byte_serial)

lemma crc_serial_replicate: "crc_serial c (replicate n False) = (crc_shift ^^ n) c"
  by (induction n arbitrary: c) (simp_all add: top_bit_def funpow_swap1)

lemma crc_serial_xor:
  "length xs = length ys \<Longrightarrow>
    crc_serial (a XOR b) (map2 (\<noteq>) xs ys) = crc_serial a xs XOR crc_serial b ys"
proof (induction xs ys arbitrary: a b rule: list_induct2)
  case (Cons x xs y ys)
  have "(a XOR b) XOR top_bit (x \<noteq> y) = (a XOR top_bit x) XOR (b XOR top_bit y)"
    by (auto simp: top_bit_def ac_simps)
  with Cons show ?case by (simp only: crc_shift_xor crc_serial_Cons zip_Cons_Cons list.map prod.case)
qed simp

text \<open>
  The specification: read a bit string as a polynomial over GF(2), most significant coefficient
  first, and write it as an integer. \<open>gf2_mult\<close> is the carry-less product with a quotient
  given by its coefficients, and the generator \<open>x^16 + x^12 + x^5 + 1\<close> is \<open>0x11021\<close>.
\<close>

definition bits_val :: "bool list \<Rightarrow> int" where
  "bits_val ts = foldl (\<lambda>a t. push_bit 1 a XOR of_bool t) 0 ts"

definition gf2_mult :: "bool list \<Rightarrow> int \<Rightarrow> int" where
  "gf2_mult qs g = foldl (\<lambda>a q. push_bit 1 a XOR (if q then g else 0)) 0 qs"

lemma bit_generator_int: "bit (0x11021 :: int) n \<longleftrightarrow> n = 16 \<or> n = 12 \<or> n = 5 \<or> n = 0"
proof -
  have "(0x11021 :: int) = push_bit 16 1 XOR (push_bit 12 1 XOR (push_bit 5 1 XOR push_bit 0 1))"
    by simp
  then show ?thesis
    by (simp only: bit_xor_iff bit_push_bit_iff bit_1_iff) auto
qed

lemma bit_generator_word: "bit (0x1021 :: u16) n \<longleftrightarrow> n = 12 \<or> n = 5 \<or> n = 0"
proof -
  have "(0x1021 :: u16) = push_bit 12 1 XOR (push_bit 5 1 XOR push_bit 0 1)"
    by simp
  then show ?thesis
    by (simp only: bit_xor_iff bit_push_bit_iff bit_1_iff) auto
qed

lemma shift_cases:
  fixes n :: nat
  assumes "n = 16 \<Longrightarrow> A = B" and "16 < n \<Longrightarrow> \<not> A"
  shows "(1 \<le> n \<and> A) \<longleftrightarrow> ((n < 16 \<and> ((1 \<le> n \<and> A) \<noteq> (B \<and> (n = 12 \<or> n = 5 \<or> n = 0))))
           \<noteq> (B \<and> (n = 16 \<or> n = 12 \<or> n = 5 \<or> n = 0)))"
  using assms by (cases n "16 :: nat" rule: linorder_cases) auto

lemma push_bit_uint_shift:
  "push_bit 1 (uint z) = uint (crc_shift z) XOR (if bit z 15 then 0x11021 else 0)"
proof (rule bit_eqI)
  fix n
  have lhs: "bit (push_bit 1 (uint z)) n \<longleftrightarrow> 1 \<le> n \<and> bit z (n - 1)"
    by (simp only: bit_push_bit_iff bit_uint_iff) (use bit_imp_le_length [of z "n - 1"] in auto)
  have rhs: "bit (uint (crc_shift z)) n \<longleftrightarrow>
      n < 16 \<and> ((1 \<le> n \<and> bit z (n - 1)) \<noteq> (bit z 15 \<and> (n = 12 \<or> n = 5 \<or> n = 0)))"
    by (auto simp only: bit_uint_iff crc_shift_def bit_xor_iff bit_push1 bit_generator_word
        len_bit0 len_num1 split: if_splits)
  have gen: "bit (if bit z 15 then 0x11021 else 0 :: int) n
      \<longleftrightarrow> bit z 15 \<and> (n = 16 \<or> n = 12 \<or> n = 5 \<or> n = 0)"
    by (simp only: bit_generator_int split: if_split) simp
  have "n = 16 \<Longrightarrow> bit z (n - 1) = bit z 15" and "16 < n \<Longrightarrow> \<not> bit z (n - 1)"
    using bit_imp_le_length [of z "n - 1"] by auto
  then show "bit (push_bit 1 (uint z)) n
      = bit (uint (crc_shift z) XOR (if bit z 15 then 0x11021 else 0)) n"
    unfolding bit_xor_iff lhs rhs gen by (rule shift_cases)
qed

lemma push_bit_uint_feed:
  "push_bit 1 (uint c) XOR (if t then 0x10000 else 0) = push_bit 1 (uint (c XOR top_bit t))"
proof -
  have "(0x10000 :: int) = push_bit 1 (uint (0x8000 :: u16))" by simp
  then show ?thesis
    by (simp only: top_bit_def push_bit_xor uint_xor split: if_split) simp
qed

lemma bits_val_snoc: "bits_val (ts @ [t]) = push_bit 1 (bits_val ts) XOR of_bool t"
  by (simp add: bits_val_def)

lemma gf2_mult_snoc: "gf2_mult (qs @ [q]) g = push_bit 1 (gf2_mult qs g) XOR (if q then g else 0)"
  by (simp add: gf2_mult_def)

lemma crc_serial_snoc: "crc_serial c (ts @ [t]) = crc_shift (crc_serial c ts XOR top_bit t)"
  by (simp add: crc_serial_append)

lemma crc_serial_remainder:
  "\<exists>qs. length qs = length ts \<and>
     push_bit 16 (bits_val ts) = gf2_mult qs 0x11021 XOR uint (crc_serial 0 ts)"
proof (induction ts rule: rev_induct)
  case Nil
  show ?case by (simp add: bits_val_def gf2_mult_def)
next
  case (snoc t ts)
  then obtain qs where len: "length qs = length ts"
    and eq: "push_bit 16 (bits_val ts) = gf2_mult qs 0x11021 XOR uint (crc_serial 0 ts)" by blast
  define c z where "c = crc_serial 0 ts" and "z = c XOR top_bit t"
  have "push_bit 16 (bits_val (ts @ [t])) = push_bit 1 (push_bit 16 (bits_val ts)) XOR (if t then 0x10000 else 0)"
    by (simp only: bits_val_snoc push_bit_xor push_bit_push_bit add.commute) simp
  also have "\<dots> = push_bit 1 (gf2_mult qs 0x11021) XOR (push_bit 1 (uint c) XOR (if t then 0x10000 else 0))"
    by (simp only: eq c_def push_bit_xor xor.assoc)
  also have "\<dots> = push_bit 1 (gf2_mult qs 0x11021) XOR push_bit 1 (uint z)"
    by (simp only: push_bit_uint_feed z_def)
  also have "\<dots> = gf2_mult (qs @ [bit z 15]) 0x11021 XOR uint (crc_shift z)"
    by (simp only: push_bit_uint_shift gf2_mult_snoc ac_simps)
  also have "crc_shift z = crc_serial 0 (ts @ [t])"
    by (simp only: crc_serial_snoc z_def c_def)
  finally show ?case
    using len by (intro exI [of _ "qs @ [bit z 15]"]) simp
qed

section \<open>Error detection\<close>

lemma crc_of_trailer: "crc_of c [h, l] = 0 \<longleftrightarrow> c = push_bit 8 (ucast h) + ucast l"
proof -
  let ?ts = "byte_bits h @ byte_bits l"
  have split: "push_bit 8 (ucast h) + ucast l = push_bit 8 (ucast h :: u16) OR ucast l"
    by (rule disjunctive_add) (auto simp: bit_push_bit_iff bit_unsigned_iff dest: bit_imp_le_length)
  have "msb_word ?ts = push_bit 8 (ucast h) + ucast l"
  proof (rule bit_word_eqI)
    fix n assume "n < LENGTH(16)"
    then show "bit (msb_word ?ts) n = bit (push_bit 8 (ucast h) + ucast l :: u16) n"
      unfolding split
      using bit_imp_le_length [of l n]
      by (auto simp: bit_msb_word bit_or_iff bit_push_bit_iff bit_unsigned_iff nth_append
          nth_byte_bits)
  qed
  moreover have "crc_of c [h, l] = (crc_shift ^^ 16) (c XOR msb_word ?ts)"
    using crc_serial_msb [of ?ts c] by (simp add: crc_of_serial)
  ultimately show ?thesis
    by (simp only: crc_shifts_eq_0 word_xor_eq_0)
qed

lemma check_crc_residue: "check True buf sz = 1 \<longleftrightarrow> crc_of 0 (map buf [0..<sz + 2]) = 0"
proof -
  have "map buf [0..<sz + 2] = map buf [0..<sz] @ [buf sz, buf (sz + 1)]"
    by simp
  then show ?thesis
    by (simp only: crc_of_append crc_of_trailer) (simp add: check_def crc16_ccitt_crc_of)
qed

lemma check_result: "check is_crc buf sz = 0 \<or> check is_crc buf sz = 1"
  by (simp add: check_def Let_def)

lemma crc_serial_burst:
  assumes "length ts \<le> 16" and "True \<in> set ts"
  shows "crc_serial 0 (replicate i False @ ts @ replicate j False) \<noteq> 0"
proof -
  from assms(2) obtain k where k: "k < length ts" "ts ! k" by (auto simp: in_set_conv_nth)
  have "bit (msb_word ts) (15 - k)"
    using k assms(1) by (simp add: bit_msb_word)
  then have "msb_word ts \<noteq> 0" by auto
  with assms(1) show ?thesis
    by (simp add: crc_serial_append crc_serial_replicate crc_serial_msb crc_shifts_eq_0)
qed

text \<open>The bits of the first \<open>n\<close> bytes of a packet, in transmission order.\<close>

definition packet_bits :: "(nat \<Rightarrow> u8) \<Rightarrow> nat \<Rightarrow> bool list" where
  "packet_bits buf n = concat (map (\<lambda>i. byte_bits (buf i)) [0..<n])"

lemma crc_of_packet_bits: "crc_of c (map buf [0..<n]) = crc_serial c (packet_bits buf n)"
  by (simp add: crc_of_serial packet_bits_def comp_def)

lemma length_packet_bits [simp]: "length (packet_bits buf n) = 8 * n"
  by (simp add: packet_bits_def length_concat comp_def sum_list_triv)

lemma crc_serial_diff_burst:
  assumes len: "length xs = length ys" "i + k \<le> length xs" and k: "k \<le> 16"
    and out: "\<And>j. j < length xs \<Longrightarrow> j < i \<or> i + k \<le> j \<Longrightarrow> xs ! j = ys ! j"
    and diff: "xs \<noteq> ys"
  shows "crc_serial 0 xs \<noteq> crc_serial 0 ys"
proof -
  define e where "e = map2 (\<noteq>) xs ys"
  have e_nth: "e ! j = (xs ! j \<noteq> ys ! j)" if "j < length xs" for j
    using that len by (simp add: e_def)
  have e_len: "length e = length xs" using len by (simp add: e_def)
  have pre: "take i e = replicate i False"
    using len(2) out by (intro nth_equalityI) (auto simp: e_len e_nth)
  have post: "drop (i + k) e = replicate (length xs - (i + k)) False"
    using len(2) out by (intro nth_equalityI) (auto simp: e_len e_nth)
  have e_split: "e = replicate i False @ take k (drop i e) @ replicate (length xs - (i + k)) False"
    by (metis append_take_drop_id pre post drop_drop add.commute)
  from diff len obtain j where j: "j < length xs" "xs ! j \<noteq> ys ! j"
    by (auto simp: list_eq_iff_nth_eq)
  with out have "i \<le> j" "j < i + k" by (metis not_less)+
  with j e_nth have "take k (drop i e) ! (j - i)" "j - i < length (take k (drop i e))"
    by (auto simp: e_len)
  then have "True \<in> set (take k (drop i e))" by (metis nth_mem)
  with k have "crc_serial 0 e \<noteq> 0"
    by (subst e_split, intro crc_serial_burst) auto
  moreover have "crc_serial 0 e = crc_serial 0 xs XOR crc_serial 0 ys"
    using crc_serial_xor [OF len(1), of 0 0] by (simp add: e_def)
  ultimately show ?thesis by (simp add: word_xor_eq_0)
qed

lemma sum_list_update_u8:
  "i < length xs \<Longrightarrow> sum_list (xs[i := x]) = sum_list xs - xs ! i + (x :: u8)"
  by (induction xs arbitrary: i) (auto split: nat.splits simp: algebra_simps)

section \<open>Properties\<close>

text \<open>
  C16: the CRC loop computes the remainder of the message polynomial, shifted by 16, modulo the
  CCITT generator \<open>x^16 + x^12 + x^5 + 1\<close>: the message times \<open>x^16\<close> is a multiple of the
  generator plus \<open>crc16_ccitt\<close>, with a quotient of as many coefficients as message bits.
\<close>

theorem crc16_is_remainder:
  "\<exists>qs. length qs = 8 * len \<and>
     push_bit 16 (bits_val (packet_bits buf len))
       = gf2_mult qs 0x11021 XOR uint (crc16_ccitt buf len)"
  using crc_serial_remainder [of "packet_bits buf len"]
  by (simp add: crc16_ccitt_crc_of crc_of_packet_bits)

text \<open>
  In CRC mode \<open>check\<close> detects every burst error of at most 16 bits. When a packet of
  \<open>sz\<close> data bytes and its two trailer bytes is accepted, any other packet whose bits differ
  from it only inside a window of 16 bits (anywhere, the trailer included) is rejected.
\<close>

theorem check_detects_burst:
  assumes "check True buf sz = 1"
    and "i + k \<le> 8 * (sz + 2)" and "k \<le> 16"
    and "\<And>j. j < 8 * (sz + 2) \<Longrightarrow> j < i \<or> i + k \<le> j
          \<Longrightarrow> packet_bits buf (sz + 2) ! j = packet_bits buf' (sz + 2) ! j"
    and "packet_bits buf (sz + 2) \<noteq> packet_bits buf' (sz + 2)"
  shows "check True buf' sz = 0"
proof -
  have "crc_serial 0 (packet_bits buf (sz + 2)) \<noteq> crc_serial 0 (packet_bits buf' (sz + 2))"
    by (rule crc_serial_diff_burst [where i = i and k = k])
      (use assms(2-) in \<open>auto simp only: length_packet_bits\<close>)
  with assms(1) have "check True buf' sz \<noteq> 1"
    by (simp only: check_crc_residue crc_of_packet_bits)
  then show ?thesis using check_result [of True buf' sz] by simp
qed

theorem check_detects_burst_witness:
  "check True ((\<lambda>_. 0)(1 := 0x40)) 1 = 0"
proof (rule check_detects_burst [where buf = "\<lambda>_. 0" and i = 9 and k = 1])
  show "check True (\<lambda>_. 0) 1 = 1" by code_simp
  have bits: "packet_bits (\<lambda>_. 0) (1 + 2) = replicate 24 False"
    "packet_bits ((\<lambda>_. 0)(1 := 0x40)) (1 + 2) = (replicate 24 False)[9 := True]" by code_simp+
  show "packet_bits (\<lambda>_. 0) (1 + 2) ! j = packet_bits ((\<lambda>_. 0)(1 := 0x40)) (1 + 2) ! j"
    if "j < 8 * (1 + 2)" "j < 9 \<or> 9 + 1 \<le> j" for j
    unfolding bits using that by (subst nth_list_update_neq) auto
  show "packet_bits (\<lambda>_. 0) (1 + 2) \<noteq> packet_bits ((\<lambda>_. 0)(1 := 0x40)) (1 + 2)"
    unfolding bits by code_simp
qed simp_all

text \<open>
  In checksum mode \<open>check\<close> detects every change of one byte, be it a data byte or the
  checksum byte at offset \<open>sz\<close>.
\<close>

theorem check_sum_detects_byte:
  assumes "check False buf sz = 1" and "i \<le> sz" and "b \<noteq> buf i"
  shows "check False (buf(i := b)) sz = 0"
proof (cases "i = sz")
  case True
  with assms show ?thesis by (auto simp: check_def cks_loop_sum split: if_splits)
next
  case False
  with assms(2) have i: "i < length (map buf [0..<sz])" by simp
  have "map (buf(i := b)) [0..<sz] = (map buf [0..<sz])[i := b]"
    by (rule nth_equalityI) (auto simp: nth_list_update)
  with i False assms show ?thesis
    by (simp add: check_def cks_loop_sum sum_list_update_u8 del: length_map split: if_splits)
qed

theorem check_sum_detects_byte_witness:
  "check False ((\<lambda>_. 0)(0 := 7)) 2 = 0"
proof (rule check_sum_detects_byte)
  show "check False (\<lambda>_. 0) 2 = 1" by code_simp
  show "(7 :: u8) \<noteq> 0" by code_simp
qed simp

end
