(* ===== verification/Machine.thy ===== *)
theory Machine
  imports Prelude
begin

text \<open>
  The machine the OTA demo runs on: the program's own global state (the driver's \<open>g_uartState\<close>
  and \<open>g_uartBuf\<close> of \<open>ota_demo/ota_demo/serial.c\<close>), byte memory, the text written by
  \<open>printf\<close>, and the world outside the program. The world is a type parameter \<open>'w\<close>: the code
  behind it (the LiteOS-M kernel, the chip's UART, the HOTA updater, mbedTLS) is not in this
  repository. Every call into it is an operation of the record \<open>kernel\<close>, an argument of the
  definitions that make the call, about which nothing is assumed here.
\<close>

section \<open>Calls out of the program\<close>

datatype uart_num = UART0 | UART1

text \<open>
  The calls that only act on the world (and return an \<open>int\<close>, which may be ignored), with the
  arguments the program passes. Pins, stop bits and the other constants of the chip's headers
  are left out of the arguments.
\<close>

datatype os_call =
    LOS_EventInit uart_num
  | LOS_EventClear uart_num u32
  | LOS_EventWrite uart_num u32
  | LOS_TaskCreate string nat nat
  | Uart_send_byte uart_num u8
  | Uart_set_pin
  | Uart_reset uart_num
  | Uart_init uart_num u16 u8
  | Uart_rx_irq_trig_level uart_num nat
  | Uart_tx_irq_trig_level uart_num nat
  | Uart_set_rx_irq_mask uart_num
  | Uart_clr_rx_irq_mask uart_num
  | Uart_set_tx_irq_mask uart_num
  | Uart_clr_tx_irq_mask uart_num
  | B91IrqRegister uart_num
  | Plic_interrupt_enable uart_num
  | HotaInit
  | HotaSetPackageType
  | HotaWrite "u8 list" u32 u32
  | HotaCancel
  | HotaRestart
  | HotaHalRollback
  | Mbedtls_pk_init
  | Mbedtls_pk_parse_public_key "u8 list option" u32
  | Mbedtls_rsa_set_padding
  | Mbedtls_entropy_init
  | Mbedtls_rsa_pkcs1_verify "u8 list" "u8 list"
  | Mbedtls_pk_free

text \<open>
  What happens next while a task sleeps in \<open>LOS_EventRead\<close>: the UART interrupt is taken, with
  these bytes waiting in the hardware FIFO, or the call returns.
\<close>

datatype wait_act = Irq "u8 list" | Return u32

record 'w kernel =
  os_call :: "os_call \<Rightarrow> 'w \<Rightarrow> int \<times> 'w"
  event_read :: "u32 \<Rightarrow> 'w \<Rightarrow> wait_act \<times> 'w"
  irq_pending :: "'w \<Rightarrow> u8 list list \<times> 'w"
  LOS_MS2Tick :: "u32 \<Rightarrow> u32"
  uart_cal_div_and_bwpc :: "u32 \<Rightarrow> u32 \<Rightarrow> u16 \<times> u8"
  sys_clk_pclk :: u32
  LOS_ERRTYPE_ERROR :: u32

section \<open>The state\<close>

text \<open>
  One element of \<open>g_uartState.dev\<close>: \<open>tx.mux\<close> and the fields of \<open>rx\<close>, with \<open>rx.irq_buf\<close>
  flattened (\<open>irq_ptr\<close>, \<open>irq_nbytes\<close>, \<open>irq_max\<close>). The kernel's \<open>EVENT_CB_S\<close> lives in the world.
\<close>

record uart_dev =
  tx_mux :: u32
  rx_start :: nat
  rx_end :: nat
  irq_ptr :: nat
  irq_nbytes :: int
  irq_max :: int

record 'w sys =
  dev :: "uart_num \<Rightarrow> uart_dev"
  g_uartBuf :: "uart_num \<Rightarrow> u8 list"
  mem :: memory
  console :: string
  world :: 'w

definition do_call :: "'w kernel \<Rightarrow> os_call \<Rightarrow> 'w sys \<Rightarrow> int \<times> 'w sys" where
  "do_call K c s = (let (r, w) = os_call K c (world s) in (r, s\<lparr>world := w\<rparr>))"

definition call :: "'w kernel \<Rightarrow> os_call \<Rightarrow> 'w sys \<Rightarrow> 'w sys" where
  "call K c s = snd (do_call K c s)"

definition print :: "string \<Rightarrow> 'w sys \<Rightarrow> 'w sys" where
  "print txt s = s\<lparr>console := console s @ txt\<rparr>"

definition upd_dev :: "uart_num \<Rightarrow> (uart_dev \<Rightarrow> uart_dev) \<Rightarrow> 'w sys \<Rightarrow> 'w sys" where
  "upd_dev n f s = s\<lparr>dev := (dev s)(n := f (dev s n))\<rparr>"

lemma call_frame [st_simps, simp]:
  "dev (call K c s) = dev s" "g_uartBuf (call K c s) = g_uartBuf s"
  "mem (call K c s) = mem s" "console (call K c s) = console s"
  "world (call K c s) = snd (os_call K c (world s))"
  by (simp_all add: call_def do_call_def split: prod.split)

lemma do_call_frame [st_simps]:
  "do_call K c s = (r, s') \<Longrightarrow> dev s' = dev s \<and> g_uartBuf s' = g_uartBuf s \<and> mem s' = mem s
     \<and> console s' = console s \<and> (r, world s') = os_call K c (world s)"
  by (auto simp: do_call_def split: prod.splits)

lemma print_frame [st_simps, simp]:
  "dev (print t s) = dev s" "g_uartBuf (print t s) = g_uartBuf s" "mem (print t s) = mem s"
  "console (print t s) = console s @ t" "world (print t s) = world s"
  by (simp_all add: print_def)

lemma upd_dev_frame [st_simps, simp]:
  "g_uartBuf (upd_dev n f s) = g_uartBuf s" "mem (upd_dev n f s) = mem s"
  "console (upd_dev n f s) = console s" "world (upd_dev n f s) = world s"
  by (simp_all add: upd_dev_def)

lemma upd_dev_dev [st_simps, simp]:
  "dev (upd_dev n f s) m = (if m = n then f (dev s n) else dev s m)"
  by (simp add: upd_dev_def)

section \<open>Printed numbers\<close>

text \<open>The conversions of \<open>printf\<close> that the program uses: \<open>%u\<close>, \<open>%d\<close> and \<open>%02x\<close>.\<close>

definition digit_char :: "nat \<Rightarrow> char" where
  "digit_char d = ''0123456789abcdef'' ! d"

function show_nat :: "nat \<Rightarrow> string" where
  "show_nat n = (if n < 10 then [digit_char n] else show_nat (n div 10) @ [digit_char (n mod 10)])"
  by pat_completeness auto
termination show_nat
  by (relation "measure id") auto

declare show_nat.simps [simp del]

definition show_int :: "int \<Rightarrow> string" where
  "show_int i = (if i < 0 then CHR ''-'' # show_nat (nat (- i)) else show_nat (nat i))"

definition hex2 :: "u8 \<Rightarrow> string" where
  "hex2 b = [digit_char (unat b div 16), digit_char (unat b mod 16)]"

definition hex_dump :: "u8 list \<Rightarrow> string" where
  "hex_dump bs = concat (map hex2 bs)"

function show_hex_nat :: "nat \<Rightarrow> string" where
  "show_hex_nat n = (if n < 16 then [digit_char n] else show_hex_nat (n div 16) @ [digit_char (n mod 16)])"
  by pat_completeness auto
termination show_hex_nat
  by (relation "measure id") auto

declare show_hex_nat.simps [simp del]

text \<open>\<open>%x\<close>.\<close>

definition show_hex :: "u32 \<Rightarrow> string" where
  "show_hex w = show_hex_nat (unat w)"

definition CRLF :: string where
  "CRLF = [CHR 13, CHR 10]"

lemma length_hex_dump: "length (hex_dump bs) = 2 * length bs"
  by (induction bs) (simp_all add: hex_dump_def hex2_def)

end
