(* ===== verification/Fifo.thy ===== *)
theory Fifo
  imports Prelude
begin

text \<open>
  The contract of a bounded byte queue, as a locale: what the driver's ring buffer promises to
  the code that reads from it. A put into a full queue is dropped, a get returns the oldest
  element. The abstract queue is a list with a capacity; inside the locale every interleaving of
  puts and gets on the implementation is shown to behave as on that list.
\<close>

datatype 'a fifo_op = Put 'a | Get

text \<open>A run of operations on an implementation; a get on an empty queue returns \<open>None\<close>.\<close>

fun fifo_run :: "('a \<Rightarrow> 's \<Rightarrow> 's) \<Rightarrow> ('s \<Rightarrow> bool) \<Rightarrow> ('s \<Rightarrow> 'a \<times> 's) \<Rightarrow> 'a fifo_op list \<Rightarrow> 's
    \<Rightarrow> 'a option list \<times> 's" where
  "fifo_run put isemp get [] s = ([], s)"
| "fifo_run put isemp get (Put x # ops) s = fifo_run put isemp get ops (put x s)"
| "fifo_run put isemp get (Get # ops) s =
     (if isemp s then (let (outs, s') = fifo_run put isemp get ops s in (None # outs, s'))
      else (let (x, s1) = get s; (outs, s') = fifo_run put isemp get ops s1 in (Some x # outs, s')))"

text \<open>The same run on the abstract queue of capacity \<open>cap\<close>.\<close>

fun queue_run :: "nat \<Rightarrow> 'a fifo_op list \<Rightarrow> 'a list \<Rightarrow> 'a option list \<times> 'a list" where
  "queue_run cap [] q = ([], q)"
| "queue_run cap (Put x # ops) q = queue_run cap ops (if length q < cap then q @ [x] else q)"
| "queue_run cap (Get # ops) q =
     (case q of [] \<Rightarrow> (let (outs, q') = queue_run cap ops [] in (None # outs, q'))
      | x # q1 \<Rightarrow> (let (outs, q') = queue_run cap ops q1 in (Some x # outs, q')))"

fun puts :: "'a fifo_op list \<Rightarrow> 'a list" where
  "puts [] = []"
| "puts (Put x # ops) = x # puts ops"
| "puts (Get # ops) = puts ops"

text \<open>
  When the queue never fills, nothing is lost or reordered: what came out, followed by what is
  left, is what was there, followed by what was put in.
\<close>

lemma queue_run_lossless:
  "queue_run cap ops q = (outs, q') \<Longrightarrow> length q + length (puts ops) \<le> cap \<Longrightarrow>
    map the (filter (\<lambda>x. x \<noteq> None) outs) @ q' = q @ puts ops"
proof (induction cap ops q arbitrary: outs rule: queue_run.induct)
  case (3 cap ops q)
  then show ?case by (cases q) (auto split: prod.splits)
qed auto

lemma queue_run_bound:
  "queue_run cap ops q = (outs, q') \<Longrightarrow> length q \<le> cap \<Longrightarrow> length q' \<le> cap"
proof (induction cap ops q arbitrary: outs rule: queue_run.induct)
  case (3 cap ops q)
  then show ?case by (cases q) (auto split: prod.splits)
qed (auto split: if_splits)

locale bounded_fifo =
  fixes put :: "'a \<Rightarrow> 's \<Rightarrow> 's"
    and isemp :: "'s \<Rightarrow> bool"
    and get :: "'s \<Rightarrow> 'a \<times> 's"
    and contents :: "'s \<Rightarrow> 'a list"
    and ok :: "'s \<Rightarrow> bool"
    and cap :: nat
  assumes put_contents: "ok s \<Longrightarrow>
      contents (put x s) = (if length (contents s) < cap then contents s @ [x] else contents s)"
    and put_inv: "ok s \<Longrightarrow> ok (put x s)"
    and empty_contents: "ok s \<Longrightarrow> isemp s \<longleftrightarrow> contents s = []"
    and get_contents: "ok s \<Longrightarrow> contents s \<noteq> [] \<Longrightarrow> get s = (x, s') \<Longrightarrow>
      contents s = x # contents s'"
    and get_inv: "ok s \<Longrightarrow> contents s \<noteq> [] \<Longrightarrow> get s = (x, s') \<Longrightarrow> ok s'"
    and contents_bound: "ok s \<Longrightarrow> length (contents s) \<le> cap"
begin

lemma puts_contents:
  "ok s \<Longrightarrow> contents (foldl (\<lambda>s x. put x s) s xs)
     = contents s @ take (cap - length (contents s)) xs"
proof (induction xs arbitrary: s)
  case (Cons x xs)
  then show ?case
    using contents_bound [of s]
    by (auto simp: put_contents put_inv take_Cons' intro!: arg_cong2 [of _ _ _ _ take])
qed simp

lemma puts_inv: "ok s \<Longrightarrow> ok (foldl (\<lambda>s x. put x s) s xs)"
  by (induction xs arbitrary: s) (auto simp: put_inv)

lemma run_refines:
  "ok s \<Longrightarrow> fifo_run put isemp get ops s = (outs, s') \<Longrightarrow>
    queue_run cap ops (contents s) = (outs, contents s') \<and> ok s'"
proof (induction ops arbitrary: s outs)
  case (Cons oper ops)
  show ?case
  proof (cases oper)
    case (Put x)
    with Cons.IH [of "put x s" outs] Cons.prems show ?thesis
      by (simp add: put_inv put_contents)
  next
    case Get
    show ?thesis
    proof (cases "contents s = []")
      case True
      with Cons.prems Get Cons.IH [of s] show ?thesis
        by (auto simp: empty_contents split: prod.splits)
    next
      case False
      obtain x s1 where g: "get s = (x, s1)" by force
      have "contents s = x # contents s1" "ok s1"
        using get_contents get_inv Cons.prems(1) False g by blast+
      with Cons.prems Get g False Cons.IH [of s1] show ?thesis
        by (auto simp: empty_contents split: prod.splits)
    qed
  qed
qed simp

lemma run_lossless:
  assumes "ok s" "fifo_run put isemp get ops s = (outs, s')"
    and "length (contents s) + length (puts ops) \<le> cap"
  shows "map the (filter (\<lambda>x. x \<noteq> None) outs) @ contents s' = contents s @ puts ops"
  using run_refines [OF assms(1,2)] assms(3) queue_run_lossless by blast

end

end
