(* ===== verification/Serial_Inv.thy ===== *)
theory Serial_Inv
  imports Serial "HOL-Library.Sublist"
begin

text \<open>
  Safety of the serial driver for every kernel and every line: the invariant of its state, what
  the interrupt handler does to the ring and to a reader's buffer, and the contracts of the two
  blocking reads.
\<close>

section \<open>State predicates\<close>

text \<open>No reader has lent its buffer to the interrupt handler.\<close>

definition serial_idle :: "'w sys \<Rightarrow> bool" where
  "serial_idle s \<longleftrightarrow> ring_ok UART1 s \<and> irq_ptr (dev s UART0) = 0"

text \<open>
  \<open>uart_read_buf\<close> is collecting up to \<open>mx\<close> bytes at \<open>p\<close>, in a memory that was \<open>m\<close> when it
  started, and has \<open>got\<close> so far. While there is room the ring is empty; once the buffer is full
  the handler has given it back.
\<close>

definition collecting :: "memory \<Rightarrow> nat \<Rightarrow> nat \<Rightarrow> u8 list \<Rightarrow> 'w sys \<Rightarrow> bool" where
  "collecting m p mx got s \<longleftrightarrow> ring_ok UART1 s \<and> p \<noteq> 0 \<and> length got \<le> mx
     \<and> mem s = mem_write m p got
     \<and> irq_nbytes (dev s UART0) = int (length got) \<and> irq_max (dev s UART0) = int mx
     \<and> (if length got < mx then irq_ptr (dev s UART0) = p \<and> rx_contents UART1 s = []
        else irq_ptr (dev s UART0) = 0)"

lemma ring_ok_frame:
  "dev s' n = dev s n \<Longrightarrow> g_uartBuf s' = g_uartBuf s \<Longrightarrow> ring_ok n s' = ring_ok n s"
  by (simp add: ring_ok_def)

lemma rx_contents_frame:
  "dev s' n = dev s n \<Longrightarrow> g_uartBuf s' = g_uartBuf s \<Longrightarrow> rx_contents n s' = rx_contents n s"
  by (simp add: rx_contents_def rx_count_def)

lemma serial_idle_frame:
  "dev s' = dev s \<Longrightarrow> g_uartBuf s' = g_uartBuf s \<Longrightarrow> serial_idle s' = serial_idle s"
  by (simp add: serial_idle_def ring_ok_def)

lemma collecting_frame:
  "dev s' = dev s \<Longrightarrow> g_uartBuf s' = g_uartBuf s \<Longrightarrow> mem s' = mem s \<Longrightarrow>
    collecting m p mx got s' = collecting m p mx got s"
  by (simp add: collecting_def ring_ok_def rx_contents_def rx_count_def)

lemma world_update_frame [simp]:
  "rx_contents n (s\<lparr>world := w\<rparr>) = rx_contents n s" "ring_ok n (s\<lparr>world := w\<rparr>) = ring_ok n s"
  "serial_idle (s\<lparr>world := w\<rparr>) = serial_idle s"
  "collecting m p mx got (s\<lparr>world := w\<rparr>) = collecting m p mx got s"
  by (simp_all add: rx_contents_def rx_count_def ring_ok_def serial_idle_def collecting_def)

lemma mem_update_frame [simp]:
  "rx_contents n (s\<lparr>mem := m\<rparr>) = rx_contents n s" "ring_ok n (s\<lparr>mem := m\<rparr>) = ring_ok n s"
  "serial_idle (s\<lparr>mem := m\<rparr>) = serial_idle s"
  by (simp_all add: rx_contents_def rx_count_def ring_ok_def serial_idle_def)

lemma call_frame_ring [simp]:
  "rx_contents n (call K c s) = rx_contents n s" "ring_ok n (call K c s) = ring_ok n s"
  "serial_idle (call K c s) = serial_idle s"
  "collecting m p mx got (call K c s) = collecting m p mx got s"
  by (simp_all add: rx_contents_def rx_count_def ring_ok_def serial_idle_def collecting_def)

lemma print_frame_ring [simp]:
  "rx_contents n (print t s) = rx_contents n s" "serial_idle (print t s) = serial_idle s"
  by (simp_all add: rx_contents_def rx_count_def ring_ok_def serial_idle_def)

lemma getc_frame [simp]:
  "mem (snd (uart_getc_unsafe K n c s)) = mem s"
  "console (snd (uart_getc_unsafe K n c s)) = console s"
  "irq_ptr (dev (snd (uart_getc_unsafe K n c s)) m) = irq_ptr (dev s m)"
  "irq_nbytes (dev (snd (uart_getc_unsafe K n c s)) m) = irq_nbytes (dev s m)"
  "irq_max (dev (snd (uart_getc_unsafe K n c s)) m) = irq_max (dev s m)"
  by (simp_all add: uart_getc_unsafe_def Let_def)

lemma pop_frame [simp]:
  "mem (snd (rx_pop n s)) = mem s" "console (snd (rx_pop n s)) = console s"
  "world (snd (rx_pop n s)) = world s"
  "irq_ptr (dev (snd (rx_pop n s)) m) = irq_ptr (dev s m)"
  by (simp_all add: rx_pop_def)

lemma upd_irq_frame [simp]:
  "rx_contents UART1 (upd_dev UART0 f s) = rx_contents UART1 s"
  "ring_ok UART1 (upd_dev UART0 f s) = ring_ok UART1 s"
  by (simp_all add: rx_contents_def rx_count_def ring_ok_def)

section \<open>The interrupt handler\<close>

text \<open>With no buffer lent, the handler appends to the ring what fits and drops the rest.\<close>

lemma irq_byte_idle:
  "irq_ptr (dev s UART0) = 0 \<Longrightarrow> irq_byte K n c s = snd (uart_getc_unsafe K n c s)"
  by (simp add: irq_byte_def)

lemma getcs_frame:
  "irq_ptr (dev (foldl (\<lambda>s c. snd (uart_getc_unsafe K n c s)) s fifo) m) = irq_ptr (dev s m)"
  "mem (foldl (\<lambda>s c. snd (uart_getc_unsafe K n c s)) s fifo) = mem s"
  "console (foldl (\<lambda>s c. snd (uart_getc_unsafe K n c s)) s fifo) = console s"
  by (induction fifo arbitrary: s) simp_all

lemma handler_idle_fold:
  "irq_ptr (dev s UART0) = 0 \<Longrightarrow>
    UartIrqHandler K n fifo s = foldl (\<lambda>s c. snd (uart_getc_unsafe K n c s)) s fifo"
  by (induction fifo arbitrary: s) (simp_all add: irq_byte_idle)

lemma handler_idle:
  assumes "serial_idle s"
  shows "serial_idle (UartIrqHandler K UART1 fifo s)"
    and "rx_contents UART1 (UartIrqHandler K UART1 fifo s)
           = rx_contents UART1 s @ take (255 - length (rx_contents UART1 s)) fifo"
    and "mem (UartIrqHandler K UART1 fifo s) = mem s"
    and "console (UartIrqHandler K UART1 fifo s) = console s"
  using assms rx_ring.puts_inv [of UART1 s K fifo] rx_ring.puts_contents [of UART1 s K fifo]
  by (simp_all add: serial_idle_def handler_idle_fold getcs_frame)

text \<open>One byte while \<open>uart_read_buf\<close> is collecting.\<close>

lemma irq_byte_collecting:
  assumes "collecting m p mx got s"
  shows "collecting m p mx (got @ take (mx - length got) [c]) (irq_byte K UART1 c s)"
    and "rx_contents UART1 (irq_byte K UART1 c s)
           = rx_contents UART1 s @ take (255 - length (rx_contents UART1 s)) (drop (mx - length got) [c])"
    and "console (irq_byte K UART1 c s) = console s"
proof -
  let ?s' = "irq_byte K UART1 c s"
  show "collecting m p mx (got @ take (mx - length got) [c]) ?s'"
  proof (cases "length got < mx")
    case True
    with assms have t: "take (mx - length got) [c] = [c]" by simp
    show ?thesis
      using assms True by (simp add: t collecting_def irq_byte_def Let_def mem_write_snoc)
  next
    case False
    with assms show ?thesis
      by (simp add: collecting_def irq_byte_def ring_ok_getc)
  qed
  show "rx_contents UART1 ?s'
      = rx_contents UART1 s @ take (255 - length (rx_contents UART1 s)) (drop (mx - length got) [c])"
  proof (cases "length got < mx")
    case True
    with assms have "drop (mx - length got) [c] = []" by simp
    then show ?thesis
      using assms True by (simp add: collecting_def irq_byte_def Let_def)
  next
    case False
    with assms show ?thesis
      by (simp add: collecting_def irq_byte_def rx_contents_getc)
  qed
  show "console ?s' = console s"
    by (simp add: irq_byte_def Let_def)
qed

lemma handler_collecting:
  "collecting m p mx got s \<Longrightarrow>
    collecting m p mx (got @ take (mx - length got) fifo) (UartIrqHandler K UART1 fifo s)
    \<and> rx_contents UART1 (UartIrqHandler K UART1 fifo s)
        = rx_contents UART1 s @ take (255 - length (rx_contents UART1 s)) (drop (mx - length got) fifo)
    \<and> console (UartIrqHandler K UART1 fifo s) = console s"
proof (induction fifo arbitrary: got s)
  case (Cons c fifo)
  let ?s1 = "irq_byte K UART1 c s" and ?got1 = "got @ take (mx - length got) [c]"
  note step = irq_byte_collecting [OF Cons.prems, where c = c and K = K]
  note IH = Cons.IH [OF step(1)]
  have len: "mx - length ?got1 = mx - length got - 1" by simp
  have got: "?got1 @ take (mx - length ?got1) fifo = got @ take (mx - length got) (c # fifo)"
    unfolding len by (cases "mx - length got") simp_all
  have rest: "drop (mx - length got) [c] @ drop (mx - length ?got1) fifo = drop (mx - length got) (c # fifo)"
    unfolding len by (cases "mx - length got") simp_all
  have "take k xs @ take (k - length (take k xs)) ys = take k (xs @ ys)" for k and xs ys :: "u8 list"
    by (simp add: min_def)
  with IH step(2) rest show ?case
    by (simp only: got UartIrqHandler.simps step(3)) (metis (no_types, lifting) append.assoc diff_diff_left length_append)
qed simp

section \<open>Rules for the sleeping calls\<close>

text \<open>An invariant of the handler holds when \<open>LOS_EventRead\<close> returns, if it returns.\<close>

lemma event_wait_rule:
  assumes run: "event_wait K t s = Some (r, s')" and init: "I s"
    and irq: "\<And>s fifo w. I s \<Longrightarrow> event_read K t (world s) = (Irq fifo, w)
        \<Longrightarrow> I (UartIrqHandler K UART1 fifo (s\<lparr>world := w\<rparr>))"
    and ret: "\<And>s r w. I s \<Longrightarrow> event_read K t (world s) = (Return r, w) \<Longrightarrow> Q r (s\<lparr>world := w\<rparr>)"
  shows "Q r s'"
proof -
  have "K = K \<longrightarrow> t = t \<longrightarrow> I s \<longrightarrow> Q (fst (r, s')) (snd (r, s'))"
  proof (rule event_wait.raw_induct
      [where P = "\<lambda>K' t' s x. K' = K \<longrightarrow> t' = t \<longrightarrow> I s \<longrightarrow> Q (fst x) (snd x)", OF _ run])
    fix f K' t' and s :: "'a sys" and x
    assume IH: "\<And>K' t' s x. f K' t' s = Some x \<Longrightarrow> K' = K \<longrightarrow> t' = t \<longrightarrow> I s \<longrightarrow> Q (fst x) (snd x)"
      and eq: "(case event_read K' t' (world s) of
          (Irq fifo, w) \<Rightarrow> f K' t' (UartIrqHandler K' UART1 fifo (s\<lparr>world := w\<rparr>))
        | (Return ret, w) \<Rightarrow> Some (ret, s\<lparr>world := w\<rparr>)) = Some x"
    show "K' = K \<longrightarrow> t' = t \<longrightarrow> I s \<longrightarrow> Q (fst x) (snd x)"
    proof (intro impI)
      assume [simp]: "K' = K" "t' = t" and "I s"
      obtain a w where ev: "event_read K t (world s) = (a, w)" by force
      show "Q (fst x) (snd x)"
      proof (cases a)
        case (Irq fifo)
        with eq ev IH irq [OF \<open>I s\<close>, of fifo w] show ?thesis by simp
      next
        case (Return ret)
        with eq ev assms(4) [OF \<open>I s\<close>, of ret w] show ?thesis by auto
      qed
    qed
  qed
  with init show ?thesis by simp
qed

lemma uart_read_locked_rule:
  assumes run: "uart_read_locked K t s = Some (r, s')" and init: "I s"
    and wait: "\<And>s ret s1. I s \<Longrightarrow> rx_empty UART1 s \<Longrightarrow> event_wait K t s = Some (ret, s1) \<Longrightarrow>
        I s1 \<and> (ret AND LOS_ERRTYPE_ERROR K \<noteq> 0 \<longrightarrow> Q (-1) s1)"
    and pop: "\<And>s c s1. I s \<Longrightarrow> \<not> rx_empty UART1 s \<Longrightarrow> rx_pop UART1 s = (c, s1) \<Longrightarrow> Q (uint c) s1"
  shows "Q r s'"
proof -
  have "K = K \<longrightarrow> t = t \<longrightarrow> I s \<longrightarrow> Q (fst (r, s')) (snd (r, s'))"
  proof (rule uart_read_locked.raw_induct
      [where P = "\<lambda>K' t' s x. K' = K \<longrightarrow> t' = t \<longrightarrow> I s \<longrightarrow> Q (fst x) (snd x)", OF _ run])
    fix f K' t' and s :: "'a sys" and x
    assume IH: "\<And>K' t' s x. f K' t' s = Some x \<Longrightarrow> K' = K \<longrightarrow> t' = t \<longrightarrow> I s \<longrightarrow> Q (fst x) (snd x)"
      and eq: "(if rx_empty UART1 s then
            event_wait K' t' s \<bind> (\<lambda>(ret, s1). if ret AND LOS_ERRTYPE_ERROR K' \<noteq> 0
              then Some (- 1, s1) else f K' t' s1)
          else let (c, s1) = rx_pop UART1 s in Some (uint c, s1)) = Some x"
    show "K' = K \<longrightarrow> t' = t \<longrightarrow> I s \<longrightarrow> Q (fst x) (snd x)"
    proof (intro impI)
      assume KT: "K' = K" "t' = t" and I: "I s"
      note eq = eq [unfolded KT]
      show "Q (fst x) (snd x)"
      proof (cases "rx_empty UART1 s")
        case True
        with eq obtain ret s1 where ev: "event_wait K t s = Some (ret, s1)"
          and rest: "(if ret AND LOS_ERRTYPE_ERROR K \<noteq> 0 then Some (- 1, s1) else f K t s1) = Some x"
          by (auto simp: bind_eq_Some_conv)
        from wait [OF I True ev] rest IH show ?thesis
          by (auto split: if_splits)
      next
        case False
        with eq pop [OF I False] show ?thesis
          by (auto split: prod.splits)
      qed
    qed
  qed
  with init show ?thesis by simp
qed

section \<open>Contracts of the reads\<close>

text \<open>What a reader may rely on of everything but the arriving bytes.\<close>

definition same_rest :: "'w sys \<Rightarrow> 'w sys \<Rightarrow> bool" where
  "same_rest s s' \<longleftrightarrow> mem s' = mem s \<and> console s' = console s"

lemma run_irqs_idle:
  assumes "serial_idle s"
  shows "serial_idle (run_irqs K s) \<and> same_rest s (run_irqs K s)"
proof -
  have "serial_idle (foldl (\<lambda>s f. UartIrqHandler K UART1 f s) s fs)
      \<and> same_rest s (foldl (\<lambda>s f. UartIrqHandler K UART1 f s) s fs)" if "serial_idle s" for s fs
    using that by (induction fs arbitrary: s) (simp_all add: handler_idle same_rest_def)
  from this [of "s\<lparr>world := w\<rparr>" for w] assms show ?thesis
    by (simp add: run_irqs_def same_rest_def split: prod.split)
qed

lemma event_wait_idle:
  assumes "serial_idle s" "event_wait K t s = Some (r, s')"
  shows "serial_idle s' \<and> same_rest s s'"
  by (rule event_wait_rule [OF assms(2), where I = "\<lambda>x. serial_idle x \<and> same_rest s x"])
    (use assms in \<open>auto simp: handler_idle same_rest_def\<close>)

lemma uart_read_safe:
  assumes idle: "serial_idle s" and run: "uart_read K t s = Some (c, s')"
  shows "serial_idle s' \<and> same_rest s s' \<and> (c = -1 \<or> 0 \<le> c \<and> c < 256)"
proof -
  let ?I = "\<lambda>x. serial_idle x \<and> same_rest s x"
  have "uart_read_locked K t (run_irqs K s) = Some (c, s')"
    using run by (simp add: uart_read_def)
  then show ?thesis
  proof (rule uart_read_locked_rule
      [where I = ?I and Q = "\<lambda>c x. serial_idle x \<and> same_rest s x \<and> (c = -1 \<or> 0 \<le> c \<and> c < 256)"])
    show "?I (run_irqs K s)" by (rule run_irqs_idle [OF idle])
  next
    fix s0 s1 ret
    assume "?I s0" "event_wait K t s0 = Some (ret, s1)"
    then show "?I s1 \<and> (ret AND LOS_ERRTYPE_ERROR K \<noteq> 0 \<longrightarrow>
        serial_idle s1 \<and> same_rest s s1 \<and> (- 1 = (- 1 :: int) \<or> 0 \<le> (- 1 :: int) \<and> (- 1 :: int) < 256))"
      using event_wait_idle [of s0 K t ret s1] by (auto simp: same_rest_def)
  next
    fix s0 b s1
    assume "?I s0" "rx_pop UART1 s0 = (b, s1)"
    then show "serial_idle s1 \<and> same_rest s s1 \<and> (uint b = - 1 \<or> 0 \<le> uint b \<and> uint b < 256)"
      using ring_ok_pop [of UART1 s0] pop_frame [of UART1 s0]
      by (auto simp: serial_idle_def same_rest_def)
  qed
qed

text \<open>What the ring held goes to the buffer first, in order.\<close>

lemma rx_contents_drop_pop:
  "ring_ok n s \<Longrightarrow> rx_contents n s = b # bs \<Longrightarrow> rx_pop n s = (c, s') \<Longrightarrow> c = b \<and> rx_contents n s' = bs"
  using rx_contents_pop by fastforce

lemma uart_drain_spec:
  assumes "serial_idle s" "0 \<le> nb" "bs = take (nat (mx - nb)) (rx_contents UART1 s)"
  shows "\<exists>s'. uart_drain p mx nb s = (nb + int (length bs), s') \<and> serial_idle s'
    \<and> mem s' = mem_write (mem s) (p + nat nb) bs
    \<and> rx_contents UART1 s' = drop (length bs) (rx_contents UART1 s)
    \<and> console s' = console s \<and> world s' = world s"
  using assms
proof (induction p mx nb s arbitrary: bs rule: uart_drain.induct)
  case (1 p mx nb s)
  have ok: "ring_ok UART1 s" using "1.prems"(1) by (simp add: serial_idle_def)
  show ?case
  proof (cases "nb < mx \<and> \<not> rx_empty UART1 s")
    case False
    then have bs: "bs = []"
      using "1.prems"(3) rx_empty_contents [OF ok] by auto
    have "uart_drain p mx nb s = (nb, s)"
      using False by (subst uart_drain.simps) (simp only: if_False)
    then show ?thesis using "1.prems"(1) by (simp add: bs)
  next
    case True
    then obtain b rest where cont: "rx_contents UART1 s = b # rest"
      using rx_empty_contents [OF ok] by (cases "rx_contents UART1 s") auto
    obtain c s1 where pop: "rx_pop UART1 s = (c, s1)" by force
    let ?s2 = "s1\<lparr>mem := (mem s1)(p + nat nb := c)\<rparr>"
    let ?bs = "take (nat (mx - (nb + 1))) rest"
    have c: "c = b" "rx_contents UART1 s1 = rest"
      using rx_contents_drop_pop [OF ok cont pop] by auto
    have fr: "mem s1 = mem s" "console s1 = console s" "world s1 = world s" "serial_idle ?s2"
      using pop_frame [of UART1 s] ring_ok_pop [OF ok] pop "1.prems"(1)
      by (auto simp: serial_idle_def)
    have "\<exists>s'. uart_drain p mx (nb + 1) ?s2 = (nb + 1 + int (length ?bs), s') \<and> serial_idle s'
      \<and> mem s' = mem_write (mem ?s2) (p + nat (nb + 1)) ?bs
      \<and> rx_contents UART1 s' = drop (length ?bs) (rx_contents UART1 ?s2)
      \<and> console s' = console ?s2 \<and> world s' = world ?s2"
      using "1.IH" [OF True pop [symmetric] refl fr(4)] "1.prems"(2) c(2)
      by (simp del: fun_upd_apply)
    moreover have "nat (mx - nb) = Suc (nat (mx - (nb + 1)))"
      using True by linarith
    then have "bs = b # ?bs"
      using "1.prems"(3) cont by simp
    moreover have "p + nat (nb + 1) = Suc (p + nat nb)"
      using "1.prems"(2) by simp
    ultimately show ?thesis
      using True pop c fr cont
      by (simp add: uart_drain.simps [of p mx nb s] mem_write_Cons add.assoc)
  qed
qed

text \<open>While the task sleeps the interrupt handler goes on collecting into the buffer.\<close>

lemma event_wait_collecting:
  assumes "collecting m p mx got s" "event_wait (K :: 'a kernel) t s = Some (ret, s')"
  shows "\<exists>got'. collecting m p mx got' s' \<and> console s' = console s"
proof (rule event_wait_rule [OF assms(2), where I = "\<lambda>x. \<exists>got'. collecting m p mx got' x \<and> console x = console s"])
  show "\<exists>got'. collecting m p mx got' s \<and> console s = console s" using assms(1) by auto
next
  fix x :: "'a sys" and fifo and w :: 'a
  assume "\<exists>got'. collecting m p mx got' x \<and> console x = console s"
  then obtain got' where "collecting m p mx got' (x\<lparr>world := w\<rparr>)" "console x = console s" by auto
  from handler_collecting [OF this(1), where K = K and fifo = fifo] this(2)
  show "\<exists>got'. collecting m p mx got' (UartIrqHandler K UART1 fifo (x\<lparr>world := w\<rparr>))
      \<and> console (UartIrqHandler K UART1 fifo (x\<lparr>world := w\<rparr>)) = console s" by auto
qed auto

lemma uart_read_buf_safe:
  assumes idle: "serial_idle s" and p: "p \<noteq> 0" and mx: "0 \<le> mx"
    and run: "uart_read_buf (K :: 'a kernel) t p mx s = Some (n, s')"
  shows "serial_idle s' \<and> console s' = console s \<and> 0 \<le> n \<and> n \<le> mx
    \<and> (\<exists>got. int (length got) = n \<and> mem s' = mem_write (mem s) p got)"
proof -
  define s0 where "s0 = run_irqs K s"
  have s0: "serial_idle s0" "mem s0 = mem s" "console s0 = console s"
    using run_irqs_idle [OF idle, of K] by (auto simp: s0_def same_rest_def)
  define bs where "bs = take (nat mx) (rx_contents UART1 s0)"
  obtain s1 where dr: "uart_drain p mx 0 s0 = (int (length bs), s1)" and s1: "serial_idle s1"
    "mem s1 = mem_write (mem s) p bs" "rx_contents UART1 s1 = drop (length bs) (rx_contents UART1 s0)"
    "console s1 = console s"
    using uart_drain_spec [OF s0(1), of 0 bs mx p] s0 by (auto simp: bs_def)
  have len: "length bs \<le> nat mx" by (simp add: bs_def)
  show ?thesis
  proof (cases "int (length bs) < mx \<and> t \<noteq> 0")
    case False
    with run dr have "n = int (length bs)" "s' = s1"
      by (auto simp: uart_read_buf_def Let_def simp flip: s0_def)
    with s1 len mx show ?thesis by auto
  next
    case True
    let ?s2 = "call K (LOS_EventClear UART1 (NOT 1))
      (upd_dev UART0 (\<lambda>d. d\<lparr>irq_ptr := p, irq_nbytes := int (length bs), irq_max := mx\<rparr>) s1)"
    from True have "rx_contents UART1 s1 = []"
      by (auto simp: s1(3) bs_def min_def split: if_splits)
    moreover have "length bs < nat mx" using True by linarith
    ultimately have coll: "collecting (mem s) p (nat mx) bs ?s2"
      using s1 p mx by (simp add: collecting_def serial_idle_def)
    from run dr True obtain ret s4 where ev: "event_wait K t ?s2 = Some (ret, s4)"
      and n: "n = irq_nbytes (dev s4 UART0)"
      and s': "s' = upd_dev UART0 (\<lambda>d. d\<lparr>irq_ptr := 0, irq_nbytes := 0, irq_max := 0\<rparr>) s4"
      by (auto simp: uart_read_buf_def Let_def bind_eq_Some_conv simp flip: s0_def)
    from event_wait_collecting [OF coll ev] s1(4) obtain got where
      "collecting (mem s) p (nat mx) got s4" "console s4 = console s" by auto
    with n s' mx show ?thesis
      by (auto simp: collecting_def serial_idle_def)
  qed
qed

end
