(* ===== verification/Uart_Port.thy ===== *)
theory Uart_Port
  imports Serial_Inv
begin

text \<open>
  The interface between the serial driver and the code that uses it (the XMODEM receiver and the
  command console of \<open>ota_demo/ota_demo/app.c\<close>), as two locales. \<open>rx_port\<close> is what any line
  guarantees: a read returns a byte or \<open>-1\<close>, a block read writes only into its buffer. \<open>rx_line\<close>
  adds what the reads return when the line behaves as a timed stream of bytes and silences. The
  driver of \<open>Serial\<close> is shown to provide the first for every kernel, and the second for every
  kernel that behaves as the kernel's and the chip's documentation say (\<open>line_kernel\<close>).
\<close>

section \<open>The operations the clients call\<close>

record 'w port =
  port_read :: "u32 \<Rightarrow> 'w sys \<Rightarrow> (int \<times> 'w sys) option"
  port_read_buf :: "u32 \<Rightarrow> nat \<Rightarrow> int \<Rightarrow> 'w sys \<Rightarrow> (int \<times> 'w sys) option"
  port_send :: "u8 \<Rightarrow> 'w sys \<Rightarrow> 'w sys"
  port_ticks :: "u32 \<Rightarrow> u32"

text \<open>
  The port that the OTA demo links: \<open>uart_read\<close> and \<open>uart_read_buf\<close> of \<open>serial.c\<close>, and the chip's
  \<open>uart_send_byte\<close> on UART1.
\<close>

definition serial_port :: "'w kernel \<Rightarrow> 'w port" where
  "serial_port K = \<lparr>port_read = uart_read K, port_read_buf = uart_read_buf K,
     port_send = (\<lambda>b. call K (Uart_send_byte SERVICE_UART_PORT b)), port_ticks = LOS_MS2Tick K\<rparr>"

locale rx_port =
  fixes io :: "'w port" and ok :: "'w sys \<Rightarrow> bool"
  assumes read_safe: "ok s \<Longrightarrow> port_read io t s = Some (c, s') \<Longrightarrow>
      ok s' \<and> same_rest s s' \<and> (c = -1 \<or> 0 \<le> c \<and> c < 256)"
    and read_buf_safe: "ok s \<Longrightarrow> p \<noteq> 0 \<Longrightarrow> 0 \<le> mx \<Longrightarrow> port_read_buf io t p mx s = Some (n, s') \<Longrightarrow>
      ok s' \<and> console s' = console s \<and> 0 \<le> n \<and> n \<le> mx
      \<and> (\<exists>got. int (length got) = n \<and> mem s' = mem_write (mem s) p got)"
    and send_safe: "ok s \<Longrightarrow> ok (port_send io b s) \<and> same_rest s (port_send io b s)"
    and ok_mem: "ok (s\<lparr>mem := m\<rparr>) = ok s"
    and ok_print: "ok (print txt s) = ok s"
    and ok_world: "ok (s\<lparr>world := w\<rparr>) = ok s"

interpretation serial_rx: rx_port "serial_port K" serial_idle for K
proof unfold_locales
  show "serial_idle s' \<and> same_rest s s' \<and> (c = -1 \<or> 0 \<le> c \<and> c < 256)"
    if "serial_idle s" "port_read (serial_port K) t s = Some (c, s')" for s t c s'
    using that by (simp add: serial_port_def uart_read_safe)
  show "serial_idle s' \<and> console s' = console s \<and> 0 \<le> n \<and> n \<le> mx
      \<and> (\<exists>got. int (length got) = n \<and> mem s' = mem_write (mem s) p got)"
    if "serial_idle s" "p \<noteq> 0" "0 \<le> mx" "port_read_buf (serial_port K) t p mx s = Some (n, s')"
    for s p mx t n s'
    using uart_read_buf_safe [OF that(1-3)] that(4) by (simp add: serial_port_def)
qed (simp_all add: serial_port_def same_rest_def)

section \<open>A line that is a stream of bytes and silences\<close>

text \<open>
  \<open>Silence\<close> is a pause longer than the timeout of whatever read is waiting. The end of the stream
  is silence for ever.
\<close>

datatype rx_item = Byte u8 | Silence

definition quiet :: "rx_item list \<Rightarrow> bool" where
  "quiet xs \<longleftrightarrow> xs = [] \<or> (\<exists>ys. xs = Silence # ys)"

lemma quiet_intros [simp]: "quiet []" "quiet (Silence # xs)"
  by (simp_all add: quiet_def)

definition finite_timeout :: "u32 \<Rightarrow> bool" where
  "finite_timeout t \<longleftrightarrow> t \<noteq> 0 \<and> t \<noteq> 0xFFFFFFFF"

text \<open>
  \<open>sent\<close> is the log of what the program transmitted, \<open>obs\<close> anything else of the world that the
  reads and sends leave alone.
\<close>

locale rx_line = rx_port +
  fixes stream :: "'a sys \<Rightarrow> rx_item list" and sent :: "'a \<Rightarrow> u8 list" and obs :: "'a \<Rightarrow> 'o"
  assumes read_byte: "ok s \<Longrightarrow> t \<noteq> 0 \<Longrightarrow> stream s = Byte b # r \<Longrightarrow>
      \<exists>s'. port_read io t s = Some (uint b, s') \<and> stream s' = r
        \<and> sent (world s') = sent (world s) \<and> obs (world s') = obs (world s)"
    and read_quiet: "ok s \<Longrightarrow> finite_timeout t \<Longrightarrow> quiet (stream s) \<Longrightarrow>
      \<exists>s'. port_read io t s = Some (-1, s') \<and> stream s' = tl (stream s)
        \<and> sent (world s') = sent (world s) \<and> obs (world s') = obs (world s)"
    and read_buf_full: "ok s \<Longrightarrow> finite_timeout t \<Longrightarrow> p \<noteq> 0 \<Longrightarrow> mx = int (length bs) \<Longrightarrow>
      stream s = map Byte bs @ r \<Longrightarrow>
      \<exists>s'. port_read_buf io t p mx s = Some (mx, s') \<and> stream s' = r
        \<and> mem s' = mem_write (mem s) p bs
        \<and> sent (world s') = sent (world s) \<and> obs (world s') = obs (world s)"
    and read_buf_short: "ok s \<Longrightarrow> finite_timeout t \<Longrightarrow> p \<noteq> 0 \<Longrightarrow> int (length bs) < mx \<Longrightarrow>
      quiet q \<Longrightarrow> stream s = map Byte bs @ q \<Longrightarrow>
      \<exists>s'. port_read_buf io t p mx s = Some (int (length bs), s') \<and> stream s' = tl q
        \<and> mem s' = mem_write (mem s) p bs
        \<and> sent (world s') = sent (world s) \<and> obs (world s') = obs (world s)"
    and send_line: "stream (port_send io b s) = stream s"
      "sent (world (port_send io b s)) = sent (world s) @ [b]"
      "obs (world (port_send io b s)) = obs (world s)"
    and stream_mem: "stream (s\<lparr>mem := m\<rparr>) = stream s"
    and stream_print: "stream (print txt s) = stream s"
    and ticks_finite: "0 < ms \<Longrightarrow> ms < 0xFFFFFFFF \<Longrightarrow> finite_timeout (port_ticks io ms)"
    and ticks_forever: "port_ticks io 0xFFFFFFFF \<noteq> 0"

section \<open>Kernels that behave as documented\<close>

text \<open>
  \<open>line\<close> is what the hardware has still to deliver, \<open>pend\<close> whether the receive event is set.
  \<^item> \<open>LOS_EventRead\<close> returns at once, clearing the event, when it is set;
  \<^item> otherwise the next byte on the line raises the interrupt,
  \<^item> and a pause ends the call with an error code, if the timeout is finite;
  \<^item> \<open>LOS_EventWrite\<close> sets the event, \<open>LOS_EventClear\<close> with \<open>~1\<close> clears it;
  \<^item> bytes arrive only while the program waits for them, a finite number of milliseconds is
    a finite, nonzero number of ticks, and \<open>LOS_WAIT_FOREVER\<close> is not zero ticks.
\<close>

definition line_kernel ::
    "'w kernel \<Rightarrow> ('w \<Rightarrow> rx_item list) \<Rightarrow> ('w \<Rightarrow> bool) \<Rightarrow> ('w \<Rightarrow> u8 list) \<Rightarrow> ('w \<Rightarrow> 'o) \<Rightarrow> bool" where
  "line_kernel K line pend sent obs \<longleftrightarrow>
     (\<forall>w t. pend w \<longrightarrow> (\<exists>r w'. event_read K t w = (Return r, w') \<and> r AND LOS_ERRTYPE_ERROR K = 0
        \<and> \<not> pend w' \<and> line w' = line w \<and> sent w' = sent w \<and> obs w' = obs w))
   \<and> (\<forall>w t b r. \<not> pend w \<and> t \<noteq> 0 \<and> line w = Byte b # r \<longrightarrow> (\<exists>w'. event_read K t w = (Irq [b], w')
        \<and> \<not> pend w' \<and> line w' = r \<and> sent w' = sent w \<and> obs w' = obs w))
   \<and> (\<forall>w t. \<not> pend w \<and> finite_timeout t \<and> quiet (line w) \<longrightarrow> (\<exists>e w'. event_read K t w = (Return e, w')
        \<and> e AND LOS_ERRTYPE_ERROR K \<noteq> 0 \<and> \<not> pend w' \<and> line w' = tl (line w)
        \<and> sent w' = sent w \<and> obs w' = obs w))
   \<and> (\<forall>w. let w' = snd (os_call K (LOS_EventWrite UART1 1) w)
        in pend w' \<and> line w' = line w \<and> sent w' = sent w \<and> obs w' = obs w)
   \<and> (\<forall>w. let w' = snd (os_call K (LOS_EventClear UART1 (NOT 1)) w)
        in \<not> pend w' \<and> line w' = line w \<and> sent w' = sent w \<and> obs w' = obs w)
   \<and> (\<forall>w b. let w' = snd (os_call K (Uart_send_byte UART1 b) w)
        in pend w' = pend w \<and> line w' = line w \<and> sent w' = sent w @ [b] \<and> obs w' = obs w)
   \<and> (\<forall>w. irq_pending K w = ([], w))
   \<and> (\<forall>ms. 0 < ms \<and> ms < 0xFFFFFFFF \<longrightarrow> finite_timeout (LOS_MS2Tick K ms))
   \<and> LOS_MS2Tick K 0xFFFFFFFF \<noteq> 0"

lemma line_kernel_elims:
  assumes "line_kernel K line pend sent obs"
  shows "pend w \<Longrightarrow> \<exists>r w'. event_read K t w = (Return r, w') \<and> r AND LOS_ERRTYPE_ERROR K = 0
        \<and> \<not> pend w' \<and> line w' = line w \<and> sent w' = sent w \<and> obs w' = obs w"
    and "\<not> pend w \<Longrightarrow> t \<noteq> 0 \<Longrightarrow> line w = Byte b # r \<Longrightarrow> \<exists>w'. event_read K t w = (Irq [b], w')
        \<and> \<not> pend w' \<and> line w' = r \<and> sent w' = sent w \<and> obs w' = obs w"
    and "\<not> pend w \<Longrightarrow> finite_timeout t \<Longrightarrow> quiet (line w) \<Longrightarrow> \<exists>e w'. event_read K t w = (Return e, w')
        \<and> e AND LOS_ERRTYPE_ERROR K \<noteq> 0 \<and> \<not> pend w' \<and> line w' = tl (line w)
        \<and> sent w' = sent w \<and> obs w' = obs w"
  using assms unfolding line_kernel_def finite_timeout_def by blast+

lemma line_kernel_calls:
  assumes "line_kernel K line pend sent obs"
  shows "pend (snd (os_call K (LOS_EventWrite UART1 1) w))"
    "line (snd (os_call K (LOS_EventWrite UART1 1) w)) = line w"
    "sent (snd (os_call K (LOS_EventWrite UART1 1) w)) = sent w"
    "obs (snd (os_call K (LOS_EventWrite UART1 1) w)) = obs w"
    "\<not> pend (snd (os_call K (LOS_EventClear UART1 (NOT 1)) w))"
    "line (snd (os_call K (LOS_EventClear UART1 (NOT 1)) w)) = line w"
    "sent (snd (os_call K (LOS_EventClear UART1 (NOT 1)) w)) = sent w"
    "obs (snd (os_call K (LOS_EventClear UART1 (NOT 1)) w)) = obs w"
    "line (snd (os_call K (Uart_send_byte UART1 b) w)) = line w"
    "sent (snd (os_call K (Uart_send_byte UART1 b) w)) = sent w @ [b]"
    "obs (snd (os_call K (Uart_send_byte UART1 b) w)) = obs w"
    "irq_pending K w = ([], w)"
    "0 < ms \<Longrightarrow> ms < 0xFFFFFFFF \<Longrightarrow> finite_timeout (LOS_MS2Tick K ms)"
    "LOS_MS2Tick K 0xFFFFFFFF \<noteq> 0"
  using assms unfolding line_kernel_def Let_def by blast+

end
