(* ===== verification/Serial_Line.thy ===== *)
theory Serial_Line
  imports Uart_Port
begin

text \<open>
  The driver delivers the line: with a kernel that behaves as documented (\<open>line_kernel\<close>), the
  reads of \<open>Serial\<close> return, in order and without loss, the bytes of the line, and \<open>-1\<close> or a
  short count at its pauses. This is the contract \<open>rx_line\<close> of the driver's clients.
\<close>

definition serial_stream :: "('w \<Rightarrow> rx_item list) \<Rightarrow> 'w sys \<Rightarrow> rx_item list" where
  "serial_stream line s = map Byte (rx_contents UART1 s) @ line (world s)"

lemma bytes_prefix_full:
  "map Byte c @ l = map Byte bs @ r \<Longrightarrow> length c \<le> length bs \<Longrightarrow>
    \<exists>zs. bs = c @ zs \<and> l = map Byte zs @ r"
proof (induction c arbitrary: bs)
  case (Cons x c)
  then show ?case by (cases bs) auto
qed simp

lemma bytes_prefix_short:
  "map Byte c @ l = map Byte bs @ r \<Longrightarrow> length bs \<le> length c \<Longrightarrow>
    \<exists>zs. c = bs @ zs \<and> r = map Byte zs @ l"
  using bytes_prefix_full [of bs r c l] by auto

lemma bytes_prefix_quiet:
  "map Byte c @ l = map Byte bs @ q \<Longrightarrow> quiet q \<Longrightarrow> length c \<le> length bs"
proof (induction c arbitrary: bs)
  case (Cons x c)
  then show ?case by (cases bs) (auto simp: quiet_def)
qed simp

lemma finite_timeout_nz: "finite_timeout t \<Longrightarrow> t \<noteq> 0"
  by (simp add: finite_timeout_def)

section \<open>One read\<close>

lemma getc_world:
  assumes "line_kernel K line pend sent obs" and "ring_ok UART1 s" and "rx_contents UART1 s = []"
  shows "pend (world (snd (uart_getc_unsafe K UART1 c s)))"
    "line (world (snd (uart_getc_unsafe K UART1 c s))) = line (world s)"
    "sent (world (snd (uart_getc_unsafe K UART1 c s))) = sent (world s)"
    "obs (world (snd (uart_getc_unsafe K UART1 c s))) = obs (world s)"
proof -
  have "rx_count UART1 s = 0"
    using assms(3) by (metis length_rx_contents list.size(3))
  then have "(rx_end (dev s UART1) + 1) mod 256 \<noteq> rx_start (dev s UART1)"
    using assms(2) ring_count_full by (auto simp: ring_ok_def rx_count_def)
  then show "pend (world (snd (uart_getc_unsafe K UART1 c s)))"
    "line (world (snd (uart_getc_unsafe K UART1 c s))) = line (world s)"
    "sent (world (snd (uart_getc_unsafe K UART1 c s))) = sent (world s)"
    "obs (world (snd (uart_getc_unsafe K UART1 c s))) = obs (world s)"
    using line_kernel_calls [OF assms(1)] by (simp_all add: uart_getc_unsafe_def Let_def)
qed

lemma wait_pend:
  assumes "line_kernel K line pend sent obs" "pend (world s)"
  shows "\<exists>r w'. event_wait K t s = Some (r, s\<lparr>world := w'\<rparr>) \<and> r AND LOS_ERRTYPE_ERROR K = 0
    \<and> \<not> pend w' \<and> line w' = line (world s) \<and> sent w' = sent (world s) \<and> obs w' = obs (world s)"
  using line_kernel_elims(1) [OF assms, of t] by (auto simp: event_wait.simps [of K t s])

lemma wait_byte:
  assumes L: "line_kernel K line pend sent obs" and idle: "serial_idle s" "rx_contents UART1 s = []"
    and t: "t \<noteq> 0" and np: "\<not> pend (world s)" and ln: "line (world s) = Byte b # r"
  shows "\<exists>e s'. event_wait K t s = Some (e, s') \<and> e AND LOS_ERRTYPE_ERROR K = 0
    \<and> rx_contents UART1 s' = [b] \<and> serial_idle s' \<and> line (world s') = r
    \<and> sent (world s') = sent (world s) \<and> obs (world s') = obs (world s)"
proof -
  obtain w1 where ev: "event_read K t (world s) = (Irq [b], w1)"
    and w1: "line w1 = r" "sent w1 = sent (world s)" "obs w1 = obs (world s)"
    using line_kernel_elims(2) [OF L np t ln] by blast
  let ?s1 = "s\<lparr>world := w1\<rparr>"
  let ?s2 = "UartIrqHandler K UART1 [b] ?s1"
  have idle1: "serial_idle ?s1" using idle(1) by simp
  have s2: "?s2 = snd (uart_getc_unsafe K UART1 b ?s1)"
    using idle(1) by (simp add: irq_byte_def serial_idle_def)
  have g: "pend (world ?s2)" "line (world ?s2) = r" "sent (world ?s2) = sent (world s)"
    "obs (world ?s2) = obs (world s)"
    unfolding s2 using getc_world [OF L, of ?s1 b] idle w1 by (auto simp: serial_idle_def)
  have h: "serial_idle ?s2" "rx_contents UART1 ?s2 = [b]"
    using handler_idle(1,2) [OF idle1, where K = K and fifo = "[b]"] idle(2)
    by (simp_all del: UartIrqHandler.simps)
  from wait_pend [OF L g(1), of t] obtain e w' where
    "event_wait K t ?s2 = Some (e, ?s2\<lparr>world := w'\<rparr>)" "e AND LOS_ERRTYPE_ERROR K = 0"
    "line w' = r" "sent w' = sent (world s)" "obs w' = obs (world s)"
    using g by auto
  moreover have "event_wait K t s = event_wait K t ?s2"
    by (simp add: event_wait.simps [of K t s] ev del: UartIrqHandler.simps)
  ultimately show ?thesis
    using h by (auto simp del: UartIrqHandler.simps)
qed

lemma wait_quiet:
  assumes L: "line_kernel K line pend sent obs"
    and t: "finite_timeout t" and np: "\<not> pend (world s)" and ln: "quiet (line (world s))"
  shows "\<exists>e w'. event_wait K t s = Some (e, s\<lparr>world := w'\<rparr>) \<and> e AND LOS_ERRTYPE_ERROR K \<noteq> 0
    \<and> line w' = tl (line (world s)) \<and> sent w' = sent (world s) \<and> obs w' = obs (world s)"
  using line_kernel_elims(3) [OF L np t ln] by (auto simp: event_wait.simps [of K t s])

lemma run_irqs_line:
  "line_kernel K line pend sent obs \<Longrightarrow> run_irqs K s = s"
  by (simp add: run_irqs_def line_kernel_calls(12))

text \<open>A ring that holds a byte answers at once.\<close>

lemma read_ring:
  assumes "serial_idle s" "rx_contents UART1 s = b # bs"
  shows "\<exists>s'. uart_read_locked K t s = Some (uint b, s') \<and> rx_contents UART1 s' = bs
    \<and> world s' = world s"
proof -
  have ok: "ring_ok UART1 s" using assms(1) by (simp add: serial_idle_def)
  obtain c s1 where pop: "rx_pop UART1 s = (c, s1)" by force
  have "c = b" "rx_contents UART1 s1 = bs" using rx_contents_drop_pop [OF ok assms(2) pop] by auto
  moreover have "world s1 = world s" using pop_frame(3) [of UART1 s] pop by simp
  moreover have "\<not> rx_empty UART1 s" using rx_empty_contents [OF ok] assms(2) by simp
  ultimately show ?thesis using pop by (simp add: uart_read_locked.simps [of K t s])
qed

lemma read_locked_wait:
  "serial_idle s \<Longrightarrow> rx_contents UART1 s = [] \<Longrightarrow> event_wait K t s = Some (e, s1) \<Longrightarrow>
    uart_read_locked K t s = (if e AND LOS_ERRTYPE_ERROR K \<noteq> 0 then Some (-1, s1)
      else uart_read_locked K t s1)"
  by (simp add: uart_read_locked.simps [of K t s] rx_empty_contents serial_idle_def)

lemma read_byte_unset:
  assumes L: "line_kernel K line pend sent obs" and idle: "serial_idle s" and t: "t \<noteq> 0"
    and np: "rx_contents UART1 s = [] \<Longrightarrow> \<not> pend (world s)" and st: "serial_stream line s = Byte b # r"
  shows "\<exists>s'. uart_read_locked K t s = Some (uint b, s') \<and> serial_stream line s' = r
        \<and> sent (world s') = sent (world s) \<and> obs (world s') = obs (world s)"
proof (cases "rx_contents UART1 s")
  case Nil
  with st have ln: "line (world s) = Byte b # r" by (simp add: serial_stream_def)
  from wait_byte [OF L idle Nil t np [OF Nil] ln] obtain e s1 where
    ev: "event_wait K t s = Some (e, s1)" "e AND LOS_ERRTYPE_ERROR K = 0" and
    s1: "rx_contents UART1 s1 = [b]" "serial_idle s1" "line (world s1) = r"
    "sent (world s1) = sent (world s)" "obs (world s1) = obs (world s)" by blast
  from read_ring [OF s1(2,1), of K t] read_locked_wait [OF idle Nil ev(1)] ev(2) s1
  show ?thesis by (auto simp: serial_stream_def)
next
  case (Cons c cs)
  with read_ring [OF idle Cons, of K t] st show ?thesis by (auto simp: serial_stream_def)
qed

lemma quiet_stream:
  "quiet (serial_stream line s) \<Longrightarrow> rx_contents UART1 s = [] \<and> quiet (line (world s))"
  by (cases "rx_contents UART1 s") (auto simp: serial_stream_def quiet_def)

lemma read_quiet_unset:
  assumes L: "line_kernel K line pend sent obs" and idle: "serial_idle s" and t: "finite_timeout t"
    and np: "\<not> pend (world s)" and q: "quiet (serial_stream line s)"
  shows "\<exists>s'. uart_read_locked K t s = Some (-1, s') \<and> serial_stream line s' = tl (serial_stream line s)
        \<and> sent (world s') = sent (world s) \<and> obs (world s') = obs (world s)"
proof -
  have Nil: "rx_contents UART1 s = []" and ln: "quiet (line (world s))"
    using quiet_stream [OF q] by auto
  from wait_quiet [OF L t np ln] obtain e w' where
    "event_wait K t s = Some (e, s\<lparr>world := w'\<rparr>)" "e AND LOS_ERRTYPE_ERROR K \<noteq> 0"
    "line w' = tl (line (world s))" "sent w' = sent (world s)" "obs w' = obs (world s)" by blast
  with read_locked_wait [OF idle Nil] Nil show ?thesis by (simp add: serial_stream_def)
qed

text \<open>A stale event only costs one more round of the loop.\<close>

lemma read_stale_event:
  assumes L: "line_kernel K line pend sent obs" and idle: "serial_idle s"
    and pd: "pend (world s)" and Nil: "rx_contents UART1 s = []"
  shows "\<exists>w'. uart_read_locked K t s = uart_read_locked K t (s\<lparr>world := w'\<rparr>) \<and> \<not> pend w'
    \<and> line w' = line (world s) \<and> sent w' = sent (world s) \<and> obs w' = obs (world s)"
proof -
  obtain e w' where ev: "event_wait K t s = Some (e, s\<lparr>world := w'\<rparr>)" "e AND LOS_ERRTYPE_ERROR K = 0"
    and w': "\<not> pend w'" "line w' = line (world s)" "sent w' = sent (world s)" "obs w' = obs (world s)"
    using wait_pend [OF L pd, of t] by blast
  from read_locked_wait [OF idle Nil ev(1)] ev(2) w' show ?thesis by auto
qed

lemma uart_read_byte:
  assumes L: "line_kernel K line pend sent obs" and idle: "serial_idle s" and t: "t \<noteq> 0"
    and st: "serial_stream line s = Byte b # r"
  shows "\<exists>s'. uart_read K t s = Some (uint b, s') \<and> serial_stream line s' = r
        \<and> sent (world s') = sent (world s) \<and> obs (world s') = obs (world s)"
proof (cases "pend (world s) \<and> rx_contents UART1 s = []")
  case True
  with read_stale_event [OF L idle, of t] obtain w' where
    rd: "uart_read_locked K t s = uart_read_locked K t (s\<lparr>world := w'\<rparr>)" and w': "\<not> pend w'"
    "line w' = line (world s)" "sent w' = sent (world s)" "obs w' = obs (world s)" by blast
  with st have "serial_stream line (s\<lparr>world := w'\<rparr>) = Byte b # r"
    by (simp add: serial_stream_def)
  from read_byte_unset [OF L _ t _ this] idle rd w' show ?thesis
    by (simp add: uart_read_def run_irqs_line [OF L])
next
  case False
  with read_byte_unset [OF L idle t _ st] show ?thesis
    by (auto simp: uart_read_def run_irqs_line [OF L])
qed

lemma uart_read_quiet:
  assumes L: "line_kernel K line pend sent obs" and idle: "serial_idle s" and t: "finite_timeout t"
    and q: "quiet (serial_stream line s)"
  shows "\<exists>s'. uart_read K t s = Some (-1, s') \<and> serial_stream line s' = tl (serial_stream line s)
        \<and> sent (world s') = sent (world s) \<and> obs (world s') = obs (world s)"
proof (cases "pend (world s)")
  case True
  from read_stale_event [OF L idle True, of t] quiet_stream [OF q] obtain w' where
    rd: "uart_read_locked K t s = uart_read_locked K t (s\<lparr>world := w'\<rparr>)" and w': "\<not> pend w'"
    "line w' = line (world s)" "sent w' = sent (world s)" "obs w' = obs (world s)" by blast
  then have st: "serial_stream line (s\<lparr>world := w'\<rparr>) = serial_stream line s"
    by (simp add: serial_stream_def)
  from read_quiet_unset [OF L _ t, of "s\<lparr>world := w'\<rparr>"] idle rd w' q st show ?thesis
    by (simp add: uart_read_def run_irqs_line [OF L])
next
  case False
  from read_quiet_unset [OF L idle t False q] show ?thesis
    by (simp add: uart_read_def run_irqs_line [OF L])
qed

section \<open>A block read\<close>

text \<open>Collecting the last bytes sets the event; collecting fewer leaves it unset.\<close>

lemma irq_byte_line:
  assumes L: "line_kernel K line pend sent obs" and coll: "collecting m p mx got s"
    and room: "length got < mx" and np: "\<not> pend (world s)"
  shows "pend (world (irq_byte K UART1 c s)) = (Suc (length got) = mx)"
    "line (world (irq_byte K UART1 c s)) = line (world s)"
    "sent (world (irq_byte K UART1 c s)) = sent (world s)"
    "obs (world (irq_byte K UART1 c s)) = obs (world s)"
  using assms line_kernel_calls(1-4) [OF L]
  by (auto simp: irq_byte_def collecting_def Let_def)

lemma collect_stream:
  assumes L: "line_kernel K line pend sent obs" and t: "finite_timeout t"
  shows "collecting m p mx got s \<Longrightarrow> length got < mx \<Longrightarrow> \<not> pend (world s) \<Longrightarrow>
      line (world s) = map Byte xs @ q \<Longrightarrow>
      length got + length xs = mx \<or> length got + length xs < mx \<and> quiet q \<Longrightarrow>
      \<exists>e s'. event_wait K t s = Some (e, s') \<and> collecting m p mx (got @ xs) s'
        \<and> rx_contents UART1 s' = [] \<and> line (world s') = (if length got + length xs = mx then q else tl q)
        \<and> sent (world s') = sent (world s) \<and> obs (world s') = obs (world s)"
proof (induction xs arbitrary: got s)
  case Nil
  then have ln: "quiet (line (world s))" by auto
  have Nil': "rx_contents UART1 s = []" using Nil.prems(1,2) by (simp add: collecting_def)
  from wait_quiet [OF L t Nil.prems(3) ln] Nil.prems Nil' show ?case by auto
next
  case (Cons b xs)
  obtain w1 where ev: "event_read K t (world s) = (Irq [b], w1)" and np1: "\<not> pend w1"
    and w1: "line w1 = map Byte xs @ q" "sent w1 = sent (world s)" "obs w1 = obs (world s)"
    using line_kernel_elims(2) [OF L Cons.prems(3) finite_timeout_nz [OF t]] Cons.prems(4) by auto
  let ?s1 = "s\<lparr>world := w1\<rparr>" and ?s2 = "irq_byte K UART1 b (s\<lparr>world := w1\<rparr>)"
  have coll1: "collecting m p mx got ?s1" using Cons.prems(1) by simp
  have Nil': "rx_contents UART1 ?s1 = []" using Cons.prems(1,2) by (simp add: collecting_def)
  have room: "take (mx - length got) [b] = [b]" "drop (mx - length got) [b] = []"
    using Cons.prems(2) by simp_all
  have coll2: "collecting m p mx (got @ [b]) ?s2" and Nil2: "rx_contents UART1 ?s2 = []"
    using irq_byte_collecting(1,2) [OF coll1, where c = b and K = K] Nil' by (simp_all add: room)
  have w2: "pend (world ?s2) = (Suc (length got) = mx)" "line (world ?s2) = map Byte xs @ q"
    "sent (world ?s2) = sent (world s)" "obs (world ?s2) = obs (world s)"
    using irq_byte_line [OF L coll1 Cons.prems(2)] np1 w1 by simp_all
  have unfold: "event_wait K t s = event_wait K t ?s2"
    by (simp add: event_wait.simps [of K t s] ev)
  show ?case
  proof (cases "Suc (length got) = mx")
    case True
    with Cons.prems(5) have xs: "xs = []" by auto
    from wait_pend [OF L, of ?s2 t] True w2 obtain e w' where
      "event_wait K t ?s2 = Some (e, ?s2\<lparr>world := w'\<rparr>)" "line w' = q"
      "sent w' = sent (world s)" "obs w' = obs (world s)" by (auto simp: xs)
    with coll2 Nil2 unfold True xs show ?thesis by simp
  next
    case False
    with Cons.IH [OF coll2] Cons.prems(2,5) w2 unfold show ?thesis by auto
  qed
qed

text \<open>A block read after the ring was drained.\<close>

lemma uart_read_buf_drained:
  assumes L: "line_kernel K line pend sent obs" and dr: "uart_drain p (int mx) 0 s = (int n0, s1)"
  shows "uart_read_buf K t p (int mx) s = (if int n0 < int mx \<and> t \<noteq> 0 then
      do { (ret, s4) \<leftarrow> event_wait K t (call K (LOS_EventClear UART1 (NOT 1))
             (upd_dev UART0 (\<lambda>d. d\<lparr>irq_ptr := p, irq_nbytes := int n0, irq_max := int mx\<rparr>) s1));
           let n = irq_nbytes (dev s4 UART0);
           Some (n, upd_dev UART0 (\<lambda>d. d\<lparr>irq_ptr := 0, irq_nbytes := 0, irq_max := 0\<rparr>) s4) }
      else Some (int n0, s1))"
  by (simp add: uart_read_buf_def run_irqs_line [OF L] dr Let_def)

lemma uart_read_buf_stream:
  assumes L: "line_kernel K line pend sent obs" and t: "finite_timeout t"
    and idle: "serial_idle s" and p: "p \<noteq> 0"
    and st: "serial_stream line s = map Byte bs @ q"
    and len: "length bs = mx \<or> length bs < mx \<and> quiet q"
  shows "\<exists>s'. uart_read_buf K t p (int mx) s = Some (int (length bs), s')
    \<and> serial_stream line s' = (if length bs = mx then q else tl q)
    \<and> mem s' = mem_write (mem s) p bs
    \<and> sent (world s') = sent (world s) \<and> obs (world s') = obs (world s)"
proof -
  define xs where "xs = take mx (rx_contents UART1 s)"
  obtain s1 where dr: "uart_drain p (int mx) 0 s = (int (length xs), s1)" and s1: "serial_idle s1"
    "mem s1 = mem_write (mem s) p xs" "rx_contents UART1 s1 = drop (length xs) (rx_contents UART1 s)"
    "world s1 = world s"
    using uart_drain_spec [OF idle, of 0 xs "int mx" p] by (auto simp: xs_def)
  note buf = uart_read_buf_drained [OF L dr]
  show ?thesis
  proof (cases "mx \<le> length (rx_contents UART1 s)")
    case True
    then have "length bs = mx"
      using len st bytes_prefix_quiet [of "rx_contents UART1 s"] by (force simp: serial_stream_def)
    with True bytes_prefix_short st obtain zs where "rx_contents UART1 s = bs @ zs" "q = map Byte zs @ line (world s)"
      by (metis serial_stream_def)
    with \<open>length bs = mx\<close> buf s1 show ?thesis
      by (simp add: xs_def serial_stream_def)
  next
    case False
    then have xs: "xs = rx_contents UART1 s" by (simp add: xs_def)
    have "length xs \<le> length bs"
      using len False st bytes_prefix_quiet [of xs] by (force simp: serial_stream_def xs)
    have "map Byte xs @ line (world s) = map Byte bs @ q"
      using st by (simp add: serial_stream_def xs)
    from bytes_prefix_full [OF this \<open>length xs \<le> length bs\<close>]
    obtain zs where zs: "bs = xs @ zs" "line (world s) = map Byte zs @ q" by blast
    let ?s2 = "call K (LOS_EventClear UART1 (NOT 1))
      (upd_dev UART0 (\<lambda>d. d\<lparr>irq_ptr := p, irq_nbytes := int (length xs), irq_max := int mx\<rparr>) s1)"
    have coll: "collecting (mem s) p mx xs ?s2"
      using False s1 p xs by (simp add: collecting_def serial_idle_def)
    have w2: "\<not> pend (world ?s2)" "line (world ?s2) = map Byte zs @ q"
      "sent (world ?s2) = sent (world s)" "obs (world ?s2) = obs (world s)"
      using line_kernel_calls [OF L] s1 zs by simp_all
    obtain e s4 where "event_wait K t ?s2 = Some (e, s4)" "collecting (mem s) p mx bs s4"
      "rx_contents UART1 s4 = []" "line (world s4) = (if length bs = mx then q else tl q)"
      "sent (world s4) = sent (world s)" "obs (world s4) = obs (world s)"
      using collect_stream [OF L t coll _ w2(1,2)] False xs len zs(1) w2 by auto
    with buf False xs t show ?thesis
      by (simp add: collecting_def serial_stream_def finite_timeout_def)
  qed
qed

theorem serial_rx_line:
  assumes L: "line_kernel (K :: 'a kernel) line pend sent obs"
  shows "rx_line (serial_port K) serial_idle (serial_stream line) sent obs"
proof (intro rx_line.intro serial_rx.rx_port_axioms, unfold_locales)
  fix s :: "'a sys" and t :: u32 and p :: nat and mx :: int and bs :: "u8 list" and r :: "rx_item list"
  assume "serial_idle s" "finite_timeout t" "p \<noteq> 0" "mx = int (length bs)"
    "serial_stream line s = map Byte bs @ r"
  then show "\<exists>s'. port_read_buf (serial_port K) t p mx s = Some (mx, s') \<and> serial_stream line s' = r
        \<and> mem s' = mem_write (mem s) p bs
        \<and> sent (world s') = sent (world s) \<and> obs (world s') = obs (world s)"
    using uart_read_buf_stream [OF L, of t s p bs r "length bs"] by (simp add: serial_port_def)
next
  fix s :: "'a sys" and t :: u32 and p :: nat and mx :: int and bs :: "u8 list" and q :: "rx_item list"
  assume asm: "serial_idle s" "finite_timeout t" "p \<noteq> 0" "int (length bs) < mx" "quiet q"
    "serial_stream line s = map Byte bs @ q"
  have len: "length bs < nat mx" "int (nat mx) = mx" using asm(4) by linarith+
  show "\<exists>s'. port_read_buf (serial_port K) t p mx s = Some (int (length bs), s')
        \<and> serial_stream line s' = tl q \<and> mem s' = mem_write (mem s) p bs
        \<and> sent (world s') = sent (world s) \<and> obs (world s') = obs (world s)"
    using uart_read_buf_stream [OF L asm(2,1,3,6), of "nat mx"] asm(5) len
    by (simp add: serial_port_def)
qed (use uart_read_byte [OF L] uart_read_quiet [OF L] line_kernel_calls [OF L] in
  \<open>simp_all add: serial_port_def serial_stream_def\<close>)

end
