(* ===== verification/Line_Sim.thy ===== *)
theory Line_Sim
  imports Serial_Line
begin

text \<open>
  The kernels that behave as documented, as a locale, with the driver's line contract as a
  sublocale of it; and one such kernel, whose world is a list of what the line delivers, the
  state of the receive event, what was sent, and the updater calls made. It makes every
  hypothesis about kernels satisfiable, and runs the model on concrete lines.
\<close>

locale line_os =
  fixes K :: "'w kernel" and line :: "'w \<Rightarrow> rx_item list" and pend :: "'w \<Rightarrow> bool"
    and sent :: "'w \<Rightarrow> u8 list" and obs :: "'w \<Rightarrow> 'o"
  assumes as_documented: "line_kernel K line pend sent obs"

sublocale line_os \<subseteq> driver: rx_line "serial_port K" serial_idle "serial_stream line" sent obs
  by (rule serial_rx_line [OF as_documented])

record sim =
  sim_line :: "rx_item list"
  sim_pend :: bool
  sim_sent :: "u8 list"
  sim_calls :: "os_call list"

fun sim_os_call :: "os_call \<Rightarrow> sim \<Rightarrow> int \<times> sim" where
  "sim_os_call (LOS_EventWrite UART1 m) w = (0, w\<lparr>sim_pend := True\<rparr>)"
| "sim_os_call (LOS_EventClear UART1 m) w = (0, w\<lparr>sim_pend := False\<rparr>)"
| "sim_os_call (Uart_send_byte UART1 b) w = (0, w\<lparr>sim_sent := sim_sent w @ [b]\<rparr>)"
| "sim_os_call c w = (0, w\<lparr>sim_calls := sim_calls w @ [c]\<rparr>)"

definition sim_event_read :: "u32 \<Rightarrow> sim \<Rightarrow> wait_act \<times> sim" where
  "sim_event_read t w =
     (if sim_pend w then (Return 1, w\<lparr>sim_pend := False\<rparr>)
      else case sim_line w of
        Byte b # r \<Rightarrow> (Irq [b], w\<lparr>sim_line := r\<rparr>)
      | _ \<Rightarrow> (Return 0x02001C05, w\<lparr>sim_line := tl (sim_line w)\<rparr>))"

definition sim_kernel :: "sim kernel" where
  "sim_kernel = \<lparr>os_call = sim_os_call, event_read = sim_event_read, irq_pending = (\<lambda>w. ([], w)),
     LOS_MS2Tick = (\<lambda>ms. ms), uart_cal_div_and_bwpc = (\<lambda>b p. (16, 12)), sys_clk_pclk = 24,
     LOS_ERRTYPE_ERROR = 0x02000000\<rparr>"

lemma sim_kernel_sel [simp]:
  "os_call sim_kernel = sim_os_call" "event_read sim_kernel = sim_event_read"
  "irq_pending sim_kernel w = ([], w)" "LOS_MS2Tick sim_kernel ms = ms"
  "LOS_ERRTYPE_ERROR sim_kernel = 0x02000000"
  by (simp_all add: sim_kernel_def)

definition sim_world :: "rx_item list \<Rightarrow> sim" where
  "sim_world l = \<lparr>sim_line = l, sim_pend = False, sim_sent = [], sim_calls = []\<rparr>"

lemma sim_world_sel [simp]:
  "sim_line (sim_world l) = l" "\<not> sim_pend (sim_world l)" "sim_sent (sim_world l) = []"
  "sim_calls (sim_world l) = []"
  by (simp_all add: sim_world_def)

lemma sim_line_kernel: "line_kernel sim_kernel sim_line sim_pend sim_sent sim_calls"
  by (auto simp: line_kernel_def sim_event_read_def quiet_def finite_timeout_def Let_def
      split: list.splits rx_item.splits)

interpretation sim_os: line_os sim_kernel sim_line sim_pend sim_sent sim_calls
  by unfold_locales (rule sim_line_kernel)

lemma serial_static_idle [simp]:
  "serial_idle (serial_static m w)" "ring_ok n (serial_static m w)"
  "rx_contents n (serial_static m w) = []" "rx_count n (serial_static m w) = 0"
  "world (serial_static m w) = w" "mem (serial_static m w) = m" "console (serial_static m w) = []"
  by (simp_all add: serial_idle_def ring_ok_def serial_static_def uart_dev_init_def
      rx_contents_def rx_count_def)

lemma serial_static_stream [simp]:
  "serial_stream sim_line (serial_static m (sim_world l)) = l"
  by (simp add: serial_stream_def sim_world_def)

end
