(* ===== verification/Serial_Props.thy ===== *)
theory Serial_Props
  imports Line_Sim
begin

text \<open>
  The properties of the serial driver. The ring is the abstract bounded queue; reads never write
  outside their buffer; no byte is invented, repeated or reordered, whatever the kernel does and
  whenever the interrupts come; and on a kernel that behaves as documented the line is delivered.
\<close>

section \<open>The ring\<close>

text \<open>
  C12: The receive ring implements a FIFO of capacity 255: for every kernel, from every well-formed
  state and for every interleaving of bytes put by the interrupt handler and bytes taken by a
  reader, the bytes returned and the bytes left are those of the abstract bounded queue, and the
  ring stays well formed.
\<close>

theorem ring_refines_bounded_queue:
  assumes "ring_ok n s"
    and "fifo_run (\<lambda>c s. snd (uart_getc_unsafe K n c s)) (rx_empty n) (rx_pop n) ops s = (outs, s')"
  shows "queue_run 255 ops (rx_contents n s) = (outs, rx_contents n s') \<and> ring_ok n s'"
  using assms by (rule rx_ring.run_refines)

lemma ring_refines_bounded_queue_witness:
  "let s' = snd (fifo_run (\<lambda>c s. snd (uart_getc_unsafe sim_kernel UART1 c s)) (rx_empty UART1)
       (rx_pop UART1) [Put 7, Put 9, Get] (serial_static (\<lambda>_. 0) (sim_world [])))
   in rx_contents UART1 s' = [9] \<and> ring_ok UART1 s'"
proof -
  let ?s = "serial_static (\<lambda>_. 0) (sim_world [])"
  obtain outs s' where run: "fifo_run (\<lambda>c s. snd (uart_getc_unsafe sim_kernel UART1 c s))
      (rx_empty UART1) (rx_pop UART1) [Put 7, Put 9, Get] ?s = (outs, s')" by force
  from ring_refines_bounded_queue [OF _ run] run show ?thesis by (simp add: Let_def)
qed

section \<open>Nothing is invented, repeated or reordered\<close>

text \<open>
  A kernel that records, beside its own world, every byte the hardware FIFO hands to the
  interrupt handler.
\<close>

definition tap :: "'w kernel \<Rightarrow> ('w \<times> u8 list) kernel" where
  "tap K = \<lparr>os_call = (\<lambda>c (w, l). let (r, w') = os_call K c w in (r, (w', l))),
     event_read = (\<lambda>t (w, l). case event_read K t w of
         (Irq fifo, w') \<Rightarrow> (Irq fifo, (w', l @ fifo))
       | (Return r, w') \<Rightarrow> (Return r, (w', l))),
     irq_pending = (\<lambda>(w, l). let (fs, w') = irq_pending K w in (fs, (w', l @ concat fs))),
     LOS_MS2Tick = LOS_MS2Tick K, uart_cal_div_and_bwpc = uart_cal_div_and_bwpc K,
     sys_clk_pclk = sys_clk_pclk K, LOS_ERRTYPE_ERROR = LOS_ERRTYPE_ERROR K\<rparr>"

text \<open>A sequence of calls by the driver's client, and all the bytes it got.\<close>

datatype rx_req = Read u32 | Read_buf u32 nat nat

fun serve :: "'w kernel \<Rightarrow> rx_req list \<Rightarrow> 'w sys \<Rightarrow> (u8 list \<times> 'w sys) option" where
  "serve K [] s = Some ([], s)"
| "serve K (Read t # reqs) s = do {
     (c, s1) \<leftarrow> uart_read K t s;
     (out, s2) \<leftarrow> serve K reqs s1;
     Some (if c < 0 then out else u8_of_int c # out, s2) }"
| "serve K (Read_buf t p mx # reqs) s = do {
     (n, s1) \<leftarrow> uart_read_buf K t p (int mx) s;
     (out, s2) \<leftarrow> serve K reqs s1;
     Some (mem_read (mem s1) p (nat n) @ out, s2) }"

lemma tap_event:
  "event_read (tap K) t w = (a, w') \<Longrightarrow>
    snd w' = snd w @ (case a of Irq fifo \<Rightarrow> fifo | Return _ \<Rightarrow> [])"
  by (cases w) (auto simp: tap_def split: prod.splits wait_act.splits)

lemma tap_os_call [simp]: "snd (snd (os_call (tap K) c w)) = snd w"
  by (cases w) (simp add: tap_def split: prod.split)

lemma getc_tap [simp]: "snd (world (snd (uart_getc_unsafe (tap K) n c s))) = snd (world s)"
  by (simp add: uart_getc_unsafe_def Let_def)

lemma irq_byte_tap: "snd (world (irq_byte (tap K) n c s)) = snd (world s)"
  by (simp add: irq_byte_def Let_def)

lemma handler_tap [simp]:
  "snd (world (UartIrqHandler (tap K) n fifo s)) = snd (world s)"
  by (induction fifo arbitrary: s) (simp_all add: irq_byte_tap)

text \<open>
  The bookkeeping: \<open>out\<close> was delivered, the ring and the log of arrivals follow. Dropping what
  does not fit keeps a subsequence.
\<close>

definition traced :: "u8 list \<Rightarrow> u8 list \<Rightarrow> ('w \<times> u8 list) sys \<Rightarrow> bool" where
  "traced init out s \<longleftrightarrow> subseq (out @ rx_contents UART1 s) (init @ snd (world s))"

lemma subseq_take: "subseq (take n xs) xs"
  by (metis append_take_drop_id subseq_order.order_refl subseq_rev_drop_many)

lemma subseq_append_take:
  "subseq xs A \<Longrightarrow> subseq (xs @ take n ys) (A @ ys)"
  by (intro list_emb_append_mono subseq_take)

lemma traced_handler:
  assumes "serial_idle s" "traced init out s"
  shows "traced init out
    (UartIrqHandler (tap K) UART1 fifo (s\<lparr>world := (w, snd (world s) @ fifo)\<rparr>))"
  using handler_idle(2) [of "s\<lparr>world := (w, snd (world s) @ fifo)\<rparr>" "tap K" fifo] assms
    subseq_append_take
  by (simp add: traced_def flip: append_assoc)

lemma traced_irqs:
  assumes "serial_idle s" "traced init out s"
  shows "traced init out (run_irqs (tap K) s)"
proof -
  have "traced init out (foldl (\<lambda>s f. UartIrqHandler (tap K) UART1 f s) x fs)"
    if "serial_idle x" "subseq (out @ rx_contents UART1 x) A" "init @ snd (world x) = A @ concat fs"
    for x :: "('a \<times> u8 list) sys" and A fs
    using that
  proof (induction fs arbitrary: x A)
    case (Cons f fs)
    have "subseq (out @ rx_contents UART1 (UartIrqHandler (tap K) UART1 f x)) (A @ f)"
      using subseq_append_take [OF Cons.prems(2)] by (simp add: handler_idle(2) [OF Cons.prems(1)])
    with Cons.IH [OF handler_idle(1) [OF Cons.prems(1)] this] Cons.prems(3) show ?case by simp
  qed (simp add: traced_def)
  from this [of "s\<lparr>world := snd (irq_pending (tap K) (world s))\<rparr>" "init @ snd (world s)"
      "fst (irq_pending (tap K) (world s))"] assms
  show ?thesis
    by (cases "world s") (auto simp: run_irqs_def traced_def tap_def split: prod.splits)
qed

lemma traced_wait:
  assumes "serial_idle s" "traced init out s" "event_wait (tap K) t s = Some (r, s')"
  shows "serial_idle s' \<and> traced init out s'"
proof (rule event_wait_rule [OF assms(3), where I = "\<lambda>x. serial_idle x \<and> traced init out x"])
  fix x :: "('a \<times> u8 list) sys" and fifo w
  assume I: "serial_idle x \<and> traced init out x" and "event_read (tap K) t (world x) = (Irq fifo, w)"
  then have "w = (fst w, snd (world x) @ fifo)" using tap_event [of K t "world x"] by (cases w) auto
  with traced_handler [of x init out K fifo "fst w"] I
  show "serial_idle (UartIrqHandler (tap K) UART1 fifo (x\<lparr>world := w\<rparr>))
      \<and> traced init out (UartIrqHandler (tap K) UART1 fifo (x\<lparr>world := w\<rparr>))"
    by (simp add: handler_idle(1))
next
  fix x :: "('a \<times> u8 list) sys" and r w
  assume "serial_idle x \<and> traced init out x" "event_read (tap K) t (world x) = (Return r, w)"
  then show "serial_idle (x\<lparr>world := w\<rparr>) \<and> traced init out (x\<lparr>world := w\<rparr>)"
    using tap_event [of K t "world x"] by (auto simp: traced_def)
qed (use assms in auto)

lemma traced_read:
  assumes "serial_idle s" "traced init out s" "uart_read (tap K) t s = Some (c, s')"
  shows "traced init (if c < 0 then out else out @ [u8_of_int c]) s'"
proof -
  have "uart_read_locked (tap K) t (run_irqs (tap K) s) = Some (c, s')"
    using assms(3) by (simp add: uart_read_def)
  then show ?thesis
  proof (rule uart_read_locked_rule [where I = "\<lambda>x. serial_idle x \<and> traced init out x"
        and Q = "\<lambda>c x. traced init (if c < 0 then out else out @ [u8_of_int c]) x"])
    show "serial_idle (run_irqs (tap K) s) \<and> traced init out (run_irqs (tap K) s)"
      using run_irqs_idle traced_irqs assms by blast
  next
    fix x x1 :: "('a \<times> u8 list) sys" and ret
    assume "serial_idle x \<and> traced init out x" "event_wait (tap K) t x = Some (ret, x1)"
    then show "(serial_idle x1 \<and> traced init out x1) \<and> (ret AND LOS_ERRTYPE_ERROR (tap K) \<noteq> 0 \<longrightarrow>
        traced init (if (- 1 :: int) < 0 then out else out @ [u8_of_int (- 1)]) x1)"
      using traced_wait [of x init out K t ret x1] by auto
  next
    fix x x1 :: "('a \<times> u8 list) sys" and b
    assume "serial_idle x \<and> traced init out x" "\<not> rx_empty UART1 x" "rx_pop UART1 x = (b, x1)"
    moreover from this have "world x1 = world x" using pop_frame(3) [of UART1 x] by simp
    ultimately show "traced init (if uint b < 0 then out else out @ [u8_of_int (uint b)]) x1"
      using rx_contents_pop [of UART1 x b x1] rx_empty_contents [of UART1 x]
      by (auto simp: traced_def serial_idle_def)
  qed
qed

text \<open>The same while the interrupt handler fills the reader's own buffer.\<close>

definition traced_buf :: "u8 list \<Rightarrow> u8 list \<Rightarrow> memory \<Rightarrow> nat \<Rightarrow> nat \<Rightarrow> ('w \<times> u8 list) sys \<Rightarrow> bool" where
  "traced_buf init out m p mx s \<longleftrightarrow>
     (\<exists>got. collecting m p mx got s \<and> traced init (out @ got) s)"

lemma take_drop_subseq: "subseq (take a xs @ take b (drop a xs)) xs"
  by (metis subseq_take take_append_take_drop)

lemma traced_buf_handler:
  assumes "traced_buf init out m p mx x"
  shows "traced_buf init out m p mx
    (UartIrqHandler (tap K) UART1 fifo (x\<lparr>world := (w, snd (world x) @ fifo)\<rparr>))"
proof -
  let ?x = "x\<lparr>world := (w, snd (world x) @ fifo)\<rparr>"
  let ?y = "UartIrqHandler (tap K) UART1 fifo ?x"
  from assms obtain got where coll: "collecting m p mx got x" and tr: "traced init (out @ got) x"
    by (auto simp: traced_buf_def)
  let ?a = "take (mx - length got) fifo" and ?r = "rx_contents UART1 x"
  have y: "collecting m p mx (got @ ?a) ?y"
    "rx_contents UART1 ?y = ?r @ take (255 - length ?r) (drop (mx - length got) fifo)"
    using handler_collecting [of m p mx got ?x, where K = "tap K" and fifo = fifo] coll by simp_all
  have "?a @ ?r = ?r @ ?a"
    using coll by (cases "length got < mx") (auto simp: collecting_def)
  then have "(out @ got @ ?a) @ rx_contents UART1 ?y
      = (out @ got @ ?r) @ ?a @ take (255 - length ?r) (drop (mx - length got) fifo)"
    by (metis append.assoc y(2))
  moreover have "subseq (out @ got @ ?r) (init @ snd (world x))"
    using tr by (simp add: traced_def)
  ultimately have "traced init (out @ (got @ ?a)) ?y"
    using list_emb_append_mono [OF _ take_drop_subseq] by (simp add: traced_def flip: append_assoc)
  with y(1) show ?thesis by (auto simp: traced_buf_def)
qed

lemma traced_buf_wait:
  assumes "traced_buf init out m p mx s" "event_wait (tap K) t s = Some (r, s')"
  shows "traced_buf init out m p mx s'"
proof (rule event_wait_rule [OF assms(2), where I = "traced_buf init out m p mx"])
  fix x :: "('a \<times> u8 list) sys" and fifo w
  assume I: "traced_buf init out m p mx x" and "event_read (tap K) t (world x) = (Irq fifo, w)"
  then have "w = (fst w, snd (world x) @ fifo)" using tap_event [of K t "world x"] by (cases w) auto
  with traced_buf_handler [OF I, where K = K and fifo = fifo and w = "fst w"]
  show "traced_buf init out m p mx (UartIrqHandler (tap K) UART1 fifo (x\<lparr>world := w\<rparr>))" by simp
next
  fix x :: "('a \<times> u8 list) sys" and r w
  assume "traced_buf init out m p mx x" "event_read (tap K) t (world x) = (Return r, w)"
  then show "traced_buf init out m p mx (x\<lparr>world := w\<rparr>)"
    using tap_event [of K t "world x"] by (simp add: traced_buf_def traced_def)
qed (use assms in auto)

lemma traced_read_buf:
  assumes idle: "serial_idle s" and tr: "traced init out s" and p: "p \<noteq> 0"
    and run: "uart_read_buf (tap (K :: 'a kernel)) t p (int mx) s = Some (n, s')"
  shows "traced init (out @ mem_read (mem s') p (nat n)) s'"
proof -
  define s0 where "s0 = run_irqs (tap K) s"
  have s0: "serial_idle s0" "traced init out s0"
    using run_irqs_idle [OF idle] traced_irqs [OF idle tr] by (simp_all add: s0_def)
  define bs where "bs = take mx (rx_contents UART1 s0)"
  obtain s1 where dr: "uart_drain p (int mx) 0 s0 = (int (length bs), s1)" and s1: "serial_idle s1"
    "mem s1 = mem_write (mem s0) p bs" "rx_contents UART1 s1 = drop (length bs) (rx_contents UART1 s0)"
    "world s1 = world s0"
    using uart_drain_spec [OF s0(1), of 0 bs "int mx" p] by (auto simp: bs_def)
  have "rx_contents UART1 s1 = drop mx (rx_contents UART1 s0)"
    by (simp add: s1(3) bs_def min_def)
  then have split: "bs @ rx_contents UART1 s1 = rx_contents UART1 s0" by (simp add: bs_def)
  have tr1: "traced init (out @ bs) s1"
    using s0(2) split by (simp add: traced_def s1(4))
  show ?thesis
  proof (cases "int (length bs) < int mx \<and> t \<noteq> 0")
    case False
    with run dr have "n = int (length bs)" "s' = s1"
      by (auto simp: uart_read_buf_def Let_def simp flip: s0_def)
    with tr1 s1(2) show ?thesis by simp
  next
    case True
    let ?s2 = "call (tap K) (LOS_EventClear UART1 (NOT 1))
      (upd_dev UART0 (\<lambda>d. d\<lparr>irq_ptr := p, irq_nbytes := int (length bs), irq_max := int mx\<rparr>) s1)"
    from True have "rx_contents UART1 s1 = []"
      by (auto simp: s1(3) bs_def min_def split: if_splits)
    then have coll: "collecting (mem s0) p mx bs ?s2"
      using s1 p True by (simp add: collecting_def serial_idle_def)
    moreover have "traced init (out @ bs) ?s2" using tr1 by (simp add: traced_def)
    ultimately have "traced_buf init out (mem s0) p mx ?s2" by (auto simp: traced_buf_def)
    moreover from run dr True obtain ret s4 where "event_wait (tap K) t ?s2 = Some (ret, s4)"
      and n: "n = irq_nbytes (dev s4 UART0)"
      and s': "s' = upd_dev UART0 (\<lambda>d. d\<lparr>irq_ptr := 0, irq_nbytes := 0, irq_max := 0\<rparr>) s4"
      by (auto simp: uart_read_buf_def Let_def bind_eq_Some_conv simp flip: s0_def)
    ultimately have "traced_buf init out (mem s0) p mx s4" using traced_buf_wait by blast
    then obtain got where "collecting (mem s0) p mx got s4" "traced init (out @ got) s4"
      by (auto simp: traced_buf_def)
    then show ?thesis
      by (auto simp: collecting_def traced_def n s')
  qed
qed

lemma traced_serve:
  assumes "serial_idle s" "traced init out0 s" "serve (tap K) reqs s = Some (out, s')"
    and "\<And>t p mx. Read_buf t p mx \<in> set reqs \<Longrightarrow> p \<noteq> 0"
  shows "traced init (out0 @ out) s' \<and> serial_idle s'"
  using assms
proof (induction "tap K" reqs s arbitrary: out0 out rule: serve.induct)
  case (2 t reqs s)
  from "2.prems"(3) obtain c s1 out1 where rd: "uart_read (tap K) t s = Some (c, s1)"
    and rest: "serve (tap K) reqs s1 = Some (out1, s')"
    and out: "out = (if c < 0 then out1 else u8_of_int c # out1)"
    by (auto simp: bind_eq_Some_conv split: if_splits)
  have "serial_idle s1" using uart_read_safe [OF "2.prems"(1) rd] by simp
  from "2.hyps" [OF rd refl this traced_read [OF "2.prems"(1,2) rd] rest] "2.prems"(4)
  show ?case by (simp add: out split: if_splits)
next
  case (3 t p mx reqs s)
  from "3.prems"(3) obtain n s1 out1 where rd: "uart_read_buf (tap K) t p (int mx) s = Some (n, s1)"
    and rest: "serve (tap K) reqs s1 = Some (out1, s')"
    and out: "out = mem_read (mem s1) p (nat n) @ out1"
    by (auto simp: bind_eq_Some_conv)
  have p: "p \<noteq> 0" using "3.prems"(4) [of t p mx] by simp
  have "serial_idle s1" using uart_read_buf_safe [OF "3.prems"(1) p _ rd] by simp
  from "3.hyps" [OF rd refl this traced_read_buf [OF "3.prems"(1,2) p rd] rest]
  have "traced init ((out0 @ mem_read (mem s1) p (nat n)) @ out1) s' \<and> serial_idle s'"
    using "3.prems"(4) by (metis list.set_intros(2))
  then show ?case by (simp add: out)
qed simp

text \<open>
  C7: Whatever the kernel and the line do (when the interrupts come, how many bytes each brings,
  when sleeps end and how), the bytes a client gets from any sequence of \<open>uart_read\<close> and
  \<open>uart_read_buf\<close> calls, followed by what is still in the ring, are a subsequence of what was in
  the ring followed by what the hardware delivered: bytes can be lost when the ring is full, but
  none is invented, repeated or reordered.
\<close>

theorem reads_are_a_subsequence:
  assumes "serial_idle s" "snd (world s) = []" "serve (tap K) reqs s = Some (out, s')"
    and "\<And>t p mx. Read_buf t p mx \<in> set reqs \<Longrightarrow> p \<noteq> 0"
  shows "subseq (out @ rx_contents UART1 s') (rx_contents UART1 s @ snd (world s'))"
proof -
  have "traced (rx_contents UART1 s) [] s"
    using assms(2) by (simp add: traced_def)
  from traced_serve [OF assms(1) this assms(3)] assms(4) show ?thesis
    by (auto simp: traced_def)
qed

lemma tap_sim [simp]:
  "event_read (tap sim_kernel) t (w, l) = (case sim_event_read t w of
         (Irq fifo, w') \<Rightarrow> (Irq fifo, (w', l @ fifo)) | (Return r, w') \<Rightarrow> (Return r, (w', l)))"
  "irq_pending (tap sim_kernel) (w, l) = ([], (w, l))"
  "LOS_ERRTYPE_ERROR (tap sim_kernel) = 0x02000000"
  "os_call (tap sim_kernel) c (w, l) = (let (r, w') = sim_os_call c w in (r, (w', l)))"
  by (simp_all add: tap_def)

lemma reads_are_a_subsequence_witness:
  "\<exists>out s'. serve (tap sim_kernel) [Read 5, Read 5]
       (serial_static (\<lambda>_. 0) (sim_world [Byte 7, Silence], [])) = Some (out, s')
     \<and> out = [7] \<and> subseq (out @ rx_contents UART1 s') [7]"
proof -
  let ?s = "serial_static (\<lambda>_. 0) (sim_world [Byte 7, Silence], [])"
  obtain out s' where run: "serve (tap sim_kernel) [Read 5, Read 5] ?s = Some (out, s')"
    and out: "out = [7]" "snd (world s') = [7]"
    by (simp add: uart_read_def run_irqs_def serial_static_def uart_dev_init_def sim_world_def
        uart_read_locked.simps event_wait.simps sim_event_read_def rx_empty_def rx_pop_def
        irq_byte_def uart_getc_unsafe_def upd_dev_def call_def do_call_def u8_of_int_def)
  from reads_are_a_subsequence [OF _ _ run] out show ?thesis
    using run by auto
qed

section \<open>Memory safety of the block read\<close>

text \<open>
  C14: \<open>uart_read_buf\<close> writes only into the buffer it is given: for every kernel and line, when it
  returns from an idle driver state with a non-null buffer, the count returned is between 0 and
  \<open>max\<close>, memory outside the first \<open>n\<close> bytes of the buffer is unchanged, the console output is
  untouched, and the driver is idle again, so that no later interrupt can write to the buffer.
\<close>

theorem uart_read_buf_memory_safe:
  assumes "serial_idle s" "p \<noteq> 0" "0 \<le> mx" "uart_read_buf K t p mx s = Some (n, s')"
  shows "0 \<le> n \<and> n \<le> mx \<and> (\<forall>a. a < p \<or> p + nat n \<le> a \<longrightarrow> mem s' a = mem s a)
    \<and> console s' = console s \<and> serial_idle s'
    \<and> (\<forall>fifo. mem (UartIrqHandler K UART1 fifo s') = mem s')"
proof -
  from uart_read_buf_safe [OF assms] obtain got where got: "int (length got) = n"
    "mem s' = mem_write (mem s) p got" and s': "serial_idle s'" "console s' = console s"
    "0 \<le> n" "n \<le> mx" by blast
  from got have "mem s' a = mem s a" if "a < p \<or> p + nat n \<le> a" for a
    using that by (auto simp: mem_write_outside)
  with s' handler_idle(3) [OF s'(1)] show ?thesis by blast
qed

lemma uart_read_buf_memory_safe_witness:
  "\<exists>s'. uart_read_buf sim_kernel 5 100 2 (serial_static (\<lambda>_. 0) (sim_world [Byte 7, Byte 8, Byte 9]))
      = Some (2, s') \<and> mem s' 99 = 0 \<and> mem s' 102 = 0 \<and> serial_idle s'"
proof -
  let ?s = "serial_static (\<lambda>_. 0) (sim_world [Byte 7, Byte 8, Byte 9])"
  obtain s' where run: "uart_read_buf sim_kernel 5 100 2 ?s = Some (2, s')"
    using uart_read_buf_stream [OF sim_line_kernel, of 5 ?s 100 "[7, 8]" "[Byte 9]" 2]
    by (auto simp: finite_timeout_def)
  from uart_read_buf_memory_safe [OF _ _ _ run] run show ?thesis by auto
qed

section \<open>Delivery\<close>

text \<open>
  C24: On a kernel that behaves as documented, \<open>uart_read_buf\<close> with a finite timeout delivers the
  line: if the next \<open>max\<close> items (what the ring holds, then what the line brings) are bytes, it
  returns \<open>max\<close> with exactly these bytes in the buffer; if a pause comes earlier, it returns the
  number of bytes before the pause, with these in the buffer. In both cases nothing else of the
  line is consumed but that pause.
\<close>

theorem uart_read_buf_delivers:
  assumes "line_kernel K line pend sent obs" "serial_idle s" "finite_timeout t" "p \<noteq> 0"
    and "serial_stream line s = map Byte bs @ q"
    and "length bs = mx \<or> length bs < mx \<and> quiet q"
  shows "\<exists>s'. uart_read_buf K t p (int mx) s = Some (int (length bs), s')
    \<and> mem s' = mem_write (mem s) p bs
    \<and> serial_stream line s' = (if length bs = mx then q else tl q)
    \<and> sent (world s') = sent (world s)"
  using uart_read_buf_stream [OF assms(1,3,2,4,5,6)] by blast

lemma uart_read_buf_delivers_witness:
  "\<exists>s'. uart_read_buf sim_kernel 5 100 3
        (serial_static (\<lambda>_. 0) (sim_world [Byte 7, Byte 8, Silence, Byte 9])) = Some (2, s')
     \<and> mem s' 100 = 7 \<and> mem s' 101 = 8 \<and> serial_stream sim_line s' = [Byte 9]"
  using uart_read_buf_delivers [OF sim_line_kernel, of
      "serial_static (\<lambda>_. 0) (sim_world [Byte 7, Byte 8, Silence, Byte 9])" 5 100 "[7, 8]"
      "[Silence, Byte 9]" 3]
  by (auto simp: finite_timeout_def quiet_def mem_write_def)

text \<open>
  C25: On such a kernel \<open>uart_read\<close> with a finite timeout returns the next byte of the line, as a
  number between 0 and 255, and \<open>-1\<close> exactly when the line pauses; a stale receive event left by
  earlier reads does not make it return early.
\<close>

theorem uart_read_delivers:
  assumes "line_kernel K line pend sent obs" "serial_idle s" "finite_timeout t"
  shows "\<exists>c s'. uart_read K t s = Some (c, s') \<and> serial_idle s'
    \<and> serial_stream line s' = tl (serial_stream line s)
    \<and> c = (case serial_stream line s of Byte b # r \<Rightarrow> uint b | _ \<Rightarrow> -1)"
proof (cases "quiet (serial_stream line s)")
  case True
  with uart_read_quiet [OF assms(1-3)] uart_read_safe [OF assms(2)] show ?thesis
    by (fastforce simp: quiet_def)
next
  case False
  then obtain b r where "serial_stream line s = Byte b # r"
    unfolding quiet_def by (metis list.exhaust rx_item.exhaust)
  with uart_read_byte [OF assms(1,2) finite_timeout_nz [OF assms(3)] this] uart_read_safe [OF assms(2)] show ?thesis
    by fastforce
qed

lemma uart_read_delivers_witness:
  "\<exists>s'. uart_read sim_kernel 5 ((serial_static (\<lambda>_. 0) (sim_world [Byte 7]))
      \<lparr>world := (sim_world [Byte 7])\<lparr>sim_pend := True\<rparr>\<rparr>) = Some (7, s') \<and> serial_stream sim_line s' = []"
  using uart_read_delivers [OF sim_line_kernel, of "(serial_static (\<lambda>_. 0) (sim_world [Byte 7]))
      \<lparr>world := (sim_world [Byte 7])\<lparr>sim_pend := True\<rparr>\<rparr>" 5]
  by (auto simp: finite_timeout_def serial_stream_def sim_world_def)

section \<open>Initialisation and the transmit side\<close>

text \<open>
  \<open>SerialInit\<close> leaves the driver's state of the static initialisers, idle and with an empty
  ring, enables the receive interrupt only after the event, the pins, the port, the trigger
  levels and the handler are set up, and makes no other call.
\<close>

theorem SerialInit_order:
  "SerialInit K s = foldl (\<lambda>s c. call K c s) s
     [LOS_EventInit UART1, Uart_set_pin, Uart_reset UART1,
      (case uart_cal_div_and_bwpc K 115200 (sys_clk_pclk K * 1000000) of (dv, bwpc) \<Rightarrow> Uart_init UART1 dv bwpc),
      Uart_rx_irq_trig_level UART1 1, Uart_tx_irq_trig_level UART1 0, B91IrqRegister UART1,
      Plic_interrupt_enable UART1, Uart_set_rx_irq_mask UART1]
   \<and> serial_idle (SerialInit K (serial_static m w)) \<and> rx_contents UART1 (SerialInit K (serial_static m w)) = []"
  by (simp add: SerialInit_def VendorUartRxIrqEnable_def Let_def split: prod.split)

text \<open>
  The non-blocking send refuses exactly when the 8-byte hardware FIFO is full; otherwise it
  writes one of the four data registers, in rotation, and leaves the index on one of them.
\<close>

theorem uart_send_byte_nonblock_rotates:
  assumes "unat index < 4"
  shows "(uart_send_byte_nonblock txnum index d = None) = (8 \<le> txnum)
    \<and> (txnum < 8 \<longrightarrow> (\<exists>next. uart_send_byte_nonblock txnum index d = Some ((index, d), next)
        \<and> unat next = (unat index + 1) mod 4))"
proof -
  have "unat index \<in> {0, 1, 2, 3}" using assms by auto
  then have "index \<in> {0, 1, 2, 3}"
    by (auto simp: word_unat_eq_iff)
  then have "unat ((index + 1) AND 3) = (unat index + 1) mod 4"
    by auto
  then show ?thesis by (auto simp: uart_send_byte_nonblock_def UART_HW_FIFO_SIZE_def)
qed

lemma uart_send_byte_nonblock_rotates_witness:
  "uart_send_byte_nonblock 2 3 0x41 = Some ((3, 0x41), 0)"
proof -
  have "unat (3 :: u8) < 4" by simp
  from uart_send_byte_nonblock_rotates [OF this, of 2 "0x41"] show ?thesis
    by (auto simp: unat_eq_0)
qed

end
