(* ===== verification/Xmodem.thy ===== *)
theory Xmodem
  imports Uart_Port Crc16
begin

text \<open>
  The XMODEM receiver of \<open>ota_demo/ota_demo/app.c\<close>: \<open>_inbyte\<close>, \<open>_outbyte\<close>, \<open>flushinput\<close>,
  \<open>get_first_byte\<close>, \<open>packet_check\<close> and \<open>xmodemReceive\<close>, over the operations of a serial port. The
  packet buffer is memory; the callback is an argument, with its \<open>arg\<close> passed through. The outer
  \<open>for (;;)\<close> is a round that returns or continues, and its iteration; both the iteration and
  \<open>flushinput\<close> may run for ever on an endless line and are then \<open>None\<close>.
\<close>

section \<open>Constants\<close>

abbreviation (input) SOH :: int where "SOH \<equiv> 0x01"
abbreviation (input) STX :: int where "STX \<equiv> 0x02"
abbreviation (input) EOT :: int where "EOT \<equiv> 0x04"
abbreviation (input) ACK :: int where "ACK \<equiv> 0x06"
abbreviation (input) NAK :: int where "NAK \<equiv> 0x15"
abbreviation (input) CAN :: int where "CAN \<equiv> 0x18"

abbreviation (input) DLY_1S :: int where "DLY_1S \<equiv> 1000"
abbreviation (input) MAXRETRANS :: int where "MAXRETRANS \<equiv> 25"
abbreviation (input) MAX_BYTE_RETRIES :: nat where "MAX_BYTE_RETRIES \<equiv> 16"
abbreviation (input) FLUSH_INPUT_NBYTES :: int where "FLUSH_INPUT_NBYTES \<equiv> 3"

abbreviation (input) XMODEM_PACKET_SIZE :: int where "XMODEM_PACKET_SIZE \<equiv> 128"
abbreviation (input) XMODEM1K_PACKET_SIZE :: int where "XMODEM1K_PACKET_SIZE \<equiv> 1024"
abbreviation (input) XMODEM_BLOCK_NUMBER :: nat where "XMODEM_BLOCK_NUMBER \<equiv> 1"
abbreviation (input) XMODEM_BLOCK_NUMBER_INV :: nat where "XMODEM_BLOCK_NUMBER_INV \<equiv> 2"
abbreviation (input) XMODEM_HEADER_SIZE :: nat where "XMODEM_HEADER_SIZE \<equiv> 3"

abbreviation (input) XMODEM_ERROR_CANCEL :: int where "XMODEM_ERROR_CANCEL \<equiv> -1"
abbreviation (input) XMODEM_ERROR_SYNC_ERROR :: int where "XMODEM_ERROR_SYNC_ERROR \<equiv> -2"
abbreviation (input) XMODEM_ERROR_RETRANS_LIMIT :: int where "XMODEM_ERROR_RETRANS_LIMIT \<equiv> -3"
abbreviation (input) XMODEM_PACKET_END :: int where "XMODEM_PACKET_END \<equiv> -4"

text \<open>The character \<open>'C'\<close> that asks for CRC mode, as a byte.\<close>

abbreviation (input) TRY_CRC :: u8 where "TRY_CRC \<equiv> 0x43"

section \<open>Bytes in and out\<close>

definition inbyte :: "'w port \<Rightarrow> u16 \<Rightarrow> 'w sys \<Rightarrow> (int \<times> 'w sys) option" where
  "inbyte io timeout_ms s = port_read io (port_ticks io (ucast timeout_ms)) s"

definition outbyte :: "'w port \<Rightarrow> int \<Rightarrow> 'w sys \<Rightarrow> 'w sys" where
  "outbyte io c s = port_send io (u8_of_int c) s"

definition flushinput :: "'w port \<Rightarrow> 'w sys \<Rightarrow> 'w sys option" where
  "flushinput io = forever (\<lambda>s. do {
     (c, s) \<leftarrow> inbyte io (word_of_int (DLY_1S * FLUSH_INPUT_NBYTES div 2)) s;
     Some (if c \<ge> 0 then Inr s else Inl s)
   })"

text \<open>\<open>get_first_byte\<close> returns the packet size, a code, or 0, and the byte in \<open>*c\<close>.\<close>

definition get_first_byte :: "'w port \<Rightarrow> 'w sys \<Rightarrow> ((int \<times> int) \<times> 'w sys) option" where
  "get_first_byte io s = do {
     (c, s) \<leftarrow> inbyte io (word_of_int (DLY_1S * 2)) s;
     if c \<ge> 0 then
       (if c = SOH then Some ((XMODEM_PACKET_SIZE, c), s)
        else if c = STX then Some ((XMODEM1K_PACKET_SIZE, c), s)
        else if c = EOT then do {
          s \<leftarrow> flushinput io s;
          Some ((XMODEM_PACKET_END, c), outbyte io ACK s) }
        else if c = CAN then do {
          (c, s) \<leftarrow> inbyte io (word_of_int DLY_1S) s;
          if c = CAN then do {
            s \<leftarrow> flushinput io s;
            Some ((XMODEM_ERROR_CANCEL, c), outbyte io ACK s) }
          else Some ((0, c), s) }
        else Some ((0, c), s))
     else Some ((0, c), s)
   }"

definition send_cancel :: "'w port \<Rightarrow> 'w sys \<Rightarrow> 'w sys" where
  "send_cancel io s = outbyte io CAN (outbyte io CAN (outbyte io CAN s))"

section \<open>One packet\<close>

type_synonym ('a, 'w) xmodem_cb = "nat \<Rightarrow> u32 \<Rightarrow> u32 \<Rightarrow> 'a \<Rightarrow> 'w sys \<Rightarrow> 'a \<times> 'w sys"

text \<open>
  The local variables of \<open>xmodemReceive\<close> that outlive a round, and the object \<open>arg\<close> points to.
\<close>

record 'a xm =
  trychar :: u8
  use_src :: bool
  packetno :: u8
  retrans :: int
  rlen :: int
  cb_arg :: 'a

text \<open>
  The conditions under which a packet in the buffer is accepted: a block number that agrees with
  its complement and is the expected one or the one before, and a valid check. The number before
  is computed in \<open>int\<close>, as in the source (\<open>(unsigned char)*packetno - 1\<close>).
\<close>

definition packet_valid :: "nat \<Rightarrow> int \<Rightarrow> u8 \<Rightarrow> bool \<Rightarrow> memory \<Rightarrow> bool" where
  "packet_valid xbuff bufsz pno crc m \<longleftrightarrow>
     m (xbuff + XMODEM_BLOCK_NUMBER) = NOT (m (xbuff + XMODEM_BLOCK_NUMBER_INV))
     \<and> (m (xbuff + XMODEM_BLOCK_NUMBER) = pno
        \<or> uint (m (xbuff + XMODEM_BLOCK_NUMBER)) = uint pno - 1)
     \<and> check crc (\<lambda>i. m (xbuff + XMODEM_HEADER_SIZE + i)) (nat bufsz) \<noteq> 0"

text \<open>The expected packet: its data, up to the size asked for, goes to the callback.\<close>

definition take_packet ::
    "nat \<Rightarrow> int \<Rightarrow> ('a, 'w) xmodem_cb \<Rightarrow> int \<Rightarrow> 'a xm \<Rightarrow> 'w sys \<Rightarrow> 'a xm \<times> 'w sys" where
  "take_packet xbuff destsz cb bufsz x s =
     (let count = destsz - rlen x;
          count = (if count > bufsz then bufsz else count);
          (x, s) = (if count > 0 then
              (let (a, s) = cb (xbuff + XMODEM_HEADER_SIZE) (u32_of_int (rlen x)) (u32_of_int count)
                     (cb_arg x) s
               in (x\<lparr>cb_arg := a, rlen := rlen x + count\<rparr>, s))
            else (x, s))
      in (x\<lparr>packetno := packetno x + 1, retrans := MAXRETRANS + 1\<rparr>, s))"

definition packet_check ::
    "'w port \<Rightarrow> nat \<Rightarrow> int \<Rightarrow> ('a, 'w) xmodem_cb \<Rightarrow> int \<Rightarrow> 'a xm \<Rightarrow> 'w sys
      \<Rightarrow> (int \<times> 'a xm \<times> 'w sys) option" where
  "packet_check io xbuff destsz cb bufsz x s =
     (if packet_valid xbuff bufsz (packetno x) (use_src x) (mem s) then
        (let (x, s) = (if mem s (xbuff + XMODEM_BLOCK_NUMBER) = packetno x
               then take_packet xbuff destsz cb bufsz x s else (x, s));
             x = x\<lparr>retrans := retrans x - 1\<rparr>
         in if retrans x \<le> 0 then do {
              s \<leftarrow> flushinput io s;
              Some (XMODEM_ERROR_RETRANS_LIMIT, x, send_cancel io s) }
            else Some (0, x, outbyte io ACK s))
      else Some (1, x, s))"

section \<open>The receiver\<close>

text \<open>The loop over \<open>retry\<close>, with the number of rounds left; \<open>bc\<close> is \<open>bufsz\<close> and \<open>c\<close>.\<close>

fun sync_loop :: "'w port \<Rightarrow> u8 \<Rightarrow> nat \<Rightarrow> int \<times> int \<Rightarrow> 'w sys \<Rightarrow> ((int \<times> int) \<times> 'w sys) option" where
  "sync_loop io tc 0 bc s = Some (bc, s)"
| "sync_loop io tc (Suc n) bc s = do {
     let s = (if tc \<noteq> 0 then outbyte io (uint tc) s else s);
     (bc, s) \<leftarrow> get_first_byte io s;
     if fst bc \<noteq> 0 then Some (bc, s) else sync_loop io tc n bc s
   }"

text \<open>
  The body of \<open>for (;;)\<close>: \<open>Inl\<close> with the value where it returns, \<open>Inr\<close> where it ends or says
  \<open>continue\<close>.
\<close>

type_synonym ('a, 'w) xm_result = "(int \<times> 'a xm \<times> 'w sys) + ('a xm \<times> 'w sys)"

definition short_packet_msg :: "int \<Rightarrow> int \<Rightarrow> string" where
  "short_packet_msg to_read nread =
     '' === xmodemReceive:302 to_read: '' @ show_int to_read @ '' nread: '' @ show_int nread @ CRLF"

text \<open>A packet that was received whole: what its check says is done with it.\<close>

definition packet_answer ::
    "'w port \<Rightarrow> nat \<Rightarrow> int \<Rightarrow> ('a, 'w) xmodem_cb \<Rightarrow> int \<Rightarrow> 'a xm \<Rightarrow> 'w sys
      \<Rightarrow> ('a, 'w) xm_result option" where
  "packet_answer io xbuff destsz cb bufsz x s = do {
     (tmp, x, s) \<leftarrow> packet_check io xbuff destsz cb bufsz x s;
     if tmp = 1 then do {
       s \<leftarrow> flushinput io s;
       Some (Inr (x, outbyte io NAK s)) }
     else if tmp < 0 then Some (Inl (tmp, x, s))
     else Some (Inr (x, s)) }"

definition xmodem_packet ::
    "'w port \<Rightarrow> nat \<Rightarrow> int \<Rightarrow> ('a, 'w) xmodem_cb \<Rightarrow> int \<Rightarrow> int \<Rightarrow> 'a xm \<Rightarrow> 'w sys
      \<Rightarrow> ('a, 'w) xm_result option" where
  "xmodem_packet io xbuff destsz cb bufsz c x s =
     (let x = (if trychar x = TRY_CRC then x\<lparr>use_src := True\<rparr> else x);
          x = x\<lparr>trychar := 0\<rparr>;
          s = s\<lparr>mem := (mem s)(xbuff := u8_of_int c)\<rparr>;
          to_read = bufsz + (if use_src x then 1 else 0) + 3
      in do {
           (nread, s) \<leftarrow> port_read_buf io (port_ticks io (word_of_int (DLY_1S * 10))) (xbuff + 1) to_read s;
           if nread < to_read then do {
             s \<leftarrow> flushinput io (print (short_packet_msg to_read nread) s);
             Some (Inr (x, outbyte io NAK s)) }
           else packet_answer io xbuff destsz cb bufsz x s
         })"

definition xmodem_round ::
    "'w port \<Rightarrow> nat \<Rightarrow> int \<Rightarrow> ('a, 'w) xmodem_cb \<Rightarrow> 'a xm \<Rightarrow> 'w sys
      \<Rightarrow> ('a, 'w) xm_result option" where
  "xmodem_round io xbuff destsz cb x s = do {
     ((bufsz, c), s) \<leftarrow> sync_loop io (trychar x) MAX_BYTE_RETRIES (0, 0) s;
     if bufsz = XMODEM_PACKET_END then Some (Inl (rlen x, x, s))
     else if bufsz < 0 then Some (Inl (bufsz, x, s))
     else if bufsz = 0 then
       (if trychar x = TRY_CRC then Some (Inr (x\<lparr>trychar := u8_of_int NAK\<rparr>, s))
        else do {
          s \<leftarrow> flushinput io s;
          Some (Inl (XMODEM_ERROR_SYNC_ERROR, x, send_cancel io s)) })
     else xmodem_packet io xbuff destsz cb bufsz c x s
   }"

definition xmodem_loop ::
    "'w port \<Rightarrow> nat \<Rightarrow> int \<Rightarrow> ('a, 'w) xmodem_cb \<Rightarrow> 'a xm \<times> 'w sys
      \<Rightarrow> (int \<times> 'a xm \<times> 'w sys) option" where
  "xmodem_loop io xbuff destsz cb = forever (\<lambda>(x, s). xmodem_round io xbuff destsz cb x s)"

definition xm_init :: "'a \<Rightarrow> 'a xm" where
  "xm_init arg = \<lparr>trychar = TRY_CRC, use_src = False, packetno = 1, retrans = MAXRETRANS,
     rlen = 0, cb_arg = arg\<rparr>"

definition xmodemReceive ::
    "'w port \<Rightarrow> nat \<Rightarrow> int \<Rightarrow> ('a, 'w) xmodem_cb \<Rightarrow> 'a \<Rightarrow> 'w sys \<Rightarrow> (int \<times> 'a \<times> 'w sys) option" where
  "xmodemReceive io xbuff destsz cb arg s = do {
     (ret, x, s) \<leftarrow> xmodem_loop io xbuff destsz cb (xm_init arg, s);
     Some (ret, cb_arg x, s)
   }"

end
