(* ===== verification/Xmodem_Safe.thy ===== *)
theory Xmodem_Safe
  imports Xmodem
begin

text \<open>
  Safety of the XMODEM receiver on every line: what it writes, what it returns and which chunks it
  hands to the callback, whatever bytes arrive and whenever. The facts are proved from the contract
  \<open>rx_port\<close> of the driver, and from a callback that keeps memory and the driver's state.
\<close>

lemma same_rest_refl [simp]: "same_rest s s"
  by (simp add: same_rest_def)

lemma same_rest_trans: "same_rest a b \<Longrightarrow> same_rest b c \<Longrightarrow> same_rest a c"
  by (simp add: same_rest_def)

section \<open>The chunks handed to the callback\<close>

text \<open>
  Consecutive chunks, from offset \<open>off\<close> up to \<open>fin\<close>: none empty, none larger than a packet, each
  starting where the one before ended.
\<close>

type_synonym chunk = "u32 \<times> u8 list"

fun contiguous :: "int \<Rightarrow> chunk list \<Rightarrow> int \<Rightarrow> bool" where
  "contiguous off [] fin \<longleftrightarrow> off = fin"
| "contiguous off ((addr, d) # cs) fin \<longleftrightarrow> uint addr = off \<and> d \<noteq> [] \<and> length d \<le> 1024
     \<and> contiguous (off + int (length d)) cs fin"

lemma contiguous_append:
  "contiguous off (xs @ ys) fin \<longleftrightarrow> (\<exists>m. contiguous off xs m \<and> contiguous m ys fin)"
  by (induction off xs fin rule: contiguous.induct) auto

lemma contiguous_le: "contiguous off cs fin \<Longrightarrow> off \<le> fin"
  by (induction off cs fin rule: contiguous.induct) auto

lemma contiguous_length: "contiguous off cs fin \<Longrightarrow> int (length (concat (map snd cs))) = fin - off"
  by (induction off cs fin rule: contiguous.induct) auto

text \<open>A callback with a record of its calls beside its own \<open>arg\<close>.\<close>

definition logged :: "('a, 'w) xmodem_cb \<Rightarrow> ('a \<times> chunk list, 'w) xmodem_cb" where
  "logged cb p addr n al s =
     (let (a, s') = cb p addr n (fst al) s
      in ((a, snd al @ [(addr, mem_read (mem s) p (unat n))]), s'))"

locale xm_safe = rx_port +
  fixes cb :: "('c, 'a) xmodem_cb" and eff :: "chunk \<Rightarrow> 'c \<Rightarrow> 'c"
  assumes cb_safe: "ok s \<Longrightarrow> cb p addr n a s = (a', s') \<Longrightarrow> ok s' \<and> mem s' = mem s"
    and cb_eff: "cb p addr n a s = (a', s') \<Longrightarrow> a' = eff (addr, mem_read (mem s) p (unat n)) a"

section \<open>Bytes in and out\<close>

context rx_port
begin

lemma inbyte_safe:
  "ok s \<Longrightarrow> inbyte io t s = Some (c, s') \<Longrightarrow> ok s' \<and> same_rest s s' \<and> (c = -1 \<or> 0 \<le> c \<and> c < 256)"
  by (simp add: inbyte_def read_safe)

lemma outbyte_safe [simp]:
  "ok s \<Longrightarrow> ok (outbyte io c s)" "ok s \<Longrightarrow> mem (outbyte io c s) = mem s"
  "ok s \<Longrightarrow> console (outbyte io c s) = console s"
  using send_safe [of s] by (simp_all add: outbyte_def same_rest_def)

lemma send_cancel_safe [simp]:
  "ok s \<Longrightarrow> ok (send_cancel io s)" "ok s \<Longrightarrow> mem (send_cancel io s) = mem s"
  by (simp_all add: send_cancel_def)

lemma flush_safe:
  assumes "ok s" "flushinput io s = Some s'"
  shows "ok s' \<and> same_rest s s'"
  by (rule forever_rule [OF assms(2) [unfolded flushinput_def], where I = "\<lambda>x. ok x \<and> same_rest s x"])
    (use assms(1) inbyte_safe in \<open>force simp: bind_eq_Some_conv intro: same_rest_trans split: if_splits\<close>)+

lemma first_byte_safe:
  assumes "ok s" "get_first_byte io s = Some ((bufsz, c), s')"
  shows "ok s' \<and> same_rest s s' \<and> (bufsz \<in> {128, 1024} \<and> 0 \<le> c \<and> c < 256 \<or> bufsz \<in> {-4, -1, 0})"
proof -
  from assms(2) obtain c1 s1 where rd: "inbyte io (word_of_int (DLY_1S * 2)) s = Some (c1, s1)"
    by (auto simp: get_first_byte_def bind_eq_Some_conv)
  from inbyte_safe [OF assms(1) rd] have s1: "ok s1" "same_rest s s1" "c1 = -1 \<or> 0 \<le> c1 \<and> c1 < 256"
    by auto
  have out: "ok (outbyte io ACK s3) \<and> same_rest s (outbyte io ACK s3)"
    if "flushinput io s2 = Some s3" "ok s2" "same_rest s s2" for s2 s3
    using flush_safe [OF that(2,1)] that(3) by (simp add: same_rest_def)
  have ib: "ok s2 \<and> same_rest s s2" if "inbyte io t s1 = Some (c2, s2)" for t c2 s2
    using inbyte_safe [OF s1(1) that] s1(2) by (auto intro: same_rest_trans)
  consider "c1 = SOH" | "c1 = STX" | "c1 = EOT" | "c1 = CAN"
    | "\<not> 0 \<le> c1 \<or> c1 \<notin> {SOH, STX, EOT, CAN}" by blast
  then show ?thesis
  proof cases
    case 3
    with assms(2) rd out [OF _ s1(1,2)] show ?thesis
      by (auto simp: get_first_byte_def bind_eq_Some_conv)
  next
    case 4
    with assms(2) rd obtain c2 s2 where rd2: "inbyte io (word_of_int DLY_1S) s1 = Some (c2, s2)"
      by (auto simp: get_first_byte_def bind_eq_Some_conv)
    with assms(2) rd 4 out ib [OF rd2] show ?thesis
      by (auto simp: get_first_byte_def bind_eq_Some_conv split: if_splits)
  qed (use assms(2) rd s1 in \<open>auto simp: get_first_byte_def split: if_splits\<close>)
qed

lemma sync_safe:
  assumes "ok s" "sync_loop io tc n (0, 0) s = Some ((bufsz, c), s')"
  shows "ok s' \<and> same_rest s s' \<and> (bufsz \<in> {128, 1024} \<and> 0 \<le> c \<and> c < 256 \<or> bufsz \<in> {-4, -1, 0})"
proof -
  have "sync_loop io tc n bc s = Some ((bufsz, c), s') \<Longrightarrow> ok s \<Longrightarrow> fst bc = 0 \<Longrightarrow>
      ok s' \<and> same_rest s s' \<and> (bufsz \<in> {128, 1024} \<and> 0 \<le> c \<and> c < 256 \<or> bufsz \<in> {-4, -1, 0})" for bc
  proof (induction n arbitrary: bc s)
    case (Suc n)
    let ?s1 = "if tc \<noteq> 0 then outbyte io (uint tc) s else s"
    from Suc.prems(1) obtain b1 c1 s2 where fb: "get_first_byte io ?s1 = Some ((b1, c1), s2)"
      and rest: "(if b1 \<noteq> 0 then Some ((b1, c1), s2) else sync_loop io tc n (b1, c1) s2)
        = Some ((bufsz, c), s')"
      by (auto simp: bind_eq_Some_conv Let_def split: if_splits)
    have s1: "ok ?s1" "same_rest s ?s1" using Suc.prems(2) by (auto simp: same_rest_def)
    from first_byte_safe [OF s1(1) fb] rest Suc.IH [of "(b1, c1)" s2] s1(2) show ?case
      by (auto split: if_splits intro: same_rest_trans)
  qed auto
  with assms show ?thesis by simp
qed

end

section \<open>The invariant of the receiver\<close>

definition within :: "nat \<Rightarrow> nat \<Rightarrow> memory \<Rightarrow> memory \<Rightarrow> bool" where
  "within p n m m' \<longleftrightarrow> (\<forall>a. a < p \<or> p + n \<le> a \<longrightarrow> m' a = m a)"

text \<open>
  Relative to the memory \<open>m0\<close> and the callback's argument \<open>a0\<close> at the start: only the first 1029 bytes of the
  buffer changed, the argument is what contiguous chunks made of it that add up to \<open>len\<close>, which is within the
  size asked for, and the retransmission counter is between 1 and 25.
\<close>

definition xm_ok :: "nat \<Rightarrow> int \<Rightarrow> memory \<Rightarrow> (chunk \<Rightarrow> 'c \<Rightarrow> 'c) \<Rightarrow> 'c \<Rightarrow> 'c xm \<Rightarrow> 'w sys \<Rightarrow> bool" where
  "xm_ok xb dz m0 eff a0 x s \<longleftrightarrow> within xb 1029 m0 (mem s)
     \<and> 0 \<le> rlen x \<and> rlen x \<le> max 0 dz \<and> 1 \<le> retrans x \<and> retrans x \<le> MAXRETRANS
     \<and> (\<exists>cs. cb_arg x = fold eff cs a0 \<and> contiguous 0 cs (rlen x))"

lemma within_write:
  "within xb n m0 m \<Longrightarrow> xb \<le> p \<Longrightarrow> p + length bs \<le> xb + n \<Longrightarrow> within xb n m0 (mem_write m p bs)"
  by (auto simp: within_def mem_write_def)

lemma within_upd: "within xb n m0 m \<Longrightarrow> 0 < n \<Longrightarrow> within xb n m0 (m(xb := b))"
  by (auto simp: within_def)

lemma xm_ok_mem: "mem s' = mem s \<Longrightarrow> xm_ok xb dz m0 eff a0 x s' = xm_ok xb dz m0 eff a0 x s"
  by (simp add: xm_ok_def)

lemma xm_ok_locals [simp]:
  "xm_ok xb dz m0 eff a0 (x\<lparr>trychar := c\<rparr>) s = xm_ok xb dz m0 eff a0 x s"
  "xm_ok xb dz m0 eff a0 (x\<lparr>use_src := b\<rparr>) s = xm_ok xb dz m0 eff a0 x s"
  by (simp_all add: xm_ok_def)

lemma xm_ok_print [simp]: "xm_ok xb dz m0 eff a0 x (print t s) = xm_ok xb dz m0 eff a0 x s"
  by (simp add: xm_ok_def)

context xm_safe
begin

lemma xm_ok_outbyte [simp]:
  "ok s \<Longrightarrow> xm_ok xb dz m0 g a0 x (outbyte io c s) = xm_ok xb dz m0 g a0 x s"
  by (simp add: xm_ok_def)

lemma take_packet_ok:
  assumes dz: "dz < 2147483648" and bs: "bufsz \<in> {128, 1024}" and inv: "xm_ok xb dz m0 eff a0 x s"
    and "ok s" and run: "take_packet xb dz cb bufsz x s = (x', s')"
  shows "ok s' \<and> mem s' = mem s \<and> retrans x' = MAXRETRANS + 1
    \<and> xm_ok xb dz m0 eff a0 (x'\<lparr>retrans := MAXRETRANS\<rparr>) s'"
proof -
  define count where "count = (if dz - rlen x > bufsz then bufsz else dz - rlen x)"
  show ?thesis
  proof (cases "count > 0")
    case False
    with run inv \<open>ok s\<close> show ?thesis
      by (auto simp: take_packet_def Let_def xm_ok_def simp flip: count_def)
  next
    case True
    obtain a s1 where cbr: "cb (xb + 3) (u32_of_int (rlen x)) (u32_of_int count) (cb_arg x) s = (a, s1)"
      by force
    from inv True obtain cs where cs: "cb_arg x = fold eff cs a0" "contiguous 0 cs (rlen x)"
      and rl: "0 \<le> rlen x" "rlen x \<le> max 0 dz" by (auto simp: xm_ok_def)
    have cnt: "0 < count" "count \<le> 1024" "count \<le> dz - rlen x"
      using True bs by (auto simp: count_def split: if_splits)
    with rl dz have n: "unat (u32_of_int count) = nat count" "uint (u32_of_int (rlen x)) = rlen x"
      by (auto intro!: unat_u32_of_int uint_u32_of_int)
    let ?d = "mem_read (mem s) (xb + 3) (nat count)"
    have "a = fold eff (cs @ [(u32_of_int (rlen x), ?d)]) a0"
      using cb_eff [OF cbr] cs(1) n by simp
    moreover have "contiguous 0 (cs @ [(u32_of_int (rlen x), ?d)]) (rlen x + count)"
      using cs(2) n cnt by (auto simp: contiguous_append intro!: exI [of _ "rlen x"])
    ultimately have log: "\<exists>cs. a = fold eff cs a0 \<and> contiguous 0 cs (rlen x + count)"
      by blast
    have within: "within xb 1029 m0 (mem s)" using inv by (simp add: xm_ok_def)
    have s1: "ok s1" "mem s1 = mem s" using cb_safe [OF \<open>ok s\<close> cbr] by simp_all
    have "x' = x\<lparr>cb_arg := a, rlen := rlen x + count, packetno := packetno x + 1,
        retrans := MAXRETRANS + 1\<rparr>" "s' = s1"
      using run cbr True by (auto simp: take_packet_def Let_def simp flip: count_def)
    with log within s1 cnt rl show ?thesis by (simp add: xm_ok_def)
  qed
qed

lemma packet_check_ok:
  assumes dz: "dz < 2147483648" and bs: "bufsz \<in> {128, 1024}" and inv: "xm_ok xb dz m0 eff a0 x s"
    and "ok s" and run: "packet_check io xb dz cb bufsz x s = Some (r, x', s')"
  shows "ok s' \<and> (r \<in> {0, 1} \<and> xm_ok xb dz m0 eff a0 x' s' \<or> r = -3 \<and> within xb 1029 m0 (mem s')
    \<and> xm_ok xb dz m0 eff a0 (x'\<lparr>retrans := 1\<rparr>) s')"
proof -
  obtain x1 s1 where y1: "(if mem s (xb + 1) = packetno x then take_packet xb dz cb bufsz x s
      else (x, s)) = (x1, s1)" by force
  have pc: "packet_check io xb dz cb bufsz x s =
     (if packet_valid xb bufsz (packetno x) (use_src x) (mem s) then
        (let x2 = x1\<lparr>retrans := retrans x1 - 1\<rparr>
         in if retrans x2 \<le> 0 then do {
              s2 \<leftarrow> flushinput io s1;
              Some (-3, x2, send_cancel io s2) }
            else Some (0, x2, outbyte io ACK s1))
      else Some (1, x, s))"
    by (simp only: packet_check_def y1 prod.case Let_def)
  have inv1: "ok s1 \<and> xm_ok xb dz m0 eff a0 (x1\<lparr>retrans := max 1 (retrans x1 - 1)\<rparr>) s1"
  proof (cases "mem s (xb + 1) = packetno x")
    case True
    with take_packet_ok [OF dz bs inv \<open>ok s\<close>, of x1 s1] y1 show ?thesis by simp
  next
    case False
    with inv \<open>ok s\<close> y1 show ?thesis by (auto simp: xm_ok_def)
  qed
  show ?thesis
  proof (cases "packet_valid xb bufsz (packetno x) (use_src x) (mem s)")
    case False
    with run inv \<open>ok s\<close> pc show ?thesis by auto
  next
    case True
    show ?thesis
    proof (cases "retrans x1 - 1 \<le> 0")
      case False
      with True run pc have "r = 0" "x' = x1\<lparr>retrans := retrans x1 - 1\<rparr>" "s' = outbyte io ACK s1"
        by (auto simp: Let_def)
      with inv1 False show ?thesis by (simp add: max_def split: if_splits)
    next
      case lim: True
      with True run pc obtain s2 where fl: "flushinput io s1 = Some s2"
        and r: "r = -3" "x' = x1\<lparr>retrans := retrans x1 - 1\<rparr>" "s' = send_cancel io s2"
        by (auto simp: Let_def bind_eq_Some_conv)
      have s2: "ok s2" "mem s2 = mem s1" using flush_safe [OF _ fl] inv1 by (auto simp: same_rest_def)
      with inv1 lim r show ?thesis by (simp add: xm_ok_def)
    qed
  qed
qed

lemma flush_ok:
  assumes "flushinput io s = Some s'" "ok s" "xm_ok xb dz m0 eff a0 x s"
  shows "ok s' \<and> xm_ok xb dz m0 eff a0 x s'"
  using flush_safe [OF assms(2,1)] assms(3) xm_ok_mem [of s' s xb dz m0 eff a0 x] by (simp add: same_rest_def)

lemma packet_answer_ok:
  assumes "dz < 2147483648" "bufsz \<in> {128, 1024}" "xm_ok xb dz m0 eff a0 x s" "ok s"
    and run: "packet_answer io xb dz cb bufsz x s = Some r"
  shows "case r of Inl (ret, x', s') \<Rightarrow> ok s' \<and> ret = -3 \<and> xm_ok xb dz m0 eff a0 (x'\<lparr>retrans := 1\<rparr>) s'
    | Inr (x', s') \<Rightarrow> ok s' \<and> xm_ok xb dz m0 eff a0 x' s'"
proof -
  from run obtain tmp y s1 where pc: "packet_check io xb dz cb bufsz x s = Some (tmp, y, s1)"
    and r: "(if tmp = 1 then do {
             s \<leftarrow> flushinput io s1;
             Some (Inr (y, outbyte io NAK s)) }
           else if tmp < 0 then Some (Inl (tmp, y, s1))
           else Some (Inr (y, s1))) = Some r"
    by (auto simp: packet_answer_def bind_eq_Some_conv)
  note ok1 = packet_check_ok [OF assms(1-4) pc]
  show ?thesis
  proof (cases "tmp = 1")
    case True
    with r obtain s2 where fl: "flushinput io s1 = Some s2" and r: "r = Inr (y, outbyte io NAK s2)"
      by (auto simp: bind_eq_Some_conv)
    from flush_ok [OF fl, of xb dz m0 a0 y] ok1 True r show ?thesis by simp
  next
    case False
    with ok1 r show ?thesis by (auto split: if_splits)
  qed
qed

lemma xmodem_packet_ok:
  assumes dz: "dz < 2147483648" and bs: "bufsz \<in> {128, 1024}" and inv: "xm_ok xb dz m0 eff a0 x s"
    and "ok s" and run: "xmodem_packet io xb dz cb bufsz c x s = Some r"
  shows "case r of Inl (ret, x', s') \<Rightarrow> ok s' \<and> ret = -3 \<and> xm_ok xb dz m0 eff a0 (x'\<lparr>retrans := 1\<rparr>) s'
    | Inr (x', s') \<Rightarrow> ok s' \<and> xm_ok xb dz m0 eff a0 x' s'"
proof -
  define x1 where "x1 = (if trychar x = TRY_CRC then x\<lparr>use_src := True\<rparr> else x)\<lparr>trychar := 0\<rparr>"
  define s1 where "s1 = s\<lparr>mem := (mem s)(xb := u8_of_int c)\<rparr>"
  define to_read where "to_read = bufsz + (if use_src x1 then 1 else 0) + 3"
  have x1: "xm_ok xb dz m0 eff a0 x1 s1"
    using inv by (auto simp: x1_def s1_def xm_ok_def within_upd)
  have s1: "ok s1" using \<open>ok s\<close> ok_mem by (simp add: s1_def)
  have tr: "0 \<le> to_read" "to_read \<le> 1028" using bs by (auto simp: to_read_def)
  from run obtain nread s2 where
    rd: "port_read_buf io (port_ticks io (word_of_int (DLY_1S * 10))) (xb + 1) to_read s1 = Some (nread, s2)"
    and rest: "(if nread < to_read then do {
             s \<leftarrow> flushinput io (print (short_packet_msg to_read nread) s2);
             Some (Inr (x1, outbyte io NAK s)) }
           else packet_answer io xb dz cb bufsz x1 s2) = Some r"
    unfolding xmodem_packet_def Let_def x1_def [symmetric] s1_def [symmetric] to_read_def [symmetric]
    by (auto simp: bind_eq_Some_conv)
  from read_buf_safe [OF s1 _ tr(1) rd] tr obtain bytes where
    s2: "ok s2" "mem s2 = mem_write (mem s1) (xb + 1) bytes" "length bytes \<le> 1028" by force
  have x2: "xm_ok xb dz m0 eff a0 x1 s2"
    using x1 s2 by (auto simp: xm_ok_def intro!: within_write)
  show ?thesis
  proof (cases "nread < to_read")
    case True
    with rest obtain s4 where fl: "flushinput io (print (short_packet_msg to_read nread) s2) = Some s4"
      and r: "r = Inr (x1, outbyte io NAK s4)"
      by (auto simp: bind_eq_Some_conv)
    from flush_ok [OF fl, of xb dz m0 a0 x1] s2(1) ok_print x2 r show ?thesis by simp
  next
    case False
    with rest packet_answer_ok [OF dz bs x2 s2(1)] show ?thesis by simp
  qed
qed

lemma xmodem_round_ok:
  assumes dz: "dz < 2147483648" and inv: "xm_ok xb dz m0 eff a0 x s"
    and "ok s" and run: "xmodem_round io xb dz cb x s = Some r"
  shows "case r of
      Inl (ret, x', s') \<Rightarrow> ok s' \<and> (ret = rlen x' \<or> ret \<in> {-1, -2, -3})
        \<and> xm_ok xb dz m0 eff a0 (x'\<lparr>retrans := 1\<rparr>) s'
    | Inr (x', s') \<Rightarrow> ok s' \<and> xm_ok xb dz m0 eff a0 x' s'"
proof -
  from run obtain bufsz c s1 where sy: "sync_loop io (trychar x) 16 (0, 0) s = Some ((bufsz, c), s1)"
    and rest: "(if bufsz = -4 then Some (Inl (rlen x, x, s1))
     else if bufsz < 0 then Some (Inl (bufsz, x, s1))
     else if bufsz = 0 then
       (if trychar x = TRY_CRC then Some (Inr (x\<lparr>trychar := u8_of_int NAK\<rparr>, s1))
        else do {
          s \<leftarrow> flushinput io s1;
          Some (Inl (-2, x, send_cancel io s)) })
     else xmodem_packet io xb dz cb bufsz c x s1) = Some r"
    by (auto simp: xmodem_round_def bind_eq_Some_conv)
  have s1: "ok s1" "mem s1 = mem s"
    and bs: "bufsz \<in> {128, 1024} \<or> bufsz \<in> {-4, -1, 0}"
    using sync_safe [OF \<open>ok s\<close> sy] by (auto simp: same_rest_def)
  have inv1: "xm_ok xb dz m0 eff a0 x s1"
    using inv s1(2) by (simp add: xm_ok_def)
  then have inv1': "xm_ok xb dz m0 eff a0 (x\<lparr>retrans := 1\<rparr>) s1"
    by (simp add: xm_ok_def)
  consider "bufsz \<in> {128, 1024}" | "bufsz \<in> {-4, -1}" | "bufsz = 0" "trychar x = TRY_CRC"
    | "bufsz = 0" "trychar x \<noteq> TRY_CRC" using bs by blast
  then show ?thesis
  proof cases
    case 1
    with rest have "xmodem_packet io xb dz cb bufsz c x s1 = Some r" by auto
    from xmodem_packet_ok [OF dz 1 inv1 s1(1) this] show ?thesis
      by (cases r) auto
  next
    case 4
    with rest obtain s2 where fl: "flushinput io s1 = Some s2" and r: "r = Inl (-2, x, send_cancel io s2)"
      by (auto simp: bind_eq_Some_conv)
    from flush_safe [OF s1(1) fl] have "ok s2" "mem s2 = mem s1" by (auto simp: same_rest_def)
    with inv1' r show ?thesis by (simp add: xm_ok_def)
  qed (use rest s1 inv1 inv1' in auto)
qed

lemma xmodemReceive_ok:
  assumes dz: "dz < 2147483648" and "ok s" and run: "xmodemReceive io xb dz cb a s = Some (r, a', s')"
  shows "ok s' \<and> within xb 1029 (mem s) (mem s')
    \<and> (\<exists>cs n. a' = fold eff cs a \<and> contiguous 0 cs n \<and> n \<le> max 0 dz \<and> (r = n \<or> r \<in> {-1, -2, -3}))"
proof -
  from run obtain x where lp: "xmodem_loop io xb dz cb (xm_init a, s) = Some (r, x, s')"
    and a': "a' = cb_arg x"
    by (auto simp: xmodemReceive_def bind_eq_Some_conv)
  have "case (r, x, s') of (r, x, s') \<Rightarrow> ok s' \<and> (r = rlen x \<or> r \<in> {-1, -2, -3})
      \<and> xm_ok xb dz (mem s) eff a (x\<lparr>retrans := 1\<rparr>) s'"
  proof (rule forever_rule [OF lp [unfolded xmodem_loop_def],
        where I = "\<lambda>(x, s1). ok s1 \<and> xm_ok xb dz (mem s) eff a x s1"])
    show "case (xm_init a, s) of (x, s1) \<Rightarrow> ok s1 \<and> xm_ok xb dz (mem s) eff a x s1"
      using \<open>ok s\<close> by (auto simp: xm_init_def xm_ok_def within_def intro!: exI [of _ "[]"])
  next
    fix y y' :: "'c xm \<times> 'a sys"
    assume "case y of (x, s1) \<Rightarrow> ok s1 \<and> xm_ok xb dz (mem s) eff a x s1"
      "(case y of (x, s) \<Rightarrow> xmodem_round io xb dz cb x s) = Some (Inr y')"
    then show "case y' of (x, s1) \<Rightarrow> ok s1 \<and> xm_ok xb dz (mem s) eff a x s1"
      using xmodem_round_ok [OF dz, where r = "Inr y'"] by (cases y; cases y') auto
  next
    fix y :: "'c xm \<times> 'a sys" and z
    assume "case y of (x, s1) \<Rightarrow> ok s1 \<and> xm_ok xb dz (mem s) eff a x s1"
      "(case y of (x, s) \<Rightarrow> xmodem_round io xb dz cb x s) = Some (Inl z)"
    then show "case z of (r, x, s') \<Rightarrow> ok s' \<and> (r = rlen x \<or> r \<in> {-1, -2, -3})
        \<and> xm_ok xb dz (mem s) eff a (x\<lparr>retrans := 1\<rparr>) s'"
      using xmodem_round_ok [OF dz, where r = "Inl z"] by (cases y; cases z) auto
  qed
  then show ?thesis
    by (auto simp: xm_ok_def a')
qed

end

end
