(* ===== verification/Xmodem_Sender.thy ===== *)
theory Xmodem_Sender
  imports Xmodem_Safe
begin

text \<open>
  The other end of the line, as a specification: how an XMODEM sender frames a block, what a whole
  session with damaged, cut and repeated packets looks like on the line, which sessions a receiver
  has to cope with, what it should answer and which chunks it should deliver. None of this is code
  of the repository.
\<close>

section \<open>Packets\<close>

definition trailer :: "bool \<Rightarrow> u8 list \<Rightarrow> u8 list" where
  "trailer crc d = (if crc then [ucast (drop_bit 8 (crc_of 0 d)), ucast (crc_of 0 d)] else [sum_list d])"

definition packet_body :: "bool \<Rightarrow> u8 \<Rightarrow> u8 list \<Rightarrow> u8 list" where
  "packet_body crc b d = b # NOT b # d @ trailer crc d"

definition header_byte :: "nat \<Rightarrow> u8" where
  "header_byte n = (if n = 128 then 1 else 2)"

definition packet :: "bool \<Rightarrow> u8 \<Rightarrow> u8 list \<Rightarrow> u8 list" where
  "packet crc b d = header_byte (length d) # packet_body crc b d"

text \<open>What the receiver reads after a header byte, and whether it may accept it as block \<open>b\<close>.\<close>

definition body_length :: "bool \<Rightarrow> nat \<Rightarrow> nat" where
  "body_length crc n = n + (if crc then 1 else 0) + 3"

definition body_valid :: "bool \<Rightarrow> nat \<Rightarrow> u8 \<Rightarrow> u8 list \<Rightarrow> bool" where
  "body_valid crc n b body \<longleftrightarrow> body ! 0 = NOT (body ! 1)
     \<and> (body ! 0 = b \<or> uint (body ! 0) = uint b - 1)
     \<and> check crc (\<lambda>i. body ! (2 + i)) n \<noteq> 0"

lemma check_cong:
  assumes "\<And>i. i < sz + (if crc then 2 else 1) \<Longrightarrow> f i = g i"
  shows "check crc f sz = check crc g sz"
proof -
  have m: "map f [0..<sz] = map g [0..<sz]" using assms by (auto split: if_splits)
  have s: "f sz = g sz" "crc \<Longrightarrow> f (sz + 1) = g (sz + 1)" using assms by auto
  show ?thesis
    by (cases crc) (use s in \<open>simp_all add: check_def crc16_ccitt_crc_of cks_loop_sum m\<close>)
qed

lemma length_trailer: "length (trailer crc d) = (if crc then 2 else 1)"
  by (simp add: trailer_def)

lemma length_packet_body: "length (packet_body crc b d) = body_length crc (length d)"
  by (simp add: packet_body_def length_trailer body_length_def)

lemma crc_bytes: "push_bit 8 (ucast (ucast (drop_bit 8 c) :: u8)) + ucast (ucast c :: u8) = (c :: u16)"
proof -
  have "push_bit 8 (ucast (ucast (drop_bit 8 c) :: u8)) AND ucast (ucast c :: u8) = (0 :: u16)"
    by (rule bit_word_eqI) (auto simp: bit_simps)
  then have "push_bit 8 (ucast (ucast (drop_bit 8 c) :: u8)) + ucast (ucast c :: u8)
      = push_bit 8 (ucast (ucast (drop_bit 8 c) :: u8)) OR (ucast (ucast c :: u8) :: u16)"
    by (rule disjunctive_add_eq_or)
  also have "\<dots> = c"
    by (rule bit_word_eqI) (auto simp: bit_simps)
  finally show ?thesis .
qed

lemma check_trailer: "check crc (\<lambda>i. (d @ trailer crc d) ! i) (length d) = 1"
proof -
  have "map (\<lambda>i. (d @ trailer crc d) ! i) [0..<length d] = d"
    by (rule nth_equalityI) (simp_all add: nth_append)
  then show ?thesis
    by (simp add: check_def crc16_ccitt_crc_of cks_loop_sum trailer_def nth_append crc_bytes)
qed

lemma body_valid_packet:
  "body_valid crc (length d) b (packet_body crc b' d) = (b' = b \<or> uint b' = uint b - 1)"
  using check_trailer [of crc d] by (simp add: body_valid_def packet_body_def)

text \<open>A packet in the buffer is judged by the bytes that were read.\<close>

lemma packet_valid_body:
  assumes "length body = body_length crc n"
  shows "packet_valid xb (int n) b crc (mem_write m (xb + 1) body) = body_valid crc n b body"
proof -
  have nth: "mem_write m (xb + 1) body (xb + 1 + i) = body ! i" if "i < length body" for i
    using that by (simp add: mem_write_def)
  have "check crc (\<lambda>i. mem_write m (xb + 1) body (xb + 3 + i)) n = check crc (\<lambda>i. body ! (2 + i)) n"
    by (rule check_cong) (use nth [of "2 + _"] assms in \<open>simp add: body_length_def eval_nat_numeral split: if_splits\<close>)
  moreover have "mem_write m (xb + 1) body (xb + 1) = body ! 0"
    "mem_write m (xb + 1) body (xb + 2) = body ! 1"
    using nth [of 0] nth [of 1] assms by (simp_all add: body_length_def eval_nat_numeral)
  ultimately show ?thesis
    by (simp add: packet_valid_def body_valid_def)
qed

lemma uint_pred_u8: "(b :: u8) \<noteq> 0 \<Longrightarrow> uint (b - 1) = uint b - 1"
  by (metis uint_minus_simple_alt uint_1 word_le_sub1 word_zero_le order.not_eq_order_implies_strict
      word_neq_0_conv word_less_sub1 linorder_not_le)

section \<open>Sessions\<close>

text \<open>
  What a sender transmits when the receiver expects block \<open>b\<close>: the block; the block before again
  (its acknowledgement was lost); a packet damaged on the way; a packet cut short. After the last
  two the sender is silent until it is told to send again.
\<close>

datatype tx = Data "u8 list" | Repeat "u8 list" | Damaged u8 "u8 list" | Cut u8 "u8 list"

definition header_size :: "u8 \<Rightarrow> nat" where
  "header_size c = (if c = 1 then 128 else 1024)"

fun session_line :: "bool \<Rightarrow> u8 \<Rightarrow> tx list \<Rightarrow> rx_item list" where
  "session_line crc b [] = [Byte 0x04]"
| "session_line crc b (Data d # ts) = map Byte (packet crc b d) @ session_line crc (b + 1) ts"
| "session_line crc b (Repeat d # ts) = map Byte (packet crc (b - 1) d) @ session_line crc b ts"
| "session_line crc b (Damaged c body # ts) = map Byte (c # body) @ Silence # session_line crc b ts"
| "session_line crc b (Cut c body # ts) = map Byte (c # body) @ Silence # Silence # session_line crc b ts"

text \<open>
  The sessions to cope with: blocks have 128 or 1024 bytes; fewer than \<open>r\<close> repeats of a block
  follow each other, and none is of block 255 (see \<open>wrapped_repeat_refused\<close>); a damaged packet is
  one that the block number or the check gives away.
\<close>

fun session_ok :: "bool \<Rightarrow> u8 \<Rightarrow> int \<Rightarrow> tx list \<Rightarrow> bool" where
  "session_ok crc b r [] \<longleftrightarrow> True"
| "session_ok crc b r (Data d # ts) \<longleftrightarrow> length d \<in> {128, 1024} \<and> session_ok crc (b + 1) MAXRETRANS ts"
| "session_ok crc b r (Repeat d # ts) \<longleftrightarrow>
     length d \<in> {128, 1024} \<and> b \<noteq> 0 \<and> 1 < r \<and> session_ok crc b (r - 1) ts"
| "session_ok crc b r (Damaged c body # ts) \<longleftrightarrow> c \<in> {1, 2}
     \<and> length body = body_length crc (header_size c) \<and> \<not> body_valid crc (header_size c) b body
     \<and> session_ok crc b r ts"
| "session_ok crc b r (Cut c body # ts) \<longleftrightarrow> c \<in> {1, 2}
     \<and> length body < body_length crc (header_size c) \<and> session_ok crc b r ts"

fun answers :: "tx list \<Rightarrow> u8 list" where
  "answers [] = [0x06]"
| "answers (Data d # ts) = 0x06 # answers ts"
| "answers (Repeat d # ts) = 0x06 # answers ts"
| "answers (Damaged c body # ts) = 0x15 # answers ts"
| "answers (Cut c body # ts) = 0x15 # answers ts"

text \<open>What a receiver that asks with the character \<open>tc\<close> has sent when it asked \<open>k\<close> times.\<close>

definition asks :: "u8 \<Rightarrow> nat \<Rightarrow> u8 list" where
  "asks tc k = (if tc = 0 then [] else replicate k tc)"

text \<open>
  The requests of a receiver whose sender starts after \<open>k\<close> pauses: for CRC mode at first, for
  checksum mode after sixteen.
\<close>

definition requests :: "nat \<Rightarrow> u8 list" where
  "requests k = (if k < 16 then replicate (Suc k) 0x43 else replicate 16 0x43 @ replicate (k - 15) 0x15)"

fun blocks :: "tx list \<Rightarrow> u8 list list" where
  "blocks [] = []"
| "blocks (Data d # ts) = d # blocks ts"
| "blocks (_ # ts) = blocks ts"

text \<open>The chunks delivered from offset \<open>off\<close>, and where they end, for a size limit \<open>dz\<close>.\<close>

fun deliver :: "int \<Rightarrow> int \<Rightarrow> u8 list list \<Rightarrow> chunk list" where
  "deliver dz off [] = []"
| "deliver dz off (d # ds) =
     (let n = min (dz - off) (int (length d))
      in if 0 < n then (u32_of_int off, take (nat n) d) # deliver dz (off + n) ds else deliver dz off ds)"

fun deliver_end :: "int \<Rightarrow> int \<Rightarrow> u8 list list \<Rightarrow> int" where
  "deliver_end dz off [] = off"
| "deliver_end dz off (d # ds) = deliver_end dz (off + max 0 (min (dz - off) (int (length d)))) ds"

lemma deliver_concat:
  "0 \<le> off \<Longrightarrow> off \<le> max 0 dz \<Longrightarrow> concat (map snd (deliver dz off ds)) = take (nat (dz - off)) (concat ds)"
proof (induction dz off ds rule: deliver.induct)
  case (2 dz off d ds)
  have "nat (dz - (off + int (length d))) = nat (dz - off) - length d"
    using "2.prems" by linarith
  with 2 show ?case
    by (auto simp: Let_def min_def)
qed simp

lemma deliver_end_eq:
  "0 \<le> off \<Longrightarrow> off \<le> max 0 dz \<Longrightarrow> deliver_end dz off ds = min (max 0 dz) (off + int (length (concat ds)))"
  by (induction ds arbitrary: off) auto

lemma deliver_append:
  "deliver dz off (xs @ ys) = deliver dz off xs @ deliver dz (deliver_end dz off xs) ys"
  by (induction xs arbitrary: off) (auto simp: Let_def max_def)

lemma deliver_end_append: "deliver_end dz off (xs @ ys) = deliver_end dz (deliver_end dz off xs) ys"
  by (induction xs arbitrary: off) auto

end
