(* ===== verification/Xmodem_Line.thy ===== *)
theory Xmodem_Line
  imports Xmodem_Sender Line_Sim
begin

text \<open>
  The XMODEM receiver on a line that behaves: what it does with each kind of item, from the
  contract \<open>rx_line\<close>, and hence what it does with the whole session of a sender
  (\<open>Xmodem_Sender\<close>): every block is delivered once, in order, and every transmission answered.
\<close>

definition kept :: "('w \<Rightarrow> u8 list) \<Rightarrow> ('w \<Rightarrow> 'o) \<Rightarrow> u8 list \<Rightarrow> 'w sys \<Rightarrow> 'w sys \<Rightarrow> bool" where
  "kept sent obs out s s' \<longleftrightarrow> mem s' = mem s \<and> sent (world s') = sent (world s) @ out
     \<and> obs (world s') = obs (world s)"

lemma kept_refl [simp]: "kept sent obs [] s s"
  by (simp add: kept_def)

lemma kept_trans: "kept sent obs o1 s s1 \<Longrightarrow> kept sent obs o2 s1 s2 \<Longrightarrow> kept sent obs (o1 @ o2) s s2"
  by (simp add: kept_def)

context rx_line
begin

lemma ticks [simp]:
  "finite_timeout (port_ticks io 1000)" "finite_timeout (port_ticks io 1500)"
  "finite_timeout (port_ticks io 2000)" "finite_timeout (port_ticks io 10000)"
  by (rule ticks_finite; simp)+

lemma inbyte_byte:
  assumes "ok s" "stream s = Byte b # r" "finite_timeout (port_ticks io (ucast t))"
  shows "\<exists>s'. inbyte io t s = Some (uint b, s') \<and> ok s' \<and> stream s' = r \<and> kept sent obs [] s s'"
  using read_byte [OF assms(1) finite_timeout_nz [OF assms(3)] assms(2)] read_safe [OF assms(1)]
  by (fastforce simp: inbyte_def kept_def same_rest_def)

lemma inbyte_quiet:
  assumes "ok s" "quiet (stream s)" "finite_timeout (port_ticks io (ucast t))"
  shows "\<exists>s'. inbyte io t s = Some (-1, s') \<and> ok s' \<and> stream s' = tl (stream s) \<and> kept sent obs [] s s'"
  using read_quiet [OF assms(1,3,2)] read_safe [OF assms(1)]
  by (fastforce simp: inbyte_def kept_def same_rest_def)

lemma outbyte_line [simp]:
  assumes "ok s"
  shows "stream (outbyte io c s) = stream s" "kept sent obs [u8_of_int c] s (outbyte io c s)"
  using send_line send_safe [OF assms] by (simp_all add: outbyte_def kept_def same_rest_def)

lemma flush_line:
  "ok s \<Longrightarrow> stream s = map Byte bs @ q \<Longrightarrow> quiet q \<Longrightarrow>
    \<exists>s'. flushinput io s = Some s' \<and> ok s' \<and> stream s' = tl q \<and> kept sent obs [] s s'"
proof (induction bs arbitrary: s)
  case Nil
  with inbyte_quiet [of s 1500] obtain s' where rd: "inbyte io 1500 s = Some (-1, s')" "ok s'"
    "stream s' = tl q" "kept sent obs [] s s'" by auto
  have "flushinput io s = Some s'"
    unfolding flushinput_def by (rule forever_Inl) (simp add: rd)
  with rd show ?case by blast
next
  case (Cons b bs)
  with inbyte_byte [of s b _ 1500] obtain s1 where rd: "inbyte io 1500 s = Some (uint b, s1)" "ok s1"
    "stream s1 = map Byte bs @ q" "kept sent obs [] s s1" by auto
  have "flushinput io s = flushinput io s1"
    unfolding flushinput_def by (rule forever_Inr) (simp add: rd)
  moreover obtain s' where "flushinput io s1 = Some s'" "ok s'" "stream s' = tl q" "kept sent obs [] s1 s'"
    using Cons.IH [OF rd(2,3) Cons.prems(3)] by blast
  ultimately show ?case using rd(4) by (auto simp: kept_def)
qed

section \<open>The first byte\<close>

lemma first_header:
  assumes "ok s" "stream s = Byte c # r" "c \<in> {1, 2}"
  shows "\<exists>s'. get_first_byte io s = Some ((int (header_size c), uint c), s') \<and> ok s' \<and> stream s' = r
    \<and> kept sent obs [] s s'"
  using inbyte_byte [OF assms(1,2), of 2000] assms(3)
  by (auto simp: get_first_byte_def header_size_def)

lemma first_quiet:
  assumes "ok s" "quiet (stream s)"
  shows "\<exists>s'. get_first_byte io s = Some ((0, -1), s') \<and> ok s' \<and> stream s' = tl (stream s)
    \<and> kept sent obs [] s s'"
  using inbyte_quiet [OF assms, of 2000] by (auto simp: get_first_byte_def)

lemma first_eot:
  assumes "ok s" "stream s = Byte 4 # map Byte bs @ q" "quiet q"
  shows "\<exists>s'. get_first_byte io s = Some ((-4, 4), s') \<and> ok s' \<and> stream s' = tl q
    \<and> kept sent obs [0x06] s s'"
proof -
  obtain s1 where rd: "inbyte io 2000 s = Some (4, s1)" "ok s1" "stream s1 = map Byte bs @ q"
    "kept sent obs [] s s1"
    using inbyte_byte [OF assms(1,2), of 2000] by auto
  from flush_line [OF rd(2,3) assms(3)] obtain s2 where fl: "flushinput io s1 = Some s2" "ok s2"
    "stream s2 = tl q" "kept sent obs [] s1 s2" by blast
  let ?s' = "outbyte io ACK s2"
  have "kept sent obs [0x06] s ?s'"
    using kept_trans [OF kept_trans [OF rd(4) fl(4)] outbyte_line(2) [OF fl(2), of ACK]]
    by (simp add: u8_of_int_def)
  moreover have "ok ?s'" "stream ?s' = tl q" using fl(2,3) by simp_all
  moreover have "get_first_byte io s = Some ((-4, 4), ?s')"
    by (simp add: get_first_byte_def rd fl)
  ultimately show ?thesis by blast
qed

lemma ask_line:
  assumes "ok s"
  shows "let s1 = (if tc \<noteq> 0 then outbyte io (uint tc) s else s)
    in ok s1 \<and> stream s1 = stream s \<and> kept sent obs (asks tc 1) s s1"
  using assms outbyte_line(2) [OF assms, of "uint tc"] by (simp add: asks_def)

lemma sync_pauses:
  "ok s \<Longrightarrow> stream s = replicate k Silence @ r \<Longrightarrow>
    \<exists>s1. sync_loop io tc (k + n) bc s = sync_loop io tc n (if k = 0 then bc else (0, -1)) s1
      \<and> ok s1 \<and> stream s1 = r \<and> kept sent obs (asks tc k) s s1"
proof (induction k arbitrary: s bc)
  case 0
  then show ?case by (auto simp: asks_def)
next
  case (Suc k)
  let ?s0 = "if tc \<noteq> 0 then outbyte io (uint tc) s else s"
  have s0: "ok ?s0" "stream ?s0 = Silence # replicate k Silence @ r" "kept sent obs (asks tc 1) s ?s0"
    using ask_line [OF Suc.prems(1), of tc] Suc.prems(2) by (simp_all only: Let_def) simp_all
  then have "quiet (stream ?s0)" by (simp only: quiet_def) blast
  from first_quiet [OF s0(1) this] obtain s1 where fb: "get_first_byte io ?s0 = Some ((0, -1), s1)"
    "ok s1" "stream s1 = replicate k Silence @ r" "kept sent obs [] ?s0 s1"
    by (simp only: s0(2) list.sel) blast
  from Suc.IH [OF fb(2,3), where bc = "(0, -1)"] obtain s2 where
    "sync_loop io tc (k + n) (0, -1) s1 = sync_loop io tc n (0, -1) s2" "ok s2" "stream s2 = r"
    "kept sent obs (asks tc k) s1 s2" by (simp only: if_cancel) blast
  moreover have "kept sent obs (asks tc (Suc k)) s s2" if "kept sent obs (asks tc k) s1 s2" for s2
    using kept_trans [OF kept_trans [OF s0(3) fb(4)] that] by (simp add: asks_def split: if_splits)
  ultimately show ?case using fb(1) by (simp add: Let_def) blast
qed

lemma sync_first:
  assumes "ok s" "stream s = replicate k Silence @ r" "k < n" "b \<noteq> 0"
    and first: "\<And>s. ok s \<Longrightarrow> stream s = r \<Longrightarrow> \<exists>s'. get_first_byte io s = Some ((b, c), s') \<and> ok s'
        \<and> stream s' = r' \<and> kept sent obs out s s'"
  shows "\<exists>s'. sync_loop io tc n (0, 0) s = Some ((b, c), s') \<and> ok s' \<and> stream s' = r'
    \<and> kept sent obs (asks tc (Suc k) @ out) s s'"
proof -
  obtain m where n: "n = k + Suc m" using \<open>k < n\<close> less_iff_Suc_add by auto
  from sync_pauses [OF assms(1,2), of tc "Suc m" "(0, 0)"] obtain s1 bc where
    sy: "sync_loop io tc n (0, 0) s = sync_loop io tc (Suc m) bc s1" and s1: "ok s1" "stream s1 = r"
    "kept sent obs (asks tc k) s s1" unfolding n by blast
  let ?s0 = "if tc \<noteq> 0 then outbyte io (uint tc) s1 else s1"
  have s0: "ok ?s0" "stream ?s0 = r" "kept sent obs (asks tc 1) s1 ?s0"
    using ask_line [OF s1(1), of tc] s1(2) by (simp_all only: Let_def)
  from first [OF s0(1,2)] obtain s' where fb: "get_first_byte io ?s0 = Some ((b, c), s')" "ok s'"
    "stream s' = r'" "kept sent obs out ?s0 s'" by blast
  have "kept sent obs (asks tc (Suc k) @ out) s s'"
    using kept_trans [OF kept_trans [OF s1(3) s0(3)] fb(4)]
    by (simp add: asks_def replicate_append_same [symmetric] split: if_splits)
  with fb sy \<open>b \<noteq> 0\<close> show ?thesis by (simp add: Let_def)
qed

end

section \<open>A callback on a line\<close>

text \<open>
  The callback leaves the line and the memory alone; what it does to its argument and to the rest
  of the world is a function \<open>eff\<close> of the chunk.
\<close>

locale xm_client = rx_line io ok stream sent obs
  for io :: "'w port" and ok :: "'w sys \<Rightarrow> bool" and stream :: "'w sys \<Rightarrow> rx_item list"
    and sent :: "'w \<Rightarrow> u8 list" and obs :: "'w \<Rightarrow> 'o" +
  fixes cb :: "('c, 'w) xmodem_cb" and eff :: "chunk \<Rightarrow> 'c \<times> 'o \<Rightarrow> 'c \<times> 'o"
  assumes cb_line: "ok s \<Longrightarrow> cb p addr n a s = (a', s') \<Longrightarrow> ok s' \<and> mem s' = mem s
      \<and> stream s' = stream s \<and> sent (world s') = sent (world s)
      \<and> (a', obs (world s')) = eff (addr, mem_read (mem s) p (unat n)) (a, obs (world s))"

text \<open>The mode the receiver is in, or will be in when the first header comes.\<close>

definition ready :: "bool \<Rightarrow> 'c xm \<Rightarrow> bool" where
  "ready crc x \<longleftrightarrow> trychar x = (if crc then TRY_CRC else u8_of_int NAK) \<and> \<not> use_src x
     \<or> trychar x = 0 \<and> use_src x = crc"

context xm_client
begin

lemma round_header:
  assumes "ok s" "stream s = replicate k Silence @ Byte c # r" "k < 16" "c \<in> {1, 2}"
  shows "\<exists>s1. xmodem_round io xb dz cb x s
      = xmodem_packet io xb dz cb (int (header_size c)) (uint c) x s1 \<and> ok s1 \<and> stream s1 = r
    \<and> kept sent obs (asks (trychar x) (Suc k)) s s1"
proof -
  have b: "int (header_size c) \<noteq> 0" by (simp add: header_size_def)
  have "\<exists>s'. get_first_byte io s = Some ((int (header_size c), uint c), s') \<and> ok s' \<and> stream s' = r
      \<and> kept sent obs [] s s'" if "ok s" "stream s = Byte c # r" for s
    using first_header [OF that assms(4)] .
  from sync_first [OF assms(1-3) b this, of "trychar x"] show ?thesis
    by (auto simp: xmodem_round_def header_size_def)
qed

lemma packet_full:
  assumes "ok s" "stream s = map Byte body @ r" "length body = body_length crc n" "ready crc x"
  shows "\<exists>s1. xmodem_packet io xb dz cb (int n) c x s = packet_answer io xb dz cb (int n) (x\<lparr>trychar := 0, use_src := crc\<rparr>) s1
    \<and> ok s1 \<and> stream s1 = r \<and> mem s1 = mem_write ((mem s)(xb := u8_of_int c)) (xb + 1) body
    \<and> sent (world s1) = sent (world s) \<and> obs (world s1) = obs (world s)"
proof -
  let ?s0 = "s\<lparr>mem := (mem s)(xb := u8_of_int c)\<rparr>" and ?x = "x\<lparr>trychar := 0, use_src := crc\<rparr>"
  have x: "(if trychar x = TRY_CRC then x\<lparr>use_src := True\<rparr> else x)\<lparr>trychar := 0\<rparr> = ?x"
    using assms(4) by (cases x) (auto simp: ready_def u8_of_int_def split: if_splits)
  have len: "int n + (if use_src ?x then 1 else 0) + 3 = int (length body)"
    by (simp add: assms(3) body_length_def)
  have s0: "ok ?s0" "stream ?s0 = map Byte body @ r"
    using assms(1,2) ok_mem stream_mem by simp_all
  from read_buf_full [OF s0(1) ticks(4) _ refl s0(2), of "xb + 1"] obtain s1 where
    rd: "port_read_buf io (port_ticks io 10000) (xb + 1) (int (length body)) ?s0 = Some (int (length body), s1)"
    and s1: "stream s1 = r" "mem s1 = mem_write (mem ?s0) (xb + 1) body"
    "sent (world s1) = sent (world s)" "obs (world s1) = obs (world s)" by auto
  have "ok s1" using read_buf_safe [OF s0(1) _ _ rd] by simp
  moreover have "xmodem_packet io xb dz cb (int n) c x s = packet_answer io xb dz cb (int n) ?x s1"
    using rd unfolding xmodem_packet_def Let_def x len by simp
  ultimately show ?thesis using s1 by auto
qed

text \<open>The packet read and its bytes in the buffer.\<close>

lemma mem_body:
  assumes "length body = body_length crc n"
  shows "mem_write m (xb + 1) body (xb + 1) = body ! 0"
    and "j + 2 \<le> length body \<Longrightarrow> mem_read (mem_write m (xb + 1) body) (xb + 3) j = take j (drop 2 body)"
  using assms by (auto simp: mem_write_def body_length_def intro!: nth_equalityI)

lemma take_packet_line:
  assumes "ok s" "dz < 2147483648" "0 \<le> rlen x" "rlen x \<le> max 0 dz"
    and data: "\<And>j. j \<le> length d \<Longrightarrow> mem_read (mem s) (xb + 3) j = take j d"
  shows "\<exists>x' s'. take_packet xb dz cb (int (length d)) x s = (x', s') \<and> ok s' \<and> mem s' = mem s
    \<and> stream s' = stream s \<and> sent (world s') = sent (world s)
    \<and> x' = x\<lparr>packetno := packetno x + 1, retrans := MAXRETRANS + 1, cb_arg := cb_arg x',
        rlen := deliver_end dz (rlen x) [d]\<rparr>
    \<and> (cb_arg x', obs (world s')) = fold eff (deliver dz (rlen x) [d]) (cb_arg x, obs (world s))"
proof -
  define count where "count = min (dz - rlen x) (int (length d))"
  have td: "take_packet xb dz cb (int (length d)) x s =
      (let (x, s) = (if 0 < count then
          (let (a, s) = cb (xb + 3) (u32_of_int (rlen x)) (u32_of_int count) (cb_arg x) s
           in (x\<lparr>cb_arg := a, rlen := rlen x + count\<rparr>, s)) else (x, s))
       in (x\<lparr>packetno := packetno x + 1, retrans := MAXRETRANS + 1\<rparr>, s))"
    by (simp add: take_packet_def count_def Let_def min_def)
  have ds: "deliver dz (rlen x) [d] = (if 0 < count then [(u32_of_int (rlen x), take (nat count) d)] else [])"
    "deliver_end dz (rlen x) [d] = rlen x + max 0 count"
    by (simp_all only: count_def deliver.simps deliver_end.simps Let_def)
  show ?thesis
  proof (cases "0 < count")
    case False
    with \<open>ok s\<close> show ?thesis
      by (simp add: td ds del: deliver.simps deliver_end.simps)
  next
    case True
    obtain a s1 where cbr: "cb (xb + 3) (u32_of_int (rlen x)) (u32_of_int count) (cb_arg x) s = (a, s1)"
      by force
    have "0 \<le> count" "count < 4294967296" "nat count \<le> length d"
      using True assms(2,3) by (auto simp: count_def)
    then have n: "unat (u32_of_int count) = nat count" "mem_read (mem s) (xb + 3) (nat count) = take (nat count) d"
      by (auto intro!: unat_u32_of_int data)
    from cb_line [OF \<open>ok s\<close> cbr] n True show ?thesis
      by (simp add: td ds cbr [simplified] del: deliver.simps deliver_end.simps)
  qed
qed

text \<open>The rounds of a session.\<close>

lemma round_packet:
  assumes "ok s" "stream s = replicate k Silence @ map Byte (packet crc b d) @ r" "k < 16"
    and "ready crc x" and len: "length d \<in> {128, 1024}"
  shows "\<exists>s1. xmodem_round io xb dz cb x s = packet_answer io xb dz cb (int (length d)) (x\<lparr>trychar := 0, use_src := crc\<rparr>) s1
    \<and> ok s1 \<and> stream s1 = r \<and> sent (world s1) = sent (world s) @ asks (trychar x) (Suc k)
    \<and> obs (world s1) = obs (world s) \<and> mem s1 (xb + 1) = b
    \<and> (\<forall>j \<le> length d. mem_read (mem s1) (xb + 3) j = take j d)
    \<and> packet_valid xb (int (length d)) (packetno x) crc (mem s1) = (b = packetno x \<or> uint b = uint (packetno x) - 1)"
proof -
  have hd: "header_byte (length d) \<in> {1, 2}" "header_size (header_byte (length d)) = length d"
    using len by (auto simp: header_byte_def header_size_def)
  have st: "stream s = replicate k Silence @ Byte (header_byte (length d)) # map Byte (packet_body crc b d) @ r"
    using assms(2) by (simp add: packet_def)
  from round_header [OF assms(1) st assms(3) hd(1), of xb dz x] obtain s0 where
    rd: "xmodem_round io xb dz cb x s = xmodem_packet io xb dz cb (int (length d))
      (uint (header_byte (length d))) x s0" and s0: "ok s0" "stream s0 = map Byte (packet_body crc b d) @ r"
    "kept sent obs (asks (trychar x) (Suc k)) s s0" unfolding hd(2) by blast
  note bl = length_packet_body [of crc b d]
  from packet_full [OF s0(1,2) bl assms(4), of xb dz "uint (header_byte (length d))"] obtain s1 where
    pk: "xmodem_round io xb dz cb x s = packet_answer io xb dz cb (int (length d)) (x\<lparr>trychar := 0, use_src := crc\<rparr>) s1"
    and s1: "ok s1" "stream s1 = r" "sent (world s1) = sent (world s0)" "obs (world s1) = obs (world s0)"
    and m: "mem s1 = mem_write ((mem s0)(xb := u8_of_int (uint (header_byte (length d))))) (xb + 1) (packet_body crc b d)"
    unfolding rd by blast
  have m1: "mem s1 (xb + 1) = b"
    unfolding m mem_body(1) [OF bl] by (simp add: packet_body_def)
  have md: "mem_read (mem s1) (xb + 3) j = take j d" if "j \<le> length d" for j
    unfolding m using that mem_body(2) [OF bl, of j]
    by (simp add: bl body_length_def) (simp add: packet_body_def)
  have pv: "packet_valid xb (int (length d)) (packetno x) crc (mem s1) = (b = packetno x \<or> uint b = uint (packetno x) - 1)"
    unfolding m packet_valid_body [OF bl] body_valid_packet by (rule refl)
  show ?thesis
    by (intro exI [of _ s1] conjI pk s1(1,2) m1 pv) (use s0(3) s1 md in \<open>auto simp: kept_def\<close>)
qed

lemma round_data:
  assumes "ok s" "stream s = replicate k Silence @ map Byte (packet crc (packetno x) d) @ r" "k < 16"
    and "ready crc x" "length d \<in> {128, 1024}"
    and "dz < 2147483648" "0 \<le> rlen x" "rlen x \<le> max 0 dz"
  shows "\<exists>x' s'. xmodem_round io xb dz cb x s = Some (Inr (x', s')) \<and> ok s' \<and> stream s' = r
    \<and> sent (world s') = sent (world s) @ asks (trychar x) (Suc k) @ [0x06]
    \<and> trychar x' = 0 \<and> use_src x' = crc \<and> packetno x' = packetno x + 1 \<and> retrans x' = MAXRETRANS
    \<and> rlen x' = deliver_end dz (rlen x) [d]
    \<and> (cb_arg x', obs (world s')) = fold eff (deliver dz (rlen x) [d]) (cb_arg x, obs (world s))"
proof -
  let ?x = "x\<lparr>trychar := 0, use_src := crc\<rparr>"
  from round_packet [OF assms(1-5), of xb dz] obtain s1 where
    rd: "xmodem_round io xb dz cb x s = packet_answer io xb dz cb (int (length d)) ?x s1"
    and s1: "ok s1" "stream s1 = r" "sent (world s1) = sent (world s) @ asks (trychar x) (Suc k)"
      "obs (world s1) = obs (world s)" "mem s1 (xb + 1) = packetno x"
    and md: "\<And>j. j \<le> length d \<Longrightarrow> mem_read (mem s1) (xb + 3) j = take j d"
    and pv: "packet_valid xb (int (length d)) (packetno x) crc (mem s1)" by auto
  from take_packet_line [OF s1(1) assms(6), of ?x d xb] assms(7,8) md obtain x' s' where
    tp: "take_packet xb dz cb (int (length d)) ?x s1 = (x', s')" and s': "ok s'" "mem s' = mem s1"
      "stream s' = r" "sent (world s') = sent (world s1)"
    and x': "x' = ?x\<lparr>packetno := packetno x + 1, retrans := MAXRETRANS + 1, cb_arg := cb_arg x',
        rlen := deliver_end dz (rlen x) [d]\<rparr>"
    and eff: "(cb_arg x', obs (world s')) = fold eff (deliver dz (rlen x) [d]) (cb_arg x, obs (world s1))"
    using s1(2) by (auto simp del: deliver.simps deliver_end.simps)
  have f: "trychar x' = 0" "use_src x' = crc" "packetno x' = packetno x + 1"
    "retrans x' = MAXRETRANS + 1" "rlen x' = deliver_end dz (rlen x) [d]"
    by (subst x', simp)+
  have "packet_check io xb dz cb (int (length d)) ?x s1
      = Some (0, x'\<lparr>retrans := retrans x' - 1\<rparr>, outbyte io ACK s')"
    using pv s1(5) tp f(4) by (simp add: packet_check_def)
  then have "xmodem_round io xb dz cb x s = Some (Inr (x'\<lparr>retrans := retrans x' - 1\<rparr>, outbyte io ACK s'))"
    by (simp add: rd packet_answer_def)
  moreover have "kept sent obs [0x06] s' (outbyte io ACK s')"
    using outbyte_line(2) [OF s'(1), of ACK] by (simp add: u8_of_int_def)
  ultimately show ?thesis
    using s' s1 eff f by (auto simp: kept_def simp del: deliver.simps deliver_end.simps)
qed

lemma round_repeat:
  assumes "ok s" "stream s = replicate k Silence @ map Byte (packet crc (packetno x - 1) d) @ r" "k < 16"
    and "ready crc x" "length d \<in> {128, 1024}" and nz: "packetno x \<noteq> 0" and rt: "1 < retrans x"
  shows "\<exists>s'. xmodem_round io xb dz cb x s
      = Some (Inr (x\<lparr>trychar := 0, use_src := crc, retrans := retrans x - 1\<rparr>, s'))
    \<and> ok s' \<and> stream s' = r \<and> obs (world s') = obs (world s)
    \<and> sent (world s') = sent (world s) @ asks (trychar x) (Suc k) @ [0x06]"
proof -
  let ?x = "x\<lparr>trychar := 0, use_src := crc\<rparr>"
  from round_packet [OF assms(1-5), of xb dz] obtain s1 where
    rd: "xmodem_round io xb dz cb x s = packet_answer io xb dz cb (int (length d)) ?x s1"
    and s1: "ok s1" "stream s1 = r" "sent (world s1) = sent (world s) @ asks (trychar x) (Suc k)"
      "obs (world s1) = obs (world s)" "mem s1 (xb + 1) = packetno x - 1"
    and pv: "packet_valid xb (int (length d)) (packetno x) crc (mem s1)
        = (packetno x - 1 = packetno x \<or> uint (packetno x - 1) = uint (packetno x) - 1)" by auto
  have "uint (packetno x - 1) = uint (packetno x) - 1"
    using nz by (rule uint_pred_u8)
  then have "packet_check io xb dz cb (int (length d)) ?x s1
      = Some (0, ?x\<lparr>retrans := retrans x - 1\<rparr>, outbyte io ACK s1)"
    using pv s1(5) rt by (simp add: packet_check_def)
  then have "xmodem_round io xb dz cb x s = Some (Inr (?x\<lparr>retrans := retrans x - 1\<rparr>, outbyte io ACK s1))"
    by (simp add: rd packet_answer_def)
  moreover have "kept sent obs [0x06] s1 (outbyte io ACK s1)"
    using outbyte_line(2) [OF s1(1), of ACK] by (simp add: u8_of_int_def)
  ultimately show ?thesis using s1 by (auto simp: kept_def)
qed

lemma round_damaged:
  assumes "ok s" "stream s = replicate k Silence @ map Byte (c # body) @ Silence # r" "k < 16"
    and "ready crc x" "c \<in> {1, 2}" and len: "length body = body_length crc (header_size c)"
    and bad: "\<not> body_valid crc (header_size c) (packetno x) body"
  shows "\<exists>s'. xmodem_round io xb dz cb x s = Some (Inr (x\<lparr>trychar := 0, use_src := crc\<rparr>, s'))
    \<and> ok s' \<and> stream s' = r \<and> obs (world s') = obs (world s)
    \<and> sent (world s') = sent (world s) @ asks (trychar x) (Suc k) @ [0x15]"
proof -
  let ?x = "x\<lparr>trychar := 0, use_src := crc\<rparr>"
  from assms(2) have st: "stream s = replicate k Silence @ Byte c # map Byte body @ Silence # r" by simp
  from round_header [OF assms(1) st assms(3,5), of xb dz x] obtain s0 where
    rd: "xmodem_round io xb dz cb x s = xmodem_packet io xb dz cb (int (header_size c)) (uint c) x s0"
    and s0: "ok s0" "stream s0 = map Byte body @ Silence # r"
    "kept sent obs (asks (trychar x) (Suc k)) s s0" by blast
  from packet_full [OF s0(1,2) len assms(4), of xb dz "uint c"] obtain s1 where
    pk: "xmodem_round io xb dz cb x s = packet_answer io xb dz cb (int (header_size c)) ?x s1"
    and s1: "ok s1" "stream s1 = map Byte [] @ Silence # r" "sent (world s1) = sent (world s0)"
      "obs (world s1) = obs (world s0)"
    and m: "mem s1 = mem_write ((mem s0)(xb := u8_of_int (uint c))) (xb + 1) body"
    unfolding rd by (simp only: list.map append_Nil) blast
  have "\<not> packet_valid xb (int (header_size c)) (packetno x) crc (mem s1)"
    using bad by (simp only: m packet_valid_body [OF len] not_False_eq_True)
  then have "packet_check io xb dz cb (int (header_size c)) ?x s1 = Some (1, ?x, s1)"
    by (simp add: packet_check_def)
  moreover from flush_line [OF s1(1,2)] obtain s2 where "flushinput io s1 = Some s2"
    and s2: "ok s2" "stream s2 = r" "kept sent obs [] s1 s2" by (auto simp: quiet_def)
  ultimately have "xmodem_round io xb dz cb x s = Some (Inr (?x, outbyte io NAK s2))"
    by (simp add: pk packet_answer_def)
  moreover have "kept sent obs [0x15] s2 (outbyte io NAK s2)"
    using outbyte_line(2) [OF s2(1), of NAK] by (simp add: u8_of_int_def)
  ultimately show ?thesis using s0 s1 s2 by (auto simp: kept_def)
qed

lemma round_cut:
  assumes "ok s" "stream s = replicate k Silence @ map Byte (c # body) @ Silence # Silence # r" "k < 16"
    and "ready crc x" "c \<in> {1, 2}" and len: "length body < body_length crc (header_size c)"
  shows "\<exists>s'. xmodem_round io xb dz cb x s = Some (Inr (x\<lparr>trychar := 0, use_src := crc\<rparr>, s'))
    \<and> ok s' \<and> stream s' = r \<and> obs (world s') = obs (world s)
    \<and> sent (world s') = sent (world s) @ asks (trychar x) (Suc k) @ [0x15]"
proof -
  let ?x = "x\<lparr>trychar := 0, use_src := crc\<rparr>"
  from assms(2) have st: "stream s = replicate k Silence @ Byte c # map Byte body @ Silence # Silence # r"
    by simp
  from round_header [OF assms(1) st assms(3,5), of xb dz x] obtain s0 where
    rd: "xmodem_round io xb dz cb x s = xmodem_packet io xb dz cb (int (header_size c)) (uint c) x s0"
    and s0: "ok s0" "stream s0 = map Byte body @ Silence # Silence # r"
    "kept sent obs (asks (trychar x) (Suc k)) s s0" by blast
  let ?s0 = "s0\<lparr>mem := (mem s0)(xb := u8_of_int (uint c))\<rparr>"
  let ?n = "int (body_length crc (header_size c))"
  have x: "(if trychar x = TRY_CRC then x\<lparr>use_src := True\<rparr> else x)\<lparr>trychar := 0\<rparr> = ?x"
    using assms(4) by (cases x) (auto simp: ready_def u8_of_int_def split: if_splits)
  have n: "int (header_size c) + (if use_src ?x then 1 else 0) + 3 = ?n"
    by (simp add: body_length_def)
  have s00: "ok ?s0" "stream ?s0 = map Byte body @ Silence # Silence # r"
    using s0(1,2) ok_mem stream_mem by simp_all
  have "quiet (Silence # Silence # r)" "int (length body) < ?n" "xb + 1 \<noteq> 0"
    using len by (auto simp: quiet_def)
  from read_buf_short [OF s00(1) ticks(4) this(3,2,1) s00(2)] obtain s1 where
    rb: "port_read_buf io (port_ticks io 10000) (xb + 1) ?n ?s0 = Some (int (length body), s1)"
    and s1: "stream s1 = map Byte [] @ Silence # r" "sent (world s1) = sent (world s0)"
      "obs (world s1) = obs (world s0)" by auto
  have ok1: "ok s1" using read_buf_safe [OF s00(1) _ _ rb] by simp
  let ?s1 = "print (short_packet_msg ?n (int (length body))) s1"
  have "ok ?s1" "stream ?s1 = map Byte [] @ Silence # r"
    using ok1 s1(1) ok_print stream_print by simp_all
  from flush_line [OF this] obtain s2 where fl: "flushinput io ?s1 = Some s2"
    and s2: "ok s2" "stream s2 = r" "kept sent obs [] ?s1 s2" by (auto simp: quiet_def)
  have "xmodem_packet io xb dz cb (int (header_size c)) (uint c) x s0 = Some (Inr (?x, outbyte io NAK s2))"
    using rb fl len unfolding xmodem_packet_def Let_def x n by simp
  moreover have "kept sent obs [0x15] s2 (outbyte io NAK s2)"
    using outbyte_line(2) [OF s2(1), of NAK] by (simp add: u8_of_int_def)
  ultimately show ?thesis using rd s0 s1 s2 by (auto simp: kept_def)
qed

lemma round_end:
  assumes "ok s" "stream s = replicate k Silence @ Byte 4 # q" "k < 16" "quiet q"
  shows "\<exists>s'. xmodem_round io xb dz cb x s = Some (Inl (rlen x, x, s')) \<and> ok s' \<and> stream s' = tl q
    \<and> obs (world s') = obs (world s)
    \<and> sent (world s') = sent (world s) @ asks (trychar x) (Suc k) @ [0x06]"
proof -
  have "\<exists>s'. get_first_byte io s = Some ((-4, 4), s') \<and> ok s' \<and> stream s' = tl q
      \<and> kept sent obs [0x06] s s'" if "ok s" "stream s = Byte 4 # q" for s
    using first_eot [OF that(1), of "[]" q] that(2) assms(4) by simp
  from sync_first [OF assms(1-3) _ this, of "trychar x"] obtain s' where
    "sync_loop io (trychar x) 16 (0, 0) s = Some ((-4, 4), s')" "ok s'" "stream s' = tl q"
    "kept sent obs (asks (trychar x) (Suc k) @ [0x06]) s s'" by (simp only: neg_equal_0_iff_equal zero_neq_numeral numeral_neq_zero) blast
  then show ?thesis
    by (simp add: xmodem_round_def kept_def)
qed

text \<open>Sixteen pauses under \<open>'C'\<close>: the receiver changes to checksum mode.\<close>

lemma round_switch:
  assumes "ok s" "stream s = replicate 16 Silence @ r" "trychar x = TRY_CRC"
  shows "\<exists>s'. xmodem_round io xb dz cb x s = Some (Inr (x\<lparr>trychar := 0x15\<rparr>, s')) \<and> ok s' \<and> stream s' = r
    \<and> obs (world s') = obs (world s) \<and> sent (world s') = sent (world s) @ replicate 16 0x43"
proof -
  note sp = sync_pauses [OF assms(1,2), where tc = "trychar x" and n = 0 and bc = "(0, 0)"]
  obtain s1 where sy: "sync_loop io (trychar x) (16 + 0) (0, 0) s
      = sync_loop io (trychar x) 0 (if (16 :: nat) = 0 then (0, 0) else (0, -1)) s1"
    and s1: "ok s1" "stream s1 = r" "kept sent obs (asks (trychar x) 16) s s1"
    using sp by (elim exE conjE) (rule that)
  have "sync_loop io (trychar x) 16 (0, 0) s = Some ((0, -1), s1)"
    using sy by (simp del: sync_loop.simps(2))
  then have "xmodem_round io xb dz cb x s = Some (Inr (x\<lparr>trychar := 0x15\<rparr>, s1))"
    using assms(3) by (simp add: xmodem_round_def u8_of_int_def)
  moreover have "sent (world s1) = sent (world s) @ replicate 16 0x43"
    using s1(3) assms(3) by (simp only: kept_def asks_def) simp
  ultimately show ?thesis using s1 by (auto simp only: kept_def)
qed

lemma loop_Inr: "xmodem_round io xb dz cb x s = Some (Inr (x', s')) \<Longrightarrow>
    xmodem_loop io xb dz cb (x, s) = xmodem_loop io xb dz cb (x', s')"
  unfolding xmodem_loop_def by (rule forever_Inr) simp

lemma loop_Inl: "xmodem_round io xb dz cb x s = Some (Inl r) \<Longrightarrow>
    xmodem_loop io xb dz cb (x, s) = Some r"
  unfolding xmodem_loop_def by (rule forever_Inl) simp

section \<open>A whole session\<close>

text \<open>The rounds that deliver nothing.\<close>

lemma undelivered:
  assumes "xmodem_round io xb dz cb x s = Some (Inr (x\<lparr>trychar := 0, use_src := crc, retrans := r\<rparr>, s1))" "ok s1"
    and "stream s1 = session_line crc (packetno x) ts @ q" "obs (world s1) = obs (world s)"
    and "sent (world s1) = sent (world s) @ asks (trychar x) (Suc k) @ [a]"
    and "session_ok crc (packetno x) r ts" "blocks (t # ts) = blocks ts" "answers (t # ts) = a # answers ts"
  shows "\<exists>x1 s1 ds a. xmodem_round io xb dz cb x s = Some (Inr (x1, s1)) \<and> ok s1
    \<and> stream s1 = session_line crc (packetno x1) ts @ q \<and> sent (world s1) = sent (world s) @ asks (trychar x) (Suc k) @ [a]
    \<and> trychar x1 = 0 \<and> use_src x1 = crc \<and> session_ok crc (packetno x1) (retrans x1) ts
    \<and> rlen x1 = deliver_end dz (rlen x) ds
    \<and> (cb_arg x1, obs (world s1)) = fold eff (deliver dz (rlen x) ds) (cb_arg x, obs (world s))
    \<and> blocks (t # ts) = ds @ blocks ts \<and> answers (t # ts) = a # answers ts"
  by (intro exI [of _ "x\<lparr>trychar := 0, use_src := crc, retrans := r\<rparr>"] exI [of _ s1] exI [of _ "[]"] exI [of _ a])
    (use assms in \<open>simp del: blocks.simps answers.simps\<close>)

text \<open>
  One transmission takes one round: the packet is answered with \<open>a\<close>, and the blocks \<open>ds\<close> (none, or the
  one transmitted) are delivered.
\<close>

lemma transmission_round:
  assumes s: "ok s" and x: "ready crc x" and k: "k < 16"
    and st: "stream s = replicate k Silence @ session_line crc (packetno x) (t # ts) @ q"
    and so: "session_ok crc (packetno x) (retrans x) (t # ts)"
    and rl: "0 \<le> rlen x" "rlen x \<le> max 0 dz" "dz < 2147483648"
  shows "\<exists>x1 s1 ds a. xmodem_round io xb dz cb x s = Some (Inr (x1, s1)) \<and> ok s1
    \<and> stream s1 = session_line crc (packetno x1) ts @ q \<and> sent (world s1) = sent (world s) @ asks (trychar x) (Suc k) @ [a]
    \<and> trychar x1 = 0 \<and> use_src x1 = crc \<and> session_ok crc (packetno x1) (retrans x1) ts
    \<and> rlen x1 = deliver_end dz (rlen x) ds
    \<and> (cb_arg x1, obs (world s1)) = fold eff (deliver dz (rlen x) ds) (cb_arg x, obs (world s))
    \<and> blocks (t # ts) = ds @ blocks ts \<and> answers (t # ts) = a # answers ts"
proof (cases t)
  case (Data d)
  with st so have "stream s = replicate k Silence @ map Byte (packet crc (packetno x) d)
      @ session_line crc (packetno x + 1) ts @ q" "length d \<in> {128, 1024}"
    "session_ok crc (packetno x + 1) MAXRETRANS ts" by simp_all
  with round_data [OF s this(1) k x this(2) rl(3,1,2), of xb] obtain x1 s1 where
    "xmodem_round io xb dz cb x s = Some (Inr (x1, s1))" "ok s1"
    "stream s1 = session_line crc (packetno x + 1) ts @ q" "trychar x1 = 0" "use_src x1 = crc"
    "packetno x1 = packetno x + 1" "retrans x1 = MAXRETRANS"
    "sent (world s1) = sent (world s) @ asks (trychar x) (Suc k) @ [0x06]"
    "rlen x1 = deliver_end dz (rlen x) [d]" "session_ok crc (packetno x + 1) MAXRETRANS ts"
    "(cb_arg x1, obs (world s1)) = fold eff (deliver dz (rlen x) [d]) (cb_arg x, obs (world s))" by blast
  then show ?thesis
    by (intro exI [of _ x1] exI [of _ s1] exI [of _ "[d]"] exI [of _ "0x06"]) (simp add: Data)
next
  case (Repeat d)
  with st so have "stream s = replicate k Silence @ map Byte (packet crc (packetno x - 1) d)
      @ session_line crc (packetno x) ts @ q" "length d \<in> {128, 1024}" "packetno x \<noteq> 0" "1 < retrans x"
    "session_ok crc (packetno x) (retrans x - 1) ts" by simp_all
  with round_repeat [OF s this(1) k x this(2-4), of xb dz]
  obtain s1 where "xmodem_round io xb dz cb x s
      = Some (Inr (x\<lparr>trychar := 0, use_src := crc, retrans := retrans x - 1\<rparr>, s1))" "ok s1"
    "stream s1 = session_line crc (packetno x) ts @ q" "obs (world s1) = obs (world s)"
    "sent (world s1) = sent (world s) @ asks (trychar x) (Suc k) @ [0x06]"
    "session_ok crc (packetno x) (retrans x - 1) ts" by blast
  then show ?thesis by (rule undelivered) (simp_all add: Repeat)
next
  case (Damaged c body)
  with st so have "stream s = replicate k Silence @ map Byte (c # body) @ Silence # session_line crc (packetno x) ts @ q"
    "c \<in> {1, 2}" "length body = body_length crc (header_size c)"
    "\<not> body_valid crc (header_size c) (packetno x) body" "session_ok crc (packetno x) (retrans x) ts" by simp_all
  with round_damaged [OF s this(1) k x this(2-4), of xb dz]
  obtain s1 where "xmodem_round io xb dz cb x s
      = Some (Inr (x\<lparr>trychar := 0, use_src := crc, retrans := retrans x\<rparr>, s1))" "ok s1"
    "stream s1 = session_line crc (packetno x) ts @ q" "obs (world s1) = obs (world s)"
    "sent (world s1) = sent (world s) @ asks (trychar x) (Suc k) @ [0x15]"
    "session_ok crc (packetno x) (retrans x) ts" by auto
  then show ?thesis by (rule undelivered) (simp_all add: Damaged)
next
  case (Cut c body)
  with st so have "stream s = replicate k Silence @ map Byte (c # body) @ Silence # Silence
      # session_line crc (packetno x) ts @ q" "c \<in> {1, 2}" "length body < body_length crc (header_size c)"
    "session_ok crc (packetno x) (retrans x) ts" by simp_all
  with round_cut [OF s this(1) k x this(2,3), of xb dz]
  obtain s1 where "xmodem_round io xb dz cb x s
      = Some (Inr (x\<lparr>trychar := 0, use_src := crc, retrans := retrans x\<rparr>, s1))" "ok s1"
    "stream s1 = session_line crc (packetno x) ts @ q" "obs (world s1) = obs (world s)"
    "sent (world s1) = sent (world s) @ asks (trychar x) (Suc k) @ [0x15]"
    "session_ok crc (packetno x) (retrans x) ts" by auto
  then show ?thesis by (rule undelivered) (simp_all add: Cut)
qed

lemma session_loop:
  assumes dz: "dz < 2147483648" and q: "quiet q"
  shows "ok s \<Longrightarrow> ready crc x \<Longrightarrow> k < 16 \<Longrightarrow> stream s = replicate k Silence @ session_line crc (packetno x) ts @ q \<Longrightarrow>
    session_ok crc (packetno x) (retrans x) ts \<Longrightarrow> 0 \<le> rlen x \<Longrightarrow> rlen x \<le> max 0 dz \<Longrightarrow>
    \<exists>x' s'. xmodem_loop io xb dz cb (x, s) = Some (deliver_end dz (rlen x) (blocks ts), x', s')
      \<and> ok s' \<and> stream s' = tl q
      \<and> sent (world s') = sent (world s) @ asks (trychar x) (Suc k) @ answers ts
      \<and> (cb_arg x', obs (world s')) = fold eff (deliver dz (rlen x) (blocks ts)) (cb_arg x, obs (world s))"
proof (induction ts arbitrary: s x k)
  case Nil
  from round_end [OF Nil.prems(1) _ Nil.prems(3) q, of xb dz x] Nil.prems(4) loop_Inl show ?case
    by fastforce
next
  case (Cons t ts)
  note IH = Cons.IH [of _ _ 0, simplified]
  from transmission_round [OF Cons.prems(1-7) dz, of xb] obtain x1 s1 ds a where
    rd: "xmodem_round io xb dz cb x s = Some (Inr (x1, s1))"
    and s1: "ok s1" "stream s1 = session_line crc (packetno x1) ts @ q"
      "sent (world s1) = sent (world s) @ asks (trychar x) (Suc k) @ [a]"
    and x1: "trychar x1 = 0" "use_src x1 = crc" "session_ok crc (packetno x1) (retrans x1) ts"
    and dl: "rlen x1 = deliver_end dz (rlen x) ds"
      "(cb_arg x1, obs (world s1)) = fold eff (deliver dz (rlen x) ds) (cb_arg x, obs (world s))"
    and t: "blocks (t # ts) = ds @ blocks ts" "answers (t # ts) = a # answers ts" by blast
  have rl: "0 \<le> rlen x1" "rlen x1 \<le> max 0 dz"
    using deliver_end_eq [OF Cons.prems(6,7), of ds] dl(1) Cons.prems(6) by auto
  have rdy: "ready crc x1" using x1 by (simp add: ready_def)
  from IH [OF s1(1) rdy s1(2) x1(3) rl] obtain x' s' where
    lp: "xmodem_loop io xb dz cb (x1, s1) = Some (deliver_end dz (rlen x1) (blocks ts), x', s')"
    and s': "ok s'" "stream s' = tl q" "sent (world s') = sent (world s1) @ answers ts"
    "(cb_arg x', obs (world s')) = fold eff (deliver dz (rlen x1) (blocks ts)) (cb_arg x1, obs (world s1))"
    by (auto simp: asks_def x1(1))
  have "deliver_end dz (rlen x) (blocks (t # ts)) = deliver_end dz (rlen x1) (blocks ts)"
    "deliver dz (rlen x) (blocks (t # ts)) = deliver dz (rlen x) ds @ deliver dz (rlen x1) (blocks ts)"
    by (simp_all only: t(1) dl(1) deliver_append deliver_end_append)
  with lp s' s1(3) t(2) dl(2) loop_Inr [OF rd] show ?case
    by (auto simp del: deliver.simps deliver_end.simps blocks.simps answers.simps)
qed

lemma xmodem_session:
  assumes "ok s" and dz: "dz < 2147483648" and q: "quiet q" and k: "k < 32" and crc: "crc \<longleftrightarrow> k < 16"
    and st: "stream s = replicate k Silence @ session_line crc 1 ts @ q" and so: "session_ok crc 1 MAXRETRANS ts"
  shows "\<exists>a' s'. xmodemReceive io xb dz cb a s
      = Some (min (max 0 dz) (int (length (concat (blocks ts)))), a', s')
    \<and> ok s' \<and> stream s' = tl q \<and> sent (world s') = sent (world s) @ requests k @ answers ts
    \<and> (a', obs (world s')) = fold eff (deliver dz 0 (blocks ts)) (a, obs (world s))"
proof -
  have fin: "deliver_end dz 0 ds = min (max 0 dz) (int (length (concat ds)))" for ds
    using deliver_end_eq [of 0 dz ds] by simp
  show ?thesis
  proof (cases "k < 16")
    case True
    with session_loop [OF dz q \<open>ok s\<close>, of crc "xm_init a" k ts xb] crc st so fin show ?thesis
      by (fastforce simp: xmodemReceive_def xm_init_def ready_def asks_def requests_def
          simp del: replicate.simps)
  next
    case False
    then have "replicate k Silence = replicate 16 Silence @ replicate (k - 16) Silence"
      by (simp flip: replicate_add)
    with st have "stream s = replicate 16 Silence @ replicate (k - 16) Silence @ session_line crc 1 ts @ q"
      by simp
    from round_switch [OF \<open>ok s\<close> this, of "xm_init a" xb dz] obtain s1 where
      rd: "xmodem_round io xb dz cb (xm_init a) s = Some (Inr ((xm_init a)\<lparr>trychar := 0x15\<rparr>, s1))"
      and s1: "ok s1" "stream s1 = replicate (k - 16) Silence @ session_line crc 1 ts @ q"
      "obs (world s1) = obs (world s)" "sent (world s1) = sent (world s) @ replicate 16 0x43"
      by (auto simp: xm_init_def)
    have rdy: "ready crc ((xm_init a)\<lparr>trychar := 0x15\<rparr>)"
      using False crc by (simp add: ready_def xm_init_def u8_of_int_def)
    have "k - 16 < 16" using k by simp
    from session_loop [OF dz q s1(1) rdy this, of ts xb] s1 so fin obtain x' s' where
      "xmodem_loop io xb dz cb ((xm_init a)\<lparr>trychar := 0x15\<rparr>, s1)
        = Some (min (max 0 dz) (int (length (concat (blocks ts)))), x', s')" "ok s'" "stream s' = tl q"
      "sent (world s') = sent (world s1) @ asks 0x15 (Suc (k - 16)) @ answers ts"
      "(cb_arg x', obs (world s')) = fold eff (deliver dz 0 (blocks ts)) (a, obs (world s))"
      by (auto simp: xm_init_def)
    with loop_Inr [OF rd] s1 False Suc_diff_le [of 16 k] show ?thesis
      by (auto simp: xmodemReceive_def requests_def asks_def simp del: replicate.simps)
  qed
qed

end

end
