(* ===== verification/Xmodem_Total.thy ===== *)
theory Xmodem_Total
  imports Xmodem_Line
begin

text \<open>
  The receiver always returns on a line that ends, whatever is on it: no header, no damage, no
  sequence of pauses keeps it running. Each round of its loop either consumes an item of the line
  or moves from asking with \<open>'C'\<close> to asking with NAK.
\<close>

lemma split_stream: "\<exists>bs q. xs = map Byte bs @ q \<and> quiet q"
proof (induction xs)
  case Nil
  then show ?case by (auto simp: quiet_def)
next
  case (Cons x xs)
  then obtain bs q where xs: "xs = map Byte bs @ q" "quiet q" by blast
  show ?case
  proof (cases x)
    case (Byte b)
    with xs show ?thesis by (intro exI [of _ "b # bs"] exI [of _ q]) simp
  next
    case Silence
    then show ?thesis by (intro exI [of _ "[]"] exI [of _ "x # xs"]) (simp add: quiet_def)
  qed
qed

context rx_line
begin

lemma inbyte_total:
  assumes "ok s" "finite_timeout (port_ticks io (ucast t))"
  shows "\<exists>c s'. inbyte io t s = Some (c, s') \<and> ok s' \<and> stream s' = tl (stream s)
    \<and> (0 \<le> c \<longrightarrow> stream s \<noteq> [])"
proof (cases "quiet (stream s)")
  case True
  from inbyte_quiet [OF assms(1) True assms(2)] show ?thesis by auto
next
  case False
  then obtain b r where "stream s = Byte b # r"
    unfolding quiet_def by (metis list.exhaust rx_item.exhaust)
  from inbyte_byte [OF assms(1) this assms(2)] this show ?thesis by auto
qed

lemma flush_total:
  assumes "ok s"
  shows "\<exists>s'. flushinput io s = Some s' \<and> ok s' \<and> length (stream s') \<le> length (stream s)"
proof -
  obtain bs q where "stream s = map Byte bs @ q" "quiet q" using split_stream by blast
  from flush_line [OF assms this] this(1) show ?thesis by auto
qed

lemma read_buf_total:
  assumes "ok s" "p \<noteq> 0" "finite_timeout t"
  shows "\<exists>n s'. port_read_buf io t p (int mx) s = Some (n, s') \<and> ok s'
    \<and> length (stream s') \<le> length (stream s)"
proof -
  obtain bs q where sp: "stream s = map Byte bs @ q" "quiet q" using split_stream by blast
  have ok': "ok s'" if "port_read_buf io t p (int mx) s = Some (n, s')" for n s'
    using read_buf_safe [OF assms(1,2) _ that] by simp
  show ?thesis
  proof (cases "length bs < mx")
    case True
    then have "int (length bs) < int mx" by simp
    from read_buf_short [OF assms(1,3,2) this sp(2,1)] ok' sp(1) show ?thesis by auto
  next
    case False
    then have "int mx = int (length (take mx bs))"
      "stream s = map Byte (take mx bs) @ map Byte (drop mx bs) @ q"
      using sp(1) by (simp_all flip: append_assoc map_append)
    from read_buf_full [OF assms(1,3,2) this] ok' sp(1) show ?thesis by fastforce
  qed
qed

lemma first_byte_total:
  assumes "ok s"
  shows "\<exists>b c s'. get_first_byte io s = Some ((b, c), s') \<and> ok s'
    \<and> length (stream s') \<le> length (stream s) \<and> (b \<noteq> 0 \<longrightarrow> length (stream s') < length (stream s))"
proof -
  from inbyte_total [OF assms, of 2000] obtain c s1 where rd: "inbyte io 2000 s = Some (c, s1)" "ok s1"
    "stream s1 = tl (stream s)" "0 \<le> c \<longrightarrow> stream s \<noteq> []" by auto
  have lt: "length (stream s1) < length (stream s)" if "0 \<le> c"
    using rd(3,4) that by (cases "stream s") auto
  have le: "length (stream s1) \<le> length (stream s)" using rd(3) by simp
  have out: "\<exists>s3. flushinput io s2 = Some s3 \<and> ok (outbyte io ACK s3)
      \<and> length (stream (outbyte io ACK s3)) \<le> length (stream s1)"
    if "ok s2" "length (stream s2) \<le> length (stream s1)" for s2
    using flush_total [OF that(1)] that(2) by fastforce
  consider "c = CAN" | "c = EOT" | "\<not> 0 \<le> c" | "0 \<le> c" "c \<noteq> CAN" "c \<noteq> EOT" by blast
  then show ?thesis
  proof cases
    case 1
    from inbyte_total [OF rd(2), of 1000] obtain c2 s2 where rd2: "inbyte io 1000 s1 = Some (c2, s2)"
      "ok s2" "length (stream s2) \<le> length (stream s1)" by auto
    from out [OF rd2(2,3)] obtain s3 where fl: "flushinput io s2 = Some s3" "ok (outbyte io ACK s3)"
      "length (stream (outbyte io ACK s3)) \<le> length (stream s1)" by blast
    have "length (stream s1) < length (stream s)" using lt 1 by simp
    with 1 rd(1) rd2 fl show ?thesis
      by (cases "c2 = CAN") (simp_all add: get_first_byte_def)
  next
    case 2
    from out [OF rd(2)] obtain s3 where "flushinput io s1 = Some s3" "ok (outbyte io ACK s3)"
      "length (stream (outbyte io ACK s3)) \<le> length (stream s1)" by blast
    moreover have "length (stream s1) < length (stream s)" using lt 2 by simp
    ultimately show ?thesis using 2 rd(1) by (simp add: get_first_byte_def)
  qed (use rd lt le in \<open>auto simp: get_first_byte_def\<close>)
qed

lemma sync_total:
  "ok s \<Longrightarrow> \<exists>b c s'. sync_loop io tc (Suc n) bc s = Some ((b, c), s') \<and> ok s'
    \<and> length (stream s') \<le> length (stream s) \<and> (b \<noteq> 0 \<longrightarrow> length (stream s') < length (stream s))"
proof (induction n arbitrary: s bc)
  case 0
  let ?s0 = "if tc \<noteq> 0 then outbyte io (uint tc) s else s"
  from ask_line [OF 0, of tc] first_byte_total [of ?s0] show ?case
    by (auto simp: Let_def)
next
  case (Suc n)
  let ?s0 = "if tc \<noteq> 0 then outbyte io (uint tc) s else s"
  have s0: "ok ?s0" "stream ?s0 = stream s" using ask_line [OF Suc.prems, of tc] by (simp_all add: Let_def)
  from first_byte_total [OF s0(1)] obtain b c s1 where fb: "get_first_byte io ?s0 = Some ((b, c), s1)"
    "ok s1" "length (stream s1) \<le> length (stream s)" "b \<noteq> 0 \<longrightarrow> length (stream s1) < length (stream s)"
    unfolding s0(2) by blast
  have unf: "sync_loop io tc (Suc (Suc n)) bc s =
      (if b \<noteq> 0 then Some ((b, c), s1) else sync_loop io tc (Suc n) (b, c) s1)"
    using fb(1) by (simp only: sync_loop.simps(2) Let_def) simp
  show ?case
  proof (cases "b = 0")
    case True
    from Suc.IH [OF fb(2), of "(b, c)"] fb(3) show ?thesis
      unfolding unf using True by fastforce
  next
    case False
    with fb unf show ?thesis by auto
  qed
qed

end

context xm_client
begin

lemma take_packet_total:
  assumes "ok s"
  shows "\<exists>x' s'. take_packet xb dz cb bufsz x s = (x', s') \<and> ok s' \<and> stream s' = stream s
    \<and> trychar x' = trychar x"
  using cb_line [OF assms] assms
  by (auto simp: take_packet_def Let_def split: prod.split)

lemma packet_check_total:
  assumes "ok s"
  shows "\<exists>r x' s'. packet_check io xb dz cb bufsz x s = Some (r, x', s') \<and> ok s'
    \<and> length (stream s') \<le> length (stream s) \<and> trychar x' = trychar x"
proof -
  obtain x1 s1 where y1: "(if mem s (xb + 1) = packetno x then take_packet xb dz cb bufsz x s
      else (x, s)) = (x1, s1)" by force
  have s1: "ok s1" "stream s1 = stream s" "trychar x1 = trychar x"
    using take_packet_total [OF assms, of xb dz bufsz x] y1 assms by (auto split: if_splits)
  from flush_total [OF s1(1)] obtain s2 where fl: "flushinput io s1 = Some s2" "ok s2"
    "length (stream s2) \<le> length (stream s1)" by blast
  have "ok (send_cancel io s2)" "stream (send_cancel io s2) = stream s2"
    using fl(2) by (simp_all add: send_cancel_def)
  then show ?thesis
    using fl s1 assms unfolding packet_check_def y1 by (auto simp: Let_def)
qed

lemma packet_answer_total:
  assumes "ok s"
  shows "\<exists>r. packet_answer io xb dz cb bufsz x s = Some r \<and> (case r of
      Inl (ret, x', s') \<Rightarrow> ok s' \<and> length (stream s') \<le> length (stream s)
    | Inr (x', s') \<Rightarrow> ok s' \<and> length (stream s') \<le> length (stream s) \<and> trychar x' = trychar x)"
proof -
  from packet_check_total [OF assms, of xb dz bufsz x] obtain r y s1 where
    pc: "packet_check io xb dz cb bufsz x s = Some (r, y, s1)" "ok s1"
      "length (stream s1) \<le> length (stream s)" "trychar y = trychar x" by blast
  from flush_total [OF pc(2)] obtain s2 where "flushinput io s1 = Some s2" "ok (outbyte io NAK s2)"
    "length (stream (outbyte io NAK s2)) \<le> length (stream s1)" by fastforce
  with pc show ?thesis by (auto simp: packet_answer_def)
qed

lemma xmodem_packet_total:
  assumes "ok s"
  shows "\<exists>r. xmodem_packet io xb dz cb (int n) c x s = Some r \<and> (case r of
      Inl (ret, x', s') \<Rightarrow> ok s' \<and> length (stream s') \<le> length (stream s)
    | Inr (x', s') \<Rightarrow> ok s' \<and> length (stream s') \<le> length (stream s) \<and> trychar x' = 0)"
proof -
  define x1 where "x1 = (if trychar x = TRY_CRC then x\<lparr>use_src := True\<rparr> else x)\<lparr>trychar := 0\<rparr>"
  define mx where "mx = n + (if use_src x1 then 1 else 0) + 3"
  have mx: "int n + (if use_src x1 then 1 else 0) + 3 = int mx" by (simp add: mx_def)
  let ?s0 = "s\<lparr>mem := (mem s)(xb := u8_of_int c)\<rparr>"
  have s0: "ok ?s0" "stream ?s0 = stream s" using assms ok_mem stream_mem by simp_all
  from read_buf_total [OF s0(1) _ ticks(4), of "xb + 1" mx] obtain nread s1 where
    rb: "port_read_buf io (port_ticks io 10000) (xb + 1) (int mx) ?s0 = Some (nread, s1)" "ok s1"
      "length (stream s1) \<le> length (stream s)" unfolding s0(2) by auto
  have tr: "trychar x1 = 0" by (simp add: x1_def)
  have unf: "xmodem_packet io xb dz cb (int n) c x s = (if nread < int mx then do {
             s \<leftarrow> flushinput io (print (short_packet_msg (int mx) nread) s1);
             Some (Inr (x1, outbyte io NAK s)) }
           else packet_answer io xb dz cb (int n) x1 s1)"
    using rb(1) unfolding xmodem_packet_def Let_def x1_def [symmetric] mx by simp
  show ?thesis
  proof (cases "nread < int mx")
    case True
    have "ok (print (short_packet_msg (int mx) nread) s1)" using rb(2) ok_print by blast
    from flush_total [OF this] True unf tr rb(3) stream_print show ?thesis by fastforce
  next
    case False
    from packet_answer_total [OF rb(2), of xb dz "int n" x1] obtain r where
      "packet_answer io xb dz cb (int n) x1 s1 = Some r" "case r of
          Inl (ret, x', s') \<Rightarrow> ok s' \<and> length (stream s') \<le> length (stream s1)
        | Inr (x', s') \<Rightarrow> ok s' \<and> length (stream s') \<le> length (stream s1) \<and> trychar x' = trychar x1"
      by blast
    with False unf tr rb(3) show ?thesis
      by (intro exI [of _ r]) (auto split: sum.splits)
  qed
qed

text \<open>The measure of the outer loop.\<close>

definition round_measure :: "'c xm \<times> 'w sys \<Rightarrow> nat" where
  "round_measure y = 2 * length (stream (snd y)) + (if trychar (fst y) = TRY_CRC then 1 else 0)"

lemma xmodem_round_total:
  assumes "ok s"
  shows "\<exists>r. xmodem_round io xb dz cb x s = Some r \<and> (case r of
      Inl (ret, x', s') \<Rightarrow> ok s' \<and> length (stream s') \<le> length (stream s)
    | Inr y \<Rightarrow> ok (snd y) \<and> length (stream (snd y)) \<le> length (stream s) \<and> round_measure y < round_measure (x, s))"
proof -
  from sync_total [OF assms, of "trychar x" 15 "(0, 0)"] obtain b c s1 where
    sy: "sync_loop io (trychar x) 16 (0, 0) s = Some ((b, c), s1)" "ok s1"
      "length (stream s1) \<le> length (stream s)" "b \<noteq> 0 \<longrightarrow> length (stream s1) < length (stream s)"
    by (auto simp del: sync_loop.simps)
  from flush_total [OF sy(2)] obtain s2 where fl: "flushinput io s1 = Some s2" "ok s2"
    "length (stream s2) \<le> length (stream s1)" by blast
  have cn: "ok (send_cancel io s2)" "stream (send_cancel io s2) = stream s2"
    using fl(2) by (simp_all add: send_cancel_def)
  have unf: "xmodem_round io xb dz cb x s = (if b = -4 then Some (Inl (rlen x, x, s1))
     else if b < 0 then Some (Inl (b, x, s1))
     else if b = 0 then
       (if trychar x = TRY_CRC then Some (Inr (x\<lparr>trychar := u8_of_int NAK\<rparr>, s1))
        else Some (Inl (-2, x, send_cancel io s2)))
     else xmodem_packet io xb dz cb b c x s1)"
    by (simp add: xmodem_round_def sy(1) fl(1) del: sync_loop.simps)
  show ?thesis
  proof (cases "b > 0")
    case True
    with xmodem_packet_total [OF sy(2), of xb dz "nat b" c x] unf sy(4) show ?thesis
      by (fastforce simp: round_measure_def split: sum.splits)
  next
    case False
    with unf sy(2,3) fl(3) cn show ?thesis by (auto simp: u8_of_int_def round_measure_def)
  qed
qed

lemma xmodemReceive_returns:
  assumes "ok s"
  shows "\<exists>r a' s'. xmodemReceive io xb dz cb a s = Some (r, a', s') \<and> ok s' \<and> length (stream s') \<le> length (stream s)"
proof -
  have "\<exists>z. xmodem_loop io xb dz cb (xm_init a, s) = Some z
      \<and> (case z of (r, x', s') \<Rightarrow> ok s' \<and> length (stream s') \<le> length (stream s))"
    unfolding xmodem_loop_def
  proof (rule forever_ends [where I = "\<lambda>y. ok (snd y) \<and> length (stream (snd y)) \<le> length (stream s)" and m = round_measure])
    fix y :: "'c xm \<times> 'w sys"
    assume y: "ok (snd y) \<and> length (stream (snd y)) \<le> length (stream s)"
    then obtain r where "xmodem_round io xb dz cb (fst y) (snd y) = Some r" "case r of
          Inl (ret, x', s') \<Rightarrow> ok s' \<and> length (stream s') \<le> length (stream (snd y))
        | Inr z \<Rightarrow> ok (snd z) \<and> length (stream (snd z)) \<le> length (stream (snd y))
            \<and> round_measure z < round_measure (fst y, snd y)"
      using xmodem_round_total [of "snd y" xb dz "fst y"] by blast
    with y show "\<exists>r. (case y of (x, s) \<Rightarrow> xmodem_round io xb dz cb x s) = Some r
        \<and> (case r of Inl z \<Rightarrow> case z of (r, x', s') \<Rightarrow> ok s' \<and> length (stream s') \<le> length (stream s)
           | Inr y' \<Rightarrow> (ok (snd y') \<and> length (stream (snd y')) \<le> length (stream s)) \<and> round_measure y' < round_measure y)"
      by (intro exI [of _ r]) (cases y, auto split: sum.splits)
  qed (use assms in simp)
  then show ?thesis by (force simp: xmodemReceive_def)
qed

end

end
