(* ===== verification/Xmodem_Ends.thy ===== *)
theory Xmodem_Ends
  imports Xmodem_Line
begin

text \<open>
  The ways a reception ends without an end of transmission: a line that stays silent, a sender that
  cancels, a sender that repeats the same block too often.
\<close>

context rx_line
begin

lemma send_cancel_line:
  assumes "ok s"
  shows "ok (send_cancel io s)" "stream (send_cancel io s) = stream s"
    "kept sent obs [0x18, 0x18, 0x18] s (send_cancel io s)"
proof -
  show "ok (send_cancel io s)" using assms by simp
  show "stream (send_cancel io s) = stream s" using assms by (simp add: send_cancel_def)
  have k: "kept sent obs [0x18] s (outbyte io CAN s)" if "ok s" for s
    using outbyte_line(2) [OF that, of CAN] by (simp add: u8_of_int_def)
  have "kept sent obs ([0x18] @ [0x18] @ [0x18]) s (send_cancel io s)"
    unfolding send_cancel_def
    by (rule kept_trans [OF k [OF assms] kept_trans [OF k k]]) (simp_all add: assms)
  then show "kept sent obs [0x18, 0x18, 0x18] s (send_cancel io s)" by simp
qed

lemma sync_silent:
  "ok s \<Longrightarrow> stream s = [] \<Longrightarrow>
    \<exists>s'. sync_loop io tc (Suc n) bc s = Some ((0, -1), s') \<and> ok s' \<and> stream s' = []
      \<and> kept sent obs (asks tc (Suc n)) s s'"
proof (induction n arbitrary: s bc)
  case 0
  let ?s0 = "if tc \<noteq> 0 then outbyte io (uint tc) s else s"
  have s0: "ok ?s0" "stream ?s0 = []" "kept sent obs (asks tc 1) s ?s0"
    using ask_line [OF 0(1), of tc] 0(2) by (simp_all only: Let_def)
  from first_quiet [OF s0(1)] s0(2) obtain s' where "get_first_byte io ?s0 = Some ((0, -1), s')"
    "ok s'" "stream s' = []" "kept sent obs [] ?s0 s'" by (auto simp: quiet_def)
  with kept_trans [OF s0(3) this(4)] show ?case by (simp add: Let_def)
next
  case (Suc n)
  let ?s0 = "if tc \<noteq> 0 then outbyte io (uint tc) s else s"
  have s0: "ok ?s0" "stream ?s0 = []" "kept sent obs (asks tc 1) s ?s0"
    using ask_line [OF Suc.prems(1), of tc] Suc.prems(2) by (simp_all only: Let_def)
  from first_quiet [OF s0(1)] s0(2) obtain s1 where fb: "get_first_byte io ?s0 = Some ((0, -1), s1)"
    "ok s1" "stream s1 = []" "kept sent obs [] ?s0 s1" by (auto simp: quiet_def)
  from Suc.IH [OF fb(2,3), of "(0, -1)"] obtain s' where
    s': "sync_loop io tc (Suc n) (0, -1) s1 = Some ((0, -1), s')" "ok s'" "stream s' = []"
    "kept sent obs (asks tc (Suc n)) s1 s'" by blast
  have "kept sent obs (asks tc (Suc (Suc n))) s s'"
    using kept_trans [OF kept_trans [OF s0(3) fb(4)] s'(4)] by (simp add: asks_def split: if_splits)
  moreover have "sync_loop io tc (Suc (Suc n)) bc s = Some ((0, -1), s')"
    using fb(1) s'(1) by (simp only: sync_loop.simps(2) [of io tc "Suc n"] Let_def) simp
  ultimately show ?case using s' by blast
qed

lemma first_cancel:
  assumes "ok s" "stream s = Byte 0x18 # Byte 0x18 # q" "quiet q"
  shows "\<exists>s'. get_first_byte io s = Some ((-1, 0x18), s') \<and> ok s' \<and> stream s' = tl q
    \<and> kept sent obs [0x06] s s'"
proof -
  obtain s1 where rd: "inbyte io 2000 s = Some (0x18, s1)" "ok s1" "stream s1 = Byte 0x18 # q"
    "kept sent obs [] s s1"
    using inbyte_byte [OF assms(1,2), of 2000] by auto
  obtain s2 where rd2: "inbyte io 1000 s1 = Some (0x18, s2)" "ok s2" "stream s2 = map Byte [] @ q"
    "kept sent obs [] s1 s2"
    using inbyte_byte [OF rd(2,3), of 1000] by auto
  from flush_line [OF rd2(2,3) assms(3)] obtain s3 where fl: "flushinput io s2 = Some s3" "ok s3"
    "stream s3 = tl q" "kept sent obs [] s2 s3" by blast
  have "kept sent obs ([] @ [] @ [] @ [0x06]) s (outbyte io ACK s3)"
    by (rule kept_trans [OF rd(4) kept_trans [OF rd2(4) kept_trans [OF fl(4)]]])
      (use outbyte_line(2) [OF fl(2), of ACK] in \<open>simp add: u8_of_int_def\<close>)
  moreover have "ok (outbyte io ACK s3)" "stream (outbyte io ACK s3) = tl q" using fl(2,3) by simp_all
  moreover have "get_first_byte io s = Some ((-1, 0x18), outbyte io ACK s3)"
    by (simp add: get_first_byte_def rd rd2 fl)
  ultimately show ?thesis by (simp only: append_Nil) blast
qed

end

context xm_client
begin

lemma xmodem_silent:
  assumes "ok s" "stream s = []"
  shows "\<exists>s'. xmodemReceive io xb dz cb a s = Some (-2, a, s') \<and> ok s'
    \<and> kept sent obs (replicate 16 0x43 @ replicate 16 0x15 @ [0x18, 0x18, 0x18]) s s'"
proof -
  let ?x0 = "xm_init a" and ?x1 = "(xm_init a)\<lparr>trychar := 0x15\<rparr>"
  have six: "Suc 15 = 16" by simp
  from sync_silent [OF assms, of "trychar ?x0" 15 "(0, 0)", unfolded six] obtain s1 where
    sy1: "sync_loop io (trychar ?x0) 16 (0, 0) s = Some ((0, -1), s1)" "ok s1" "stream s1 = []"
    "kept sent obs (asks (trychar ?x0) 16) s s1" by blast
  from sync_silent [OF sy1(2,3), of "trychar ?x1" 15 "(0, 0)", unfolded six] obtain s2 where
    sy2: "sync_loop io (trychar ?x1) 16 (0, 0) s1 = Some ((0, -1), s2)" "ok s2" "stream s2 = map Byte [] @ []"
    "kept sent obs (asks (trychar ?x1) 16) s1 s2" by (simp only: append_Nil list.map) blast
  from flush_line [OF sy2(2,3)] obtain s3 where fl: "flushinput io s2 = Some s3" "ok s3" "stream s3 = []"
    "kept sent obs [] s2 s3" by (auto simp: quiet_def)
  have r1: "xmodem_round io xb dz cb ?x0 s = Some (Inr (?x1, s1))"
    by (simp add: xmodem_round_def sy1(1) u8_of_int_def del: sync_loop.simps) (simp add: xm_init_def)
  have "xmodem_round io xb dz cb ?x1 s1 = Some (Inl (-2, ?x1, send_cancel io s3))"
    unfolding xmodem_round_def sy2(1) by (simp add: fl(1))
  then have "xmodemReceive io xb dz cb a s = Some (-2, a, send_cancel io s3)"
    using loop_Inr [OF r1] loop_Inl by (simp add: xmodemReceive_def xm_init_def)
  moreover have "kept sent obs (asks (trychar ?x0) 16 @ asks (trychar ?x1) 16 @ [] @ [0x18, 0x18, 0x18]) s
      (send_cancel io s3)"
    by (rule kept_trans [OF sy1(4) kept_trans [OF sy2(4) kept_trans [OF fl(4) send_cancel_line(3) [OF fl(2)]]]])
  then have "kept sent obs (replicate 16 0x43 @ replicate 16 0x15 @ [0x18, 0x18, 0x18]) s (send_cancel io s3)"
    by (simp only: asks_def xm_init_def xm.simps append_Nil) simp
  ultimately show ?thesis using send_cancel_line(1) [OF fl(2)] by blast
qed

lemma xmodem_cancelled:
  assumes "ok s" "stream s = replicate k Silence @ Byte 0x18 # Byte 0x18 # q" "quiet q" "k < 16"
  shows "\<exists>s'. xmodemReceive io xb dz cb a s = Some (-1, a, s') \<and> ok s'
    \<and> kept sent obs (replicate (Suc k) 0x43 @ [0x06]) s s'"
proof -
  have "(-1 :: int) \<noteq> 0" by simp
  from sync_first [OF assms(1,2,4) this first_cancel [OF _ _ assms(3)], of "trychar (xm_init a)"]
  obtain s' where "sync_loop io (trychar (xm_init a)) 16 (0, 0) s = Some ((-1, 0x18), s')" "ok s'"
    "kept sent obs (asks (trychar (xm_init a)) (Suc k) @ [0x06]) s s'" by blast
  moreover from this(1) have "xmodem_round io xb dz cb (xm_init a) s = Some (Inl (-1, xm_init a, s'))"
    by (simp add: xmodem_round_def del: sync_loop.simps)
  then have "xmodemReceive io xb dz cb a s = Some (-1, a, s')"
    using loop_Inl by (simp add: xmodemReceive_def xm_init_def)
  ultimately show ?thesis by (auto simp: asks_def xm_init_def)
qed

lemma packet_check_limit:
  assumes "ok s" "packet_valid xb bufsz (packetno x) (use_src x) (mem s)"
    and "mem s (xb + 1) \<noteq> packetno x" "retrans x \<le> 1" and q: "stream s = map Byte bs @ q" "quiet q"
  shows "\<exists>s'. packet_check io xb dz cb bufsz x s = Some (-3, x\<lparr>retrans := retrans x - 1\<rparr>, s') \<and> ok s'
    \<and> kept sent obs [0x18, 0x18, 0x18] s s'"
proof -
  from flush_line [OF assms(1) q] obtain s1 where fl: "flushinput io s = Some s1" "ok s1" "kept sent obs [] s s1"
    by blast
  have "packet_check io xb dz cb bufsz x s = Some (-3, x\<lparr>retrans := retrans x - 1\<rparr>, send_cancel io s1)"
    using assms(2-4) fl(1) by (simp add: packet_check_def)
  moreover have "kept sent obs ([] @ [0x18, 0x18, 0x18]) s (send_cancel io s1)"
    by (rule kept_trans [OF fl(3) send_cancel_line(3) [OF fl(2)]])
  ultimately show ?thesis using send_cancel_line(1) [OF fl(2)] by (simp only: append_Nil) blast
qed

lemma repeats_loop:
  assumes d: "length d \<in> {128, 1024}"
  shows "ok s \<Longrightarrow> ready crc x \<Longrightarrow> packetno x \<noteq> 0 \<Longrightarrow> retrans x = int (Suc n) \<Longrightarrow>
    stream s = map Byte (concat (replicate (Suc n) (packet crc (packetno x - 1) d))) @ q \<Longrightarrow> quiet q \<Longrightarrow>
    \<exists>x' s'. xmodem_loop io xb dz cb (x, s) = Some (-3, x', s') \<and> ok s' \<and> cb_arg x' = cb_arg x
      \<and> sent (world s') = sent (world s) @ asks (trychar x) 1 @ replicate n 0x06 @ [0x18, 0x18, 0x18]
      \<and> obs (world s') = obs (world s)"
proof (induction n arbitrary: s x)
  case 0
  let ?x = "x\<lparr>trychar := 0, use_src := crc\<rparr>"
  have st: "stream s = replicate 0 Silence @ map Byte (packet crc (packetno x - 1) d) @ q"
    using 0(5) by simp
  have b: "uint (packetno x - 1) = uint (packetno x) - 1"
    using 0(3) by (rule uint_pred_u8)
  from round_packet [OF 0(1) st _ 0(2) d, of xb dz] obtain s1 where
    rd: "xmodem_round io xb dz cb x s = packet_answer io xb dz cb (int (length d)) ?x s1"
    and s1: "ok s1" "stream s1 = map Byte [] @ q" "sent (world s1) = sent (world s) @ asks (trychar x) 1"
      "obs (world s1) = obs (world s)" "mem s1 (xb + 1) \<noteq> packetno ?x"
    and pv: "packet_valid xb (int (length d)) (packetno ?x) (use_src ?x) (mem s1)" using b by auto
  have "retrans ?x \<le> 1" using 0(4) by simp
  from packet_check_limit [OF s1(1) pv s1(5) this s1(2) 0(6), of dz] obtain s2 where
    pc: "packet_check io xb dz cb (int (length d)) ?x s1 = Some (-3, ?x\<lparr>retrans := retrans ?x - 1\<rparr>, s2)"
    and s2: "ok s2" "kept sent obs [0x18, 0x18, 0x18] s1 s2" by blast
  have "xmodem_round io xb dz cb x s = Some (Inl (-3, ?x\<lparr>retrans := retrans ?x - 1\<rparr>, s2))"
    by (simp add: rd pc packet_answer_def)
  from loop_Inl [OF this] s1 s2 show ?case by (simp add: kept_def)
next
  case (Suc n)
  have st: "stream s = replicate 0 Silence @ map Byte (packet crc (packetno x - 1) d)
      @ map Byte (concat (replicate (Suc n) (packet crc (packetno x - 1) d))) @ q"
    using Suc.prems(5) by simp
  have "1 < retrans x" using Suc.prems(4) by simp
  from round_repeat [OF Suc.prems(1) st _ Suc.prems(2) d Suc.prems(3) this, of xb dz] obtain s1 where
    rd: "xmodem_round io xb dz cb x s
      = Some (Inr (x\<lparr>trychar := 0, use_src := crc, retrans := retrans x - 1\<rparr>, s1))"
    and s1: "ok s1" "stream s1 = map Byte (concat (replicate (Suc n) (packet crc (packetno x - 1) d))) @ q"
      "obs (world s1) = obs (world s)" "sent (world s1) = sent (world s) @ asks (trychar x) 1 @ [0x06]"
    by (auto simp del: replicate.simps(2))
  let ?x1 = "x\<lparr>trychar := 0, use_src := crc, retrans := retrans x - 1\<rparr>"
  have "ready crc ?x1" "packetno ?x1 \<noteq> 0" "retrans ?x1 = int (Suc n)"
    "stream s1 = map Byte (concat (replicate (Suc n) (packet crc (packetno ?x1 - 1) d))) @ q"
    using Suc.prems(3,4) s1(2) by (simp_all add: ready_def)
  from Suc.IH [OF s1(1) this Suc.prems(6)] loop_Inr [OF rd] s1 show ?case
    by (auto simp: asks_def)
qed

lemma xmodem_repeats:
  assumes "ok s" "length d \<in> {128, 1024}"
    and "stream s = map Byte (concat (replicate 25 (packet True 0 d))) @ q" "quiet q"
  shows "\<exists>s'. xmodemReceive io xb dz cb a s = Some (-3, a, s') \<and> ok s'
    \<and> sent (world s') = sent (world s) @ [0x43] @ replicate 24 0x06 @ [0x18, 0x18, 0x18]
    \<and> obs (world s') = obs (world s)"
proof -
  have x: "ready True (xm_init a)" "packetno (xm_init a) \<noteq> 0" "retrans (xm_init a) = int (Suc 24)"
    by (simp_all add: xm_init_def ready_def)
  have st: "stream s = map Byte (concat (replicate (Suc 24) (packet True (packetno (xm_init a) - 1) d))) @ q"
    using assms(3) by (simp only: xm_init_def xm.simps diff_self) simp
  from repeats_loop [OF assms(2,1) x st assms(4), of xb dz] obtain x' s' where
    "xmodem_loop io xb dz cb (xm_init a, s) = Some (-3, x', s')" "ok s'" "cb_arg x' = a"
    "sent (world s') = sent (world s) @ asks (trychar (xm_init a)) 1 @ replicate 24 0x06 @ [0x18, 0x18, 0x18]"
    "obs (world s') = obs (world s)" by (auto simp: xm_init_def)
  then show ?thesis by (simp add: xmodemReceive_def asks_def xm_init_def)
qed

end

end
