(* ===== verification/Platform.thy ===== *)
theory Platform
  imports Xmodem_Line
begin

text \<open>
  What the OTA application uses besides the kernel and the serial port: the SHA-256 context of
  \<open>app_sha256.h\<close>, the partition reads of the HOTA updater, the updater's public key, flash reads,
  \<open>malloc\<close>, what an uninitialised local array holds, and two choices C leaves to the implementation (the signedness of plain \<open>char\<close>, and
  whether \<open>strtoul\<close> sets \<open>errno\<close> when it finds no digits). None is code of this repository: they
  are fields of a record, arguments of the definitions that use them. The callback that receives
  the packets of an upload, \<open>xmodemReceiveCB\<close>, is the first of these definitions.
\<close>

record ('c, 'w) platform =
  AppSha256Init :: 'c
  AppSha256Update :: "u8 list \<Rightarrow> 'c \<Rightarrow> 'c"
  AppSha256Finish :: "'c \<Rightarrow> u8 list"
  HotaRead :: "u32 \<Rightarrow> u32 \<Rightarrow> 'w \<Rightarrow> (int \<times> u8 list) \<times> 'w"
  HotaGetPubKey :: "'w \<Rightarrow> (u8 list option \<times> u32) \<times> 'w"
  flash_read_page :: "u32 \<Rightarrow> u32 \<Rightarrow> 'w \<Rightarrow> u8 list \<times> 'w"
  malloc_ptr :: "u32 \<Rightarrow> 'w \<Rightarrow> nat \<times> 'w"
  uninit :: "'w \<Rightarrow> u8 list"
  char_signed :: bool
  strtoul_einval :: bool

section \<open>The upload callback\<close>

record 'c xmodemReceiveCBArg =
  sz :: int
  start :: int
  sha256 :: 'c

definition received_msg :: "int \<Rightarrow> int \<Rightarrow> u32 \<Rightarrow> int \<Rightarrow> string" where
  "received_msg n st addr to_print = ''Received['' @ show_int n @ '' '' @ show_int st @ '' ''
     @ show_nat (unat addr) @ '' '' @ show_int to_print @ '']: '' @ [CHR 34] @ [CHR 34] @ CRLF"

definition xmodemReceiveCB ::
    "('c, 'w) platform \<Rightarrow> 'w kernel \<Rightarrow> ('c xmodemReceiveCBArg, 'w) xmodem_cb" where
  "xmodemReceiveCB P K buf addr len arg s =
     (let to_print = int_of_u32 len
      in if to_print > 0 then
           (let s = print (received_msg (sz arg) (start arg) addr to_print) s;
                data = mem_read (mem s) buf (unat len);
                arg = arg\<lparr>sha256 := AppSha256Update P data (sha256 arg)\<rparr>;
                offset = u32_of_int (if start arg > 0 then start arg else 0) + addr
            in (arg, call K (HotaWrite data offset len) s))
         else (arg, s))"

text \<open>Its effect on its argument and on what the updater's store \<open>hw\<close> keeps.\<close>

definition cb_effect ::
    "('c, 'w) platform \<Rightarrow> (u8 list \<Rightarrow> u32 \<Rightarrow> 'o \<Rightarrow> 'o) \<Rightarrow> chunk
      \<Rightarrow> 'c xmodemReceiveCBArg \<times> 'o \<Rightarrow> 'c xmodemReceiveCBArg \<times> 'o" where
  "cb_effect P hw ch ao = (case (ch, ao) of ((addr, data), (arg, o1)) \<Rightarrow>
     (if int_of_u32 (of_nat (length data)) > 0 then
        (arg\<lparr>sha256 := AppSha256Update P data (sha256 arg)\<rparr>,
         hw data (u32_of_int (if start arg > 0 then start arg else 0) + addr) o1)
      else (arg, o1)))"

text \<open>A kernel whose updater keeps what \<open>HotaWrite\<close> is given, apart from the serial line.\<close>

definition hota_kernel ::
    "'w kernel \<Rightarrow> ('w \<Rightarrow> rx_item list) \<Rightarrow> ('w \<Rightarrow> u8 list) \<Rightarrow> ('w \<Rightarrow> 'o) \<Rightarrow> (u8 list \<Rightarrow> u32 \<Rightarrow> 'o \<Rightarrow> 'o) \<Rightarrow> bool" where
  "hota_kernel K line sent obs hw \<longleftrightarrow> (\<forall>data off w.
     let w' = snd (os_call K (HotaWrite data off (of_nat (length data))) w)
     in line w' = line w \<and> sent w' = sent w \<and> obs w' = hw data off (obs w))"

lemma hota_kernel_write:
  assumes "hota_kernel K line sent obs hw" "length data = unat n"
  shows "line (snd (os_call K (HotaWrite data off n) w)) = line w"
    "sent (snd (os_call K (HotaWrite data off n) w)) = sent w"
    "obs (snd (os_call K (HotaWrite data off n) w)) = hw data off (obs w)"
proof -
  have n: "n = of_nat (length data)" using assms(2) by simp
  show "line (snd (os_call K (HotaWrite data off n) w)) = line w"
    "sent (snd (os_call K (HotaWrite data off n) w)) = sent w"
    "obs (snd (os_call K (HotaWrite data off n) w)) = hw data off (obs w)"
    unfolding n using assms(1) unfolding hota_kernel_def Let_def by blast+
qed

lemma xmodemReceiveCB_frame:
  assumes "xmodemReceiveCB P K p addr n a s = (a', s')"
  shows "dev s' = dev s" "g_uartBuf s' = g_uartBuf s" "mem s' = mem s"
  using assms by (auto simp: xmodemReceiveCB_def Let_def split: if_splits)

lemma xmodemReceiveCB_idle:
  assumes "serial_idle s" "xmodemReceiveCB P K p addr n a s = (a', s')"
  shows "serial_idle s' \<and> mem s' = mem s"
  using assms(1) xmodemReceiveCB_frame [OF assms(2)]
  by (simp add: serial_idle_def ring_ok_def)

lemma logged_run:
  "logged cb p addr n a s = (a', s') \<Longrightarrow> cb p addr n (fst a) s = (fst a', s')
    \<and> snd a' = snd a @ [(addr, mem_read (mem s) p (unat n))]"
  by (cases "cb p addr n (fst a) s") (auto simp: logged_def)

definition arg_effect ::
    "('c, 'w) platform \<Rightarrow> chunk \<Rightarrow> 'c xmodemReceiveCBArg \<Rightarrow> 'c xmodemReceiveCBArg" where
  "arg_effect P ch arg =
     (if int_of_u32 (of_nat (length (snd ch))) > 0
      then arg\<lparr>sha256 := AppSha256Update P (snd ch) (sha256 arg)\<rparr> else arg)"

lemma xmodemReceiveCB_arg:
  "xmodemReceiveCB P K p addr n a s = (a', s') \<Longrightarrow> a' = arg_effect P (addr, mem_read (mem s) p (unat n)) a"
  by (auto simp: xmodemReceiveCB_def arg_effect_def Let_def split: if_splits)

interpretation serial_xm: xm_safe "serial_port K" serial_idle "xmodemReceiveCB P K" "arg_effect P"
  for K :: "'a kernel" and P :: "('b, 'a) platform"
  by unfold_locales (fact xmodemReceiveCB_idle, fact xmodemReceiveCB_arg)

interpretation serial_xm_logged: xm_safe "serial_port K" serial_idle "logged (xmodemReceiveCB P K)"
    "\<lambda>ch (a, l). (arg_effect P ch a, l @ [ch])"
  for K :: "'a kernel" and P :: "('b, 'a) platform"
proof unfold_locales
  fix s :: "'a sys" and p addr n and a a' :: "'b xmodemReceiveCBArg \<times> chunk list" and s'
  assume idle: "serial_idle s" and run: "logged (xmodemReceiveCB P K) p addr n a s = (a', s')"
  from xmodemReceiveCB_idle [OF idle logged_run [THEN conjunct1, OF run]]
  show "serial_idle s' \<and> mem s' = mem s" .
next
  fix s :: "'a sys" and p addr n and a a' :: "'b xmodemReceiveCBArg \<times> chunk list" and s'
  assume run: "logged (xmodemReceiveCB P K) p addr n a s = (a', s')"
  from xmodemReceiveCB_arg [OF logged_run [THEN conjunct1, OF run]] logged_run [THEN conjunct2, OF run]
  show "a' = (case a of (a, l) \<Rightarrow> (arg_effect P (addr, mem_read (mem s) p (unat n)) a,
      l @ [(addr, mem_read (mem s) p (unat n))]))"
    by (simp add: prod_eq_iff split: prod.split)
qed

text \<open>The callback is a client of the driver's line.\<close>

theorem upload_client:
  assumes L: "line_kernel (K :: 'w kernel) line pend sent obs" and updater: "hota_kernel K line sent obs hw"
  shows "xm_client (serial_port K) serial_idle (serial_stream line) sent obs
    (xmodemReceiveCB P K) (cb_effect P hw)"
proof (intro xm_client.intro serial_rx_line [OF L], unfold_locales)
  fix s p addr n a a' and s' :: "'w sys"
  assume idle: "serial_idle s" and run: "xmodemReceiveCB P K p addr n a s = (a', s')"
  let ?data = "mem_read (mem s) p (unat n)"
  note hw = hota_kernel_write [OF updater, of ?data n, OF length_mem_read]
  have fr: "rx_contents UART1 s' = rx_contents UART1 s"
    using rx_contents_frame [of s' UART1 s] xmodemReceiveCB_frame [OF run] by simp
  have "serial_stream line s' = serial_stream line s \<and> sent (world s') = sent (world s)
      \<and> (a', obs (world s')) = cb_effect P hw (addr, ?data) (a, obs (world s))"
  proof (cases "int_of_u32 n > 0")
    case True
    with run have "a' = a\<lparr>sha256 := AppSha256Update P ?data (sha256 a)\<rparr>"
      "world s' = snd (os_call K (HotaWrite ?data (u32_of_int (if start a > 0 then start a else 0) + addr) n) (world s))"
      by (auto simp: xmodemReceiveCB_def Let_def)
    with fr hw True show ?thesis by (simp add: serial_stream_def cb_effect_def)
  next
    case False
    with run show ?thesis by (simp add: xmodemReceiveCB_def cb_effect_def)
  qed
  with xmodemReceiveCB_idle [OF idle run]
  show "serial_idle s' \<and> mem s' = mem s \<and> serial_stream line s' = serial_stream line s
      \<and> sent (world s') = sent (world s)
      \<and> (a', obs (world s')) = cb_effect P hw (addr, ?data) (a, obs (world s))" by blast
qed

locale hota_os = line_os K line pend sent obs
  for K :: "'w kernel" and line :: "'w \<Rightarrow> rx_item list" and pend and sent :: "'w \<Rightarrow> u8 list"
    and obs :: "'w \<Rightarrow> 'o" +
  fixes P :: "('c, 'w) platform" and hw :: "u8 list \<Rightarrow> u32 \<Rightarrow> 'o \<Rightarrow> 'o"
  assumes updater: "hota_kernel K line sent obs hw"

sublocale hota_os \<subseteq> upload: xm_client "serial_port K" serial_idle "serial_stream line" sent obs
    "xmodemReceiveCB P K" "cb_effect P hw"
  by (rule upload_client [OF as_documented updater])

lemma sim_hota_kernel:
  "hota_kernel sim_kernel sim_line sim_sent sim_calls
     (\<lambda>data off calls. calls @ [HotaWrite data off (of_nat (length data))])"
  by (simp add: hota_kernel_def)

interpretation sim_hota: hota_os sim_kernel sim_line sim_pend sim_sent sim_calls P
    "\<lambda>data off calls. calls @ [HotaWrite data off (of_nat (length data))]" for P
  by unfold_locales (rule sim_hota_kernel)

end
