(* ===== verification/Xmodem_Props.thy ===== *)
theory Xmodem_Props
  imports Platform Xmodem_Total Xmodem_Ends
begin

text \<open>
  The properties of the XMODEM receiver, stated of the receiver of the OTA demo as it is linked:
  \<open>xmodemReceive\<close> over \<open>serial.c\<close>, with the callback \<open>xmodemReceiveCB\<close> where one is needed.
\<close>

section \<open>What a session delivers\<close>

lemma contiguous_chunks:
  "contiguous off cs fin \<Longrightarrow> \<forall>(addr, d) \<in> set cs. d \<noteq> [] \<and> length d \<le> 1024"
  by (induction off cs fin rule: contiguous.induct) auto

lemma deliver_contiguous:
  assumes "dz < 2147483648" and "\<forall>d \<in> set ds. length d \<le> 1024"
  shows "0 \<le> off \<Longrightarrow> off \<le> max 0 dz \<Longrightarrow> contiguous off (deliver dz off ds) (deliver_end dz off ds)"
  using assms(2)
proof (induction ds arbitrary: off)
  case (Cons d ds)
  define n where "n = min (dz - off) (int (length d))"
  show ?case
  proof (cases "0 < n")
    case True
    have "uint (u32_of_int off) = off"
      using Cons.prems(1,2) assms(1) by (intro uint_u32_of_int) auto
    moreover have "nat n \<le> length d" "length d \<le> 1024" "off + n \<le> max 0 dz" "d \<noteq> []"
      using True Cons.prems(2,3) by (auto simp: n_def)
    ultimately show ?thesis
      using Cons.IH [of "off + n"] Cons.prems True
      by (simp add: Let_def flip: n_def)
  next
    case False
    with Cons.IH [of off] Cons.prems show ?thesis by (simp add: Let_def flip: n_def)
  qed
qed simp

lemma small_length_pos: "d \<noteq> [] \<Longrightarrow> length d \<le> 1024 \<Longrightarrow> 0 < int_of_u32 (of_nat (length d))"
  by (simp add: int_of_u32_def signed_of_nat signed_take_bit_int_eq_self)

text \<open>The callback's effect on chunks of packet size.\<close>

lemma fold_cb_effect:
  "\<forall>(addr, d) \<in> set cs. d \<noteq> [] \<and> length d \<le> 1024 \<Longrightarrow>
    fold (cb_effect P hw) cs (arg, o1)
    = (arg\<lparr>sha256 := fold (AppSha256Update P) (map snd cs) (sha256 arg)\<rparr>,
       fold (\<lambda>(addr, d). hw d (u32_of_int (if start arg > 0 then start arg else 0) + addr)) cs o1)"
proof (induction cs arbitrary: arg o1)
  case (Cons ch cs)
  obtain addr d where ch: "ch = (addr, d)" by force
  from Cons.prems ch have "0 < int_of_u32 (of_nat (length d))" by (auto intro: small_length_pos)
  with Cons.IH Cons.prems ch show ?case by (simp add: cb_effect_def)
qed simp

lemma session_blocks: "session_ok crc b r ts \<Longrightarrow> \<forall>d \<in> set (blocks ts). length d \<le> 1024"
  by (induction crc b r ts rule: session_ok.induct) auto

text \<open>A session, delivered through the callback to the hash and the updater.\<close>

lemma upload_session:
  assumes "line_kernel K line pend sent obs" "hota_kernel K line sent obs hw" "serial_idle s"
    and "dz < 2147483648" "k < 32" "crc \<longleftrightarrow> k < 16" and q: "quiet q"
    and "serial_stream line s = replicate k Silence @ session_line crc 1 ts @ q"
    and "session_ok crc 1 MAXRETRANS ts"
  shows "\<exists>cs s'. xmodemReceive (serial_port K) xb dz (xmodemReceiveCB P K) arg s
      = Some (min (max 0 dz) (int (length (concat (blocks ts)))),
          arg\<lparr>sha256 := fold (AppSha256Update P) (map snd cs) (sha256 arg)\<rparr>, s')
    \<and> contiguous 0 cs (min (max 0 dz) (int (length (concat (blocks ts)))))
    \<and> concat (map snd cs) = take (nat dz) (concat (blocks ts))
    \<and> obs (world s') = fold (\<lambda>(addr, d). hw d (u32_of_int (if start arg > 0 then start arg else 0) + addr))
        cs (obs (world s))
    \<and> sent (world s') = sent (world s) @ requests k @ answers ts
    \<and> serial_stream line s' = tl q"
proof -
  let ?ds = "blocks ts" and ?n = "min (max 0 dz) (int (length (concat (blocks ts))))"
  have small: "\<forall>d \<in> set ?ds. length d \<le> 1024" by (rule session_blocks [OF assms(9)])
  have fin: "deliver_end dz 0 ?ds = ?n"
    using deliver_end_eq [of 0 dz ?ds] by simp
  from deliver_contiguous [OF assms(4) small, of 0] fin
  have cont: "contiguous 0 (deliver dz 0 ?ds) ?n" by simp
  have "concat (map snd (deliver dz 0 ?ds)) = take (nat dz) (concat ?ds)"
    using deliver_concat [of 0 dz ?ds] by simp
  moreover obtain a' s' where "xmodemReceive (serial_port K) xb dz (xmodemReceiveCB P K) arg s = Some (?n, a', s')"
    "serial_stream line s' = tl q" "sent (world s') = sent (world s) @ requests k @ answers ts"
    "(a', obs (world s')) = fold (cb_effect P hw) (deliver dz 0 ?ds) (arg, obs (world s))"
    using xm_client.xmodem_session [OF upload_client [OF assms(1,2)] assms(3,4) q assms(5,6) assms(8,9)] by blast
  ultimately show ?thesis
    using cont fold_cb_effect [OF contiguous_chunks [OF cont], of P hw arg "obs (world s)"]
    by (intro exI [of _ "deliver dz 0 ?ds"] exI [of _ s']) simp
qed

text \<open>
  C2: An upload arrives intact. On a kernel that behaves as documented, let a sender start after
  \<open>k < 32\<close> pauses and transmit any sequence of 128- and 1024-byte blocks, with any number of
  packets damaged or cut short on the way and up to 23 repeats in a row of a block that was
  already acknowledged (but not of block 255). Then \<open>xmodemReceive\<close> returns the number of bytes
  delivered; it asked with \<open>'C'\<close> (and with NAK after 16 pauses, in which case the packets carry
  checksums instead of CRCs), answered every transmission with ACK or NAK, and handed to the
  callback, each byte once and in order, the payload cut to the size asked for: the hash context was
  updated with, and \<open>HotaWrite\<close> given, exactly these chunks, at their offsets.
\<close>

theorem upload_arrives_intact:
  assumes "line_kernel K line pend sent obs" "hota_kernel K line sent obs hw" "serial_idle s"
    and "dz < 2147483648" "k < 32" "crc \<longleftrightarrow> k < 16"
    and "serial_stream line s = replicate k Silence @ session_line crc 1 ts"
    and "session_ok crc 1 MAXRETRANS ts"
  shows "\<exists>cs s'. xmodemReceive (serial_port K) xb dz (xmodemReceiveCB P K) arg s
      = Some (min (max 0 dz) (int (length (concat (blocks ts)))),
          arg\<lparr>sha256 := fold (AppSha256Update P) (map snd cs) (sha256 arg)\<rparr>, s')
    \<and> contiguous 0 cs (min (max 0 dz) (int (length (concat (blocks ts)))))
    \<and> concat (map snd cs) = take (nat dz) (concat (blocks ts))
    \<and> obs (world s') = fold (\<lambda>(addr, d). hw d (u32_of_int (if start arg > 0 then start arg else 0) + addr))
        cs (obs (world s))
    \<and> sent (world s') = sent (world s) @ requests k @ answers ts
    \<and> serial_stream line s' = []"
  using upload_session [OF assms(1-6) quiet_intros(1) _ assms(8), simplified append_Nil2 list.sel, OF assms(7)] .

text \<open>A platform for concrete runs: the hash context collects the data.\<close>

definition sim_platform :: "(u8 list, sim) platform" where
  "sim_platform = \<lparr>AppSha256Init = [], AppSha256Update = (\<lambda>d c. c @ d), AppSha256Finish = take 32,
     HotaRead = (\<lambda>addr n w. ((0, replicate (unat n) 0), w)), HotaGetPubKey = (\<lambda>w. ((None, 0), w)),
     flash_read_page = (\<lambda>addr n w. (replicate (unat n) 0, w)), malloc_ptr = (\<lambda>n w. (4096, w)), uninit = (\<lambda>w. []),
     char_signed = True, strtoul_einval = True\<rparr>"

lemma sim_platform_sel [simp]:
  "AppSha256Init sim_platform = []" "AppSha256Update sim_platform d c = c @ d"
  "AppSha256Finish sim_platform = take 32" "HotaRead sim_platform addr n w = ((0, replicate (unat n) 0), w)"
  "HotaGetPubKey sim_platform w = ((None, 0), w)"
  "flash_read_page sim_platform addr n w = (replicate (unat n) 0, w)"
  "malloc_ptr sim_platform n w = (4096, w)" "char_signed sim_platform" "strtoul_einval sim_platform"
  by (simp_all add: sim_platform_def)

definition sim_arg :: "u8 list xmodemReceiveCBArg" where
  "sim_arg = \<lparr>sz = 100, start = 0, sha256 = []\<rparr>"

definition demo_session :: "tx list" where
  "demo_session = [Damaged 1 (replicate 132 0), Data (replicate 128 7), Repeat (replicate 128 7)]"

lemma demo_session_ok: "session_ok True 1 25 demo_session"
  by (simp add: demo_session_def body_length_def header_size_def body_valid_def)

lemma upload_arrives_intact_witness:
  "\<exists>a' s'. xmodemReceive (serial_port sim_kernel) 4096 100 (xmodemReceiveCB sim_platform sim_kernel) sim_arg
      (serial_static (\<lambda>_. 0) (sim_world (Silence # session_line True 1 demo_session))) = Some (100, a', s')
    \<and> sha256 a' = replicate 100 7 \<and> sim_sent (world s') = [0x43, 0x43, 0x15, 0x06, 0x06, 0x06]"
proof -
  let ?s = "serial_static (\<lambda>_. 0) (sim_world (Silence # session_line True 1 demo_session))"
  have fold_cat: "fold (AppSha256Update sim_platform) ds c = c @ concat ds" for ds c
    by (induction ds arbitrary: c) simp_all
  have st: "serial_stream sim_line ?s = replicate 1 Silence @ session_line True 1 demo_session" by simp
  have side: "serial_idle ?s" "(100 :: int) < 2147483648" "(1 :: nat) < 32" "True \<longleftrightarrow> (1 :: nat) < 16"
    by simp_all
  from upload_arrives_intact [OF sim_line_kernel sim_hota_kernel side st demo_session_ok,
      of 4096 sim_platform sim_arg]
  obtain cs :: "chunk list" and s' where
    "xmodemReceive (serial_port sim_kernel) 4096 100 (xmodemReceiveCB sim_platform sim_kernel) sim_arg ?s
      = Some (min (max 0 100) (int (length (concat (blocks demo_session)))),
          sim_arg\<lparr>sha256 := fold (AppSha256Update sim_platform) (map snd cs) (sha256 sim_arg)\<rparr>, s')"
    "concat (map snd cs) = take (nat 100) (concat (blocks demo_session))"
    "sim_sent (world s') = sim_sent (world ?s) @ requests 1 @ answers demo_session"
    by blast
  then show ?thesis
    by (simp add: fold_cat sim_arg_def demo_session_def requests_def sim_world_def)
qed

section \<open>Safety on every line\<close>

text \<open>
  C4: Whatever the kernel and the line do, when \<open>xmodemReceive\<close> returns: only the first 1029 bytes
  of the packet buffer were written (the caller allocates 1030); it returns the number of bytes
  delivered, or one of the three error codes; and the chunks handed to the callback are contiguous
  from offset 0, none empty or longer than a packet, and never go beyond the size asked for, which
  is 0 for a negative one. The driver is idle again.
\<close>

theorem xmodemReceive_memory_safe:
  assumes "serial_idle s" "dz < 2147483648"
    and "xmodemReceive (serial_port K) xb dz (logged (xmodemReceiveCB P K)) (arg, []) s = Some (r, (arg', cs), s')"
  shows "(\<forall>a. a < xb \<or> xb + 1029 \<le> a \<longrightarrow> mem s' a = mem s a) \<and> serial_idle s'
    \<and> (\<exists>n. contiguous 0 cs n \<and> n \<le> max 0 dz \<and> (r = n \<or> r \<in> {-1, -2, -3}))"
proof -
  have log: "snd (fold (\<lambda>ch (a, l). (arg_effect P ch a, l @ [ch])) cs (a, l)) = l @ cs"
    for cs :: "chunk list" and a l
    by (induction cs arbitrary: a l) simp_all
  from serial_xm_logged.xmodemReceive_ok [OF assms(2,1,3)] obtain ds n where
    "(arg', cs) = fold (\<lambda>ch (a, l). (arg_effect P ch a, l @ [ch])) ds (arg, [])" and
    r: "contiguous 0 ds n" "n \<le> max 0 dz" "r = n \<or> r \<in> {-1, -2, -3}" "serial_idle s'"
    "within xb 1029 (mem s) (mem s')" by blast
  then have "cs = ds" using log [of ds arg "[]"] by (metis append_Nil snd_conv)
  with r show ?thesis by (auto simp: within_def)
qed

text \<open>A callback that keeps a log of its calls is a client of the line too.\<close>

definition log_effect :: "(chunk \<Rightarrow> 'c \<times> 'o \<Rightarrow> 'c \<times> 'o) \<Rightarrow> chunk
    \<Rightarrow> ('c \<times> chunk list) \<times> 'o \<Rightarrow> ('c \<times> chunk list) \<times> 'o" where
  "log_effect eff ch al = (let (a, o1) = eff ch (fst (fst al), snd al) in ((a, snd (fst al) @ [ch]), o1))"

lemma xm_client_logged:
  assumes "xm_client io ok stream sent obs cb eff"
  shows "xm_client io ok stream sent obs (logged cb) (log_effect eff)"
proof (intro xm_client.intro xm_client.axioms(1) [OF assms] xm_client_axioms.intro)
  fix s p addr n a a' s'
  assume ok: "ok s" and run: "logged cb p addr n a s = (a', s')"
  note lr = logged_run [OF run]
  from xm_client.cb_line [OF assms ok lr [THEN conjunct1]] lr [THEN conjunct2]
  show "ok s' \<and> mem s' = mem s \<and> stream s' = stream s \<and> sent (world s') = sent (world s)
      \<and> (a', obs (world s')) = log_effect eff (addr, mem_read (mem s) p (unat n)) (a, obs (world s))"
    by (auto simp: log_effect_def Let_def prod_eq_iff split: prod.split)
qed

lemma xmodemReceive_memory_safe_witness:
  "\<exists>r arg' cs s'. xmodemReceive (serial_port sim_kernel) 4096 100
        (logged (xmodemReceiveCB sim_platform sim_kernel)) (sim_arg, [])
        (serial_static (\<lambda>_. 9) (sim_world [Byte 1, Byte 2, Silence])) = Some (r, (arg', cs), s')
     \<and> mem s' 4095 = 9 \<and> mem s' (4096 + 1029) = 9"
proof -
  let ?s = "serial_static (\<lambda>_. 9) (sim_world [Byte 1, Byte 2, Silence])"
  have side: "serial_idle ?s" "(100 :: int) < 2147483648" by simp_all
  from xm_client.xmodemReceive_returns [OF xm_client_logged
      [OF upload_client [OF sim_line_kernel sim_hota_kernel]] side(1)]
  obtain r arg' cs s' where run: "xmodemReceive (serial_port sim_kernel) 4096 100
      (logged (xmodemReceiveCB sim_platform sim_kernel)) (sim_arg, []) ?s = Some (r, (arg', cs), s')"
    by (metis prod.collapse)
  from xmodemReceive_memory_safe [OF side run] run show ?thesis by auto
qed

section \<open>How a reception ends\<close>

text \<open>
  C8: \<open>xmodemReceive\<close> always returns. On a kernel that behaves as documented, and on every line
  that is finite, however the bytes and pauses on it are arranged (not only those an XMODEM sender
  produces), from every idle driver state and for every packet buffer and size.
\<close>

theorem xmodemReceive_terminates:
  assumes "line_kernel K line pend sent obs" "hota_kernel K line sent obs hw" "serial_idle s"
  shows "\<exists>r arg' s'. xmodemReceive (serial_port K) xb dz (xmodemReceiveCB P K) arg s = Some (r, arg', s')"
  using xm_client.xmodemReceive_returns [OF upload_client [OF assms(1,2)] assms(3)] by blast

lemma xmodemReceive_terminates_witness:
  "\<exists>r arg' s'. xmodemReceive (serial_port sim_kernel) 4096 100 (xmodemReceiveCB sim_platform sim_kernel)
     sim_arg (serial_static (\<lambda>_. 0) (sim_world [Byte 0x18, Silence, Byte 1, Byte 2, Silence])) = Some (r, arg', s')"
  by (rule xmodemReceive_terminates [OF sim_line_kernel sim_hota_kernel]) simp

text \<open>
  C35: On a line that stays silent the receiver asks 16 times for CRC mode with \<open>'C'\<close>, 16 times for
  checksum mode with NAK, cancels with three CANs, and returns the sync error \<open>-2\<close>; nothing is
  written to the updater.
\<close>

theorem silent_line_gives_up:
  assumes "line_kernel K line pend sent obs" "hota_kernel K line sent obs hw" "serial_idle s"
    and "serial_stream line s = []"
  shows "\<exists>s'. xmodemReceive (serial_port K) xb dz (xmodemReceiveCB P K) arg s = Some (-2, arg, s')
    \<and> sent (world s') = sent (world s) @ replicate 16 0x43 @ replicate 16 0x15 @ [0x18, 0x18, 0x18]
    \<and> obs (world s') = obs (world s) \<and> mem s' = mem s"
  using xm_client.xmodem_silent [OF upload_client [OF assms(1,2), where P = P] assms(3,4),
      where xb = xb and dz = dz and a = arg]
  by (auto simp: kept_def simp del: replicate.simps)

lemma silent_line_gives_up_witness:
  "\<exists>s'. xmodemReceive (serial_port sim_kernel) 4096 100 (xmodemReceiveCB sim_platform sim_kernel) sim_arg
      (serial_static (\<lambda>_. 0) (sim_world [])) = Some (-2, sim_arg, s')
    \<and> sim_calls (world s') = []"
  using silent_line_gives_up [OF sim_line_kernel sim_hota_kernel,
      of "serial_static (\<lambda>_. 0) (sim_world [])" 4096 100 sim_platform sim_arg]
  by auto

text \<open>
  A sender that cancels (two CANs where a header is expected, after fewer than 16 pauses) ends
  the reception: it is acknowledged, the result is \<open>-1\<close>, and nothing was written to the updater.
\<close>

theorem sender_can_cancel:
  assumes "line_kernel K line pend sent obs" "hota_kernel K line sent obs hw" "serial_idle s"
    and "serial_stream line s = replicate k Silence @ Byte 0x18 # Byte 0x18 # q" "quiet q" "k < 16"
  shows "\<exists>s'. xmodemReceive (serial_port K) xb dz (xmodemReceiveCB P K) arg s = Some (-1, arg, s')
    \<and> sent (world s') = sent (world s) @ replicate (Suc k) 0x43 @ [0x06]
    \<and> obs (world s') = obs (world s) \<and> mem s' = mem s"
  using xm_client.xmodem_cancelled [OF upload_client [OF assms(1,2), where P = P] assms(3-6),
      where xb = xb and dz = dz and a = arg]
  by (auto simp: kept_def simp del: replicate.simps)

lemma sender_can_cancel_witness:
  "\<exists>s'. xmodemReceive (serial_port sim_kernel) 4096 100 (xmodemReceiveCB sim_platform sim_kernel) sim_arg
      (serial_static (\<lambda>_. 0) (sim_world [Silence, Byte 0x18, Byte 0x18])) = Some (-1, sim_arg, s')
    \<and> sim_sent (world s') = [0x43, 0x43, 0x06]"
  using sender_can_cancel [OF sim_line_kernel sim_hota_kernel, of
      "serial_static (\<lambda>_. 0) (sim_world [Silence, Byte 0x18, Byte 0x18])" 1 "[]" 4096 100
      sim_platform sim_arg]
  by (auto simp: quiet_def)



section \<open>Which packets are accepted\<close>

lemma uint_0_pred_u8: "uint (- 1 :: u8) \<noteq> - 1"
proof
  assume "uint (- 1 :: u8) = - 1"
  with uint_ge_0 [of "- 1 :: u8"] show False by linarith
qed

text \<open>
  C23: A repeat of the block just received is acknowledged (and counted) without being delivered
  again, except when block numbers have wrapped around to 0: then a well-formed repeat of block 255
  is refused as if it were damaged, so that the sender, which never sees its ACK, repeats it in
  vain. The comparison \<open>xbuff[1] == (unsigned char)*packetno - 1\<close> is done in \<open>int\<close>, where the
  right-hand side is \<open>-1\<close>.
\<close>

theorem wrapped_repeat_refused:
  assumes "length d = nat bufsz" "0 \<le> bufsz" "1 < retrans x"
    and "mem s = mem_write m (xb + 1) (packet_body (use_src x) (packetno x - 1) d)"
  shows "packet_check io xb dz cb bufsz x s =
    (if packetno x = 0 then Some (1, x, s)
     else Some (0, x\<lparr>retrans := retrans x - 1\<rparr>, outbyte io ACK s))"
proof -
  note len = length_packet_body [of "use_src x" "packetno x - 1" d]
  have "packet_valid xb (int (length d)) (packetno x) (use_src x) (mem s)
      = (packetno x - 1 = packetno x \<or> uint (packetno x - 1) = uint (packetno x) - 1)"
    unfolding assms(4) packet_valid_body [OF len] body_valid_packet by (rule refl)
  moreover have "int (length d) = bufsz" using assms(1,2) by simp
  ultimately have pv: "packet_valid xb bufsz (packetno x) (use_src x) (mem s) \<longleftrightarrow> packetno x \<noteq> 0"
    using uint_pred_u8 [of "packetno x"] uint_0_pred_u8 by auto
  have "mem s (xb + 1) = packetno x - 1"
    unfolding assms(4) by (simp add: mem_write_def len body_length_def) (simp add: packet_body_def)
  with pv assms(3) show ?thesis by (simp add: packet_check_def)
qed

lemma wrapped_repeat_refused_witness:
  "packet_check (serial_port sim_kernel) 4096 1000 (xmodemReceiveCB sim_platform sim_kernel) 128
     ((xm_init sim_arg)\<lparr>packetno := 0, use_src := True\<rparr>)
     (serial_static (mem_write (\<lambda>_. 0) 4097 (packet_body True 255 (replicate 128 7))) (sim_world []))
   = Some (1, (xm_init sim_arg)\<lparr>packetno := 0, use_src := True\<rparr>,
       serial_static (mem_write (\<lambda>_. 0) 4097 (packet_body True 255 (replicate 128 7))) (sim_world []))"
proof -
  have e: "(0 :: u8) - 1 = 255" by simp
  let ?x = "(xm_init sim_arg)\<lparr>packetno := 0, use_src := True\<rparr>"
  have "mem (serial_static (mem_write (\<lambda>_. 0) 4097 (packet_body True 255 (replicate 128 7))) (sim_world []))
      = mem_write (\<lambda>_. 0) (4096 + 1) (packet_body (use_src ?x) (packetno ?x - 1) (replicate 128 7))"
    by (simp add: e del: diff_0)
  from wrapped_repeat_refused [OF _ _ _ this, of 128] show ?thesis
    by (simp add: xm_init_def)
qed


definition good_buffer :: memory where
  "good_buffer = (\<lambda>_. 0)(101 := 1, 102 := 254)"

definition damaged_state :: "sim sys" where
  "damaged_state = serial_static (good_buffer(104 := 0x40)) (sim_world [])"


end
