(* ===== verification/Cstring.thy ===== *)
theory Cstring
  imports Machine
begin

text \<open>
  What the OTA console uses of the C library on strings: \<open>strtoul\<close> and \<open>strcmp\<close>. A character
  buffer is its list of bytes. A read past the end of the buffer, which C leaves undefined, is
  \<open>None\<close>. \<open>unsigned long\<close> has 32 bits on this platform. Whether \<open>strtoul\<close> sets \<open>errno\<close> to
  \<open>EINVAL\<close> when there are no digits is up to the library: the flag \<open>einval\<close>.
\<close>

abbreviation (input) ENOERR :: int where "ENOERR \<equiv> 0"
abbreviation (input) EINVAL :: int where "EINVAL \<equiv> 22"
abbreviation (input) ERANGE :: int where "ERANGE \<equiv> 34"
abbreviation (input) ULONG_MAX :: u32 where "ULONG_MAX \<equiv> 0xFFFFFFFF"

definition is_space :: "u8 \<Rightarrow> bool" where
  "is_space c \<longleftrightarrow> c = 32 \<or> 9 \<le> c \<and> c \<le> 13"

definition digit_of :: "nat \<Rightarrow> u8 \<Rightarrow> nat option" where
  "digit_of base c =
     (let d = (if 48 \<le> c \<and> c \<le> 57 then unat c - 48
               else if 97 \<le> c \<and> c \<le> 122 then unat c - 87
               else if 65 \<le> c \<and> c \<le> 90 then unat c - 55 else base)
      in if d < base then Some d else None)"

fun skip_space :: "u8 list \<Rightarrow> u8 list option" where
  "skip_space [] = None"
| "skip_space (c # cs) = (if is_space c then skip_space cs else Some (c # cs))"

fun take_sign :: "u8 list \<Rightarrow> (bool \<times> u8 list) option" where
  "take_sign [] = None"
| "take_sign (c # cs) = Some (if c = 43 then (False, cs) else if c = 45 then (True, cs) else (False, c # cs))"

text \<open>In base 16 a prefix \<open>0x\<close> is skipped if a digit follows.\<close>

fun take_prefix :: "nat \<Rightarrow> u8 list \<Rightarrow> u8 list" where
  "take_prefix base (z # x # d # cs) =
     (if base = 16 \<and> z = 48 \<and> (x = 120 \<or> x = 88) \<and> digit_of 16 d \<noteq> None then d # cs else z # x # d # cs)"
| "take_prefix base cs = cs"

fun take_digits :: "nat \<Rightarrow> u8 list \<Rightarrow> (nat list \<times> u8 list) option" where
  "take_digits base [] = None"
| "take_digits base (c # cs) = (case digit_of base c of
     None \<Rightarrow> Some ([], c # cs)
   | Some d \<Rightarrow> map_option (\<lambda>(ds, r). (d # ds, r)) (take_digits base cs))"

definition digits_value :: "nat \<Rightarrow> nat list \<Rightarrow> nat" where
  "digits_value base ds = foldl (\<lambda>a d. a * base + d) 0 ds"

text \<open>The result: the value, what follows (\<open>*endptr\<close>), and \<open>errno\<close>.\<close>

definition strtoul :: "bool \<Rightarrow> nat \<Rightarrow> u8 list \<Rightarrow> int \<Rightarrow> (u32 \<times> u8 list \<times> int) option" where
  "strtoul einval base cs errno = do {
     s \<leftarrow> skip_space cs;
     (neg, s) \<leftarrow> take_sign s;
     (ds, r) \<leftarrow> take_digits base (take_prefix base s);
     let v = digits_value base ds;
     Some (if ds = [] then (0, cs, if einval then EINVAL else errno)
           else if v > unat ULONG_MAX then (ULONG_MAX, r, ERANGE)
           else (if neg then - of_nat v else of_nat v, r, errno)) }"

text \<open>\<open>strcmp(lit, buf) == 0\<close> for a literal: the buffer holds its characters and a NUL.\<close>

definition strcmp_eq :: "string \<Rightarrow> u8 list \<Rightarrow> bool option" where
  "strcmp_eq lit buf =
     (let l = map of_char lit @ [0] in
      if length buf < length l \<and> take (length buf) l = buf then None
      else Some (take (length l) buf = l))"

section \<open>Decimal numbers are read back\<close>

definition str :: "string \<Rightarrow> u8 list" where
  "str txt = map of_char txt"

lemma digits_read:
  "\<forall>d \<in> set [0, 1, 2, 3, 4, 5, 6, 7, 8, 9]. digit_of 10 (of_char (digit_char d)) = Some d
     \<and> \<not> is_space (of_char (digit_char d)) \<and> (of_char (digit_char d) :: u8) \<notin> {43, 45}"
  by code_simp

lemma digit_read:
  assumes "d < 10"
  shows "digit_of 10 (of_char (digit_char d)) = Some d" "\<not> is_space (of_char (digit_char d))"
    "(of_char (digit_char d) :: u8) \<notin> {43, 45}"
proof -
  have "d \<in> set [0, 1, 2, 3, 4, 5, 6, 7, 8, 9]" using assms by auto
  with digits_read show "digit_of 10 (of_char (digit_char d)) = Some d"
    "\<not> is_space (of_char (digit_char d))" "(of_char (digit_char d) :: u8) \<notin> {43, 45}" by blast+
qed

fun digits_of :: "nat \<Rightarrow> nat list" where
  "digits_of n = (if n < 10 then [n] else digits_of (n div 10) @ [n mod 10])"

declare digits_of.simps [simp del]

lemma show_nat_digits: "show_nat n = map digit_char (digits_of n)"
proof (induction n rule: digits_of.induct)
  case (1 n)
  then show ?case by (subst show_nat.simps, subst digits_of.simps) simp
qed

lemma digits_of_less: "d \<in> set (digits_of n) \<Longrightarrow> d < 10"
proof (induction n rule: digits_of.induct)
  case (1 n)
  then show ?case by (subst (asm) digits_of.simps) (auto split: if_splits)
qed

lemma digits_of_value: "digits_value 10 (digits_of n) = n"
proof (induction n rule: digits_of.induct)
  case (1 n)
  then show ?case by (subst digits_of.simps) (simp add: digits_value_def)
qed

lemma digits_of_nonempty: "digits_of n \<noteq> []"
  by (subst digits_of.simps) simp

lemma take_digits_decimal:
  "\<forall>d \<in> set ds. d < 10 \<Longrightarrow> digit_of 10 c = None \<Longrightarrow>
    take_digits 10 (str (map digit_char ds) @ c # cs) = Some (ds, c # cs)"
  by (induction ds) (simp_all add: str_def digit_read)

lemma strtoul_decimal:
  assumes "n < 4294967296" "digit_of 10 c = None"
  shows "strtoul einval 10 (str (show_nat n) @ c # cs) errno = Some (of_nat n, c # cs, errno)"
proof -
  obtain d ds where dg: "digits_of n = d # ds"
    using digits_of_nonempty by (cases "digits_of n") auto
  have d: "d < 10" using digits_of_less [of d n] dg by simp
  let ?t = "str (map digit_char ds) @ c # cs"
  have tx: "str (show_nat n) @ c # cs = of_char (digit_char d) # ?t"
    by (simp add: show_nat_digits dg str_def)
  have "take_digits 10 (str (show_nat n) @ c # cs) = Some (digits_of n, c # cs)"
    unfolding show_nat_digits using take_digits_decimal [of "digits_of n" c cs] digits_of_less assms(2)
    by blast
  moreover have "skip_space (str (show_nat n) @ c # cs) = Some (str (show_nat n) @ c # cs)"
    "take_sign (str (show_nat n) @ c # cs) = Some (False, str (show_nat n) @ c # cs)"
    unfolding tx using digit_read(2,3) [OF d] by simp_all
  moreover have "take_prefix 10 xs = xs" for xs
    by (induction "10 :: nat" xs rule: take_prefix.induct) simp_all
  ultimately show ?thesis
    using assms(1) digits_of_value [of n] digits_of_nonempty [of n]
    by (simp add: strtoul_def)
qed

end
