(* ===== verification/Console.thy ===== *)
theory Console
  imports Platform Cstring
begin

text \<open>
  The line console of \<open>ota_demo/ota_demo/app.c\<close>: \<open>read_with_echo\<close>, \<open>ReadLine\<close> and \<open>ReadSign\<close>. The
  buffers are local arrays, here lists that keep their length; a buffer that C leaves
  uninitialised is an argument. Plain \<open>char\<close> is signed or not as the platform says.
\<close>

abbreviation (input) READ_BYTE_TIMEOUT_MS :: u32 where "READ_BYTE_TIMEOUT_MS \<equiv> 5000"
abbreviation (input) RADIX_16 :: nat where "RADIX_16 \<equiv> 16"
abbreviation (input) RADIX_10 :: nat where "RADIX_10 \<equiv> 10"
abbreviation (input) HEX_IN_BYTE :: int where "HEX_IN_BYTE \<equiv> 2"
abbreviation (input) ERROR_TIMEOUT :: int where "ERROR_TIMEOUT \<equiv> -1"

definition read_with_echo :: "'w port \<Rightarrow> u32 \<Rightarrow> 'w sys \<Rightarrow> (int \<times> 'w sys) option" where
  "read_with_echo io timeout_ms s = do {
     (c, s) \<leftarrow> port_read io (port_ticks io timeout_ms) s;
     if c > 0 then
       (let (c, s) = (if c = 0x7f then (0x08, port_send io 0x20 (port_send io 0x08 s)) else (c, s))
        in Some (c, port_send io (u8_of_int c) s))
     else Some (c, s) }"

text \<open>The conversion of an \<open>int\<close> to plain \<open>char\<close>, read back as an \<open>int\<close>.\<close>

definition to_char :: "bool \<Rightarrow> int \<Rightarrow> int" where
  "to_char sg c = (if sg then sint (u8_of_int c) else uint (u8_of_int c))"

section \<open>A line\<close>

definition line_step ::
    "'w port \<Rightarrow> bool \<Rightarrow> nat \<times> u8 list \<times> 'w sys
      \<Rightarrow> ((int \<times> u8 list \<times> 'w sys) + (nat \<times> u8 list \<times> 'w sys)) option" where
  "line_step io sg = (\<lambda>(i, buf, s).
     if i < length buf then do {
       (r, s) \<leftarrow> read_with_echo io READ_BYTE_TIMEOUT_MS s;
       let c = to_char sg r;
       Some (if c < 0 then Inl (ERROR_TIMEOUT, buf, s)
             else if c = 13 then Inr (i, buf, s)
             else if c = 10 then Inl (int i, buf, s)
             else if c = 0x08 then
               (if i > 0 then Inr (i - 1, buf[i - 1 := 0], s) else Inr (i, buf, s))
             else Inr (i + 1, buf[i := u8_of_int c], s)) }
     else Some (Inl (int i, buf, s)))"

definition ReadLine :: "'w port \<Rightarrow> bool \<Rightarrow> u8 list \<Rightarrow> 'w sys \<Rightarrow> (int \<times> u8 list \<times> 'w sys) option" where
  "ReadLine io sg buf s = forever (line_step io sg) (0, buf, s)"

section \<open>A signature in hexadecimal\<close>

definition sign_error_msg :: "int \<Rightarrow> u8 list \<Rightarrow> string" where
  "sign_error_msg errno hex = '' === ReadSign:387 errno: '' @ show_int errno @ '' '' @ [CHR 34]
     @ map (char_of \<circ> unat) (takeWhile (\<lambda>c. c \<noteq> 0) hex) @ [CHR 34] @ CRLF"

text \<open>The inner \<open>for\<close> loop, over the pairs of characters of one line; \<open>Inl\<close> is \<open>return -1\<close>.\<close>

function sign_pairs ::
    "bool \<Rightarrow> u8 list \<Rightarrow> nat \<Rightarrow> nat \<Rightarrow> nat \<Rightarrow> u8 list \<Rightarrow> 'w sys
      \<Rightarrow> ((u8 list \<times> 'w sys) + (nat \<times> u8 list \<times> 'w sys)) option" where
  "sign_pairs einval buf res i nbytes sign s =
     (if i < res then do {
        let hex = [buf ! i, buf ! (i + 1), 0];
        (num, r, errno) \<leftarrow> strtoul einval RADIX_16 hex ENOERR;
        if (num = 0 \<or> num = ULONG_MAX) \<and> errno \<noteq> ENOERR
        then Some (Inl (sign, print (sign_error_msg errno hex) s))
        else sign_pairs einval buf res (i + 2) (nbytes + 1) (sign[nbytes := ucast num]) s }
      else Some (Inr (nbytes, sign, s)))"
  by pat_completeness auto
termination sign_pairs
  by (relation "measure (\<lambda>(einval, buf, res, i, nbytes, sign, s). res - i)") auto

declare sign_pairs.simps [simp del]

text \<open>The body of the outer loop, and the loop.\<close>

definition sign_step ::
    "'w port \<Rightarrow> ('c, 'w) platform \<Rightarrow> nat \<times> u8 list \<times> u8 list \<times> 'w sys
      \<Rightarrow> ((int \<times> u8 list \<times> 'w sys) + (nat \<times> u8 list \<times> u8 list \<times> 'w sys)) option" where
  "sign_step io P = (\<lambda>(nbytes, buf, sign, s).
     if nbytes < length sign then do {
       (res, buf, s) \<leftarrow> ReadLine io (char_signed P) buf s;
       if res < 0 then Some (Inl (res, sign, s))
       else if int nbytes + res div HEX_IN_BYTE > int (length sign) then Some (Inl (-1, sign, s))
       else do {
         p \<leftarrow> sign_pairs (strtoul_einval P) buf (nat res) 0 nbytes sign s;
         Some (case p of
             Inl (sign, s) \<Rightarrow> Inl (-1, sign, s)
           | Inr (nbytes, sign, s) \<Rightarrow>
               if nat res < length buf then Inl (int nbytes, sign, s) else Inr (nbytes, buf, sign, s)) } }
     else Some (Inl (int nbytes, sign, s)))"

definition ReadSign ::
    "'w port \<Rightarrow> ('c, 'w) platform \<Rightarrow> u8 list \<Rightarrow> u8 list \<Rightarrow> 'w sys \<Rightarrow> (int \<times> u8 list \<times> 'w sys) option" where
  "ReadSign io P buf sign s = forever (sign_step io P) (0, buf, sign, s)"

section \<open>Safety on every line\<close>

context rx_port
begin

lemma echo_safe:
  assumes "ok s" "read_with_echo io t s = Some (c, s')"
  shows "ok s' \<and> same_rest s s' \<and> (c = -1 \<or> 0 \<le> c \<and> c < 256)"
proof -
  from assms(2) obtain c1 s1 where rd: "port_read io (port_ticks io t) s = Some (c1, s1)"
    by (auto simp: read_with_echo_def bind_eq_Some_conv)
  from read_safe [OF assms(1) rd] have s1: "ok s1" "same_rest s s1" "c1 = -1 \<or> 0 \<le> c1 \<and> c1 < 256"
    by auto
  have snd: "ok x \<and> same_rest s x \<Longrightarrow> ok (port_send io b x) \<and> same_rest s (port_send io b x)" for x b
    using send_safe [of x b] same_rest_trans by blast
  show ?thesis
    using assms(2) rd s1 snd by (auto simp: read_with_echo_def split: if_splits)
qed

text \<open>\<open>ReadLine\<close> stays inside its buffer.\<close>

lemma ReadLine_safe:
  assumes "ok s" "ReadLine io sg buf s = Some (r, buf', s')"
  shows "ok s' \<and> same_rest s s' \<and> length buf' = length buf \<and> (r = -1 \<or> 0 \<le> r \<and> r \<le> int (length buf))"
proof -
  let ?I = "\<lambda>(i, b, x). ok x \<and> same_rest s x \<and> length b = length buf \<and> i \<le> length buf"
  let ?Q = "\<lambda>(r, b, x). ok x \<and> same_rest s x \<and> length b = length buf \<and> (r = -1 \<or> 0 \<le> r \<and> r \<le> int (length buf))"
  have step: "case z of Inl q \<Rightarrow> ?Q q | Inr y' \<Rightarrow> ?I y'" if I: "?I y" and st: "line_step io sg y = Some z" for y z
  proof -
    obtain i b x where y: "y = (i, b, x)" by (cases y)
    show ?thesis
    proof (cases "i < length b")
      case False
      with st I show ?thesis by (auto simp: y line_step_def)
    next
      case True
      with st obtain c x1 where rd: "read_with_echo io 5000 x = Some (c, x1)"
        by (auto simp: y line_step_def bind_eq_Some_conv)
      from echo_safe [OF _ rd] I have "ok x1" "same_rest s x1" by (auto simp: y same_rest_def)
      with st rd True I show ?thesis by (auto simp: y line_step_def Let_def split: if_splits)
    qed
  qed
  have "?Q (r, buf', s')"
  proof (rule forever_rule [OF assms(2) [unfolded ReadLine_def], where I = ?I])
    show "?I (0, buf, s)" using assms(1) by simp
    show "?I y'" if "?I y" "line_step io sg y = Some (Inr y')" for y y' using step [OF that] by simp
    show "?Q z" if "?I y" "line_step io sg y = Some (Inl z)" for y z using step [OF that] by simp
  qed
  then show ?thesis by simp
qed

text \<open>
  \<open>ReadSign\<close> stays inside the signature: every full line adds 16 bytes, a short line at most 16,
  and 128 is a multiple of 16.
\<close>

lemma sign_pairs_step:
  "i < res \<Longrightarrow> sign_pairs einval buf res i nbytes sign s =
    strtoul einval 16 [buf ! i, buf ! (i + 1), 0] ENOERR \<bind> (\<lambda>(num, r, errno).
      if (num = 0 \<or> num = ULONG_MAX) \<and> errno \<noteq> ENOERR
      then Some (Inl (sign, print (sign_error_msg errno [buf ! i, buf ! (i + 1), 0]) s))
      else sign_pairs einval buf res (i + 2) (nbytes + 1) (sign[nbytes := ucast num]) s)"
  by (subst sign_pairs.simps) (simp only: if_True Let_def)

lemma sign_pairs_safe:
  "sign_pairs einval buf res i nbytes sign s = Some z \<Longrightarrow>
    case z of Inl (sign', s') \<Rightarrow> length sign' = length sign \<and> (\<exists>t. s' = print t s)
    | Inr (n', sign', s') \<Rightarrow> length sign' = length sign \<and> s' = s \<and> n' = nbytes + (res - i + 1) div 2"
proof (induction einval buf res i nbytes sign s rule: sign_pairs.induct)
  case (1 einval buf res i nbytes sign s)
  show ?case
  proof (cases "i < res")
    case False
    with "1.prems" show ?thesis by (subst (asm) sign_pairs.simps) auto
  next
    case True
    let ?hex = "[buf ! i, buf ! (i + 1), 0]"
    from "1.prems" True obtain num r errno where st: "strtoul einval 16 ?hex ENOERR = Some (num, r, errno)"
      by (auto simp: sign_pairs_step bind_eq_Some_conv)
    show ?thesis
    proof (cases "(num = 0 \<or> num = ULONG_MAX) \<and> errno \<noteq> ENOERR")
      case err: True
      with "1.prems" True st show ?thesis by (auto simp: sign_pairs_step)
    next
      case False
      with "1.prems" True st have "sign_pairs einval buf res (i + 2) (nbytes + 1) (sign[nbytes := ucast num]) s = Some z"
        by (simp only: sign_pairs_step Option.bind.simps prod.case if_False)
      from "1.IH" [OF True refl st refl refl False this] have IH: "case z of
          Inl (sign', s') \<Rightarrow> length sign' = length sign \<and> (\<exists>t. s' = print t s)
        | Inr (n', sign', s') \<Rightarrow> length sign' = length sign \<and> s' = s \<and> n' = nbytes + 1 + (res - (i + 2) + 1) div 2"
        by (simp only: length_list_update)
      have "nbytes + 1 + (res - (i + 2) + 1) div 2 = nbytes + (res - i + 1) div 2"
      proof (cases "res = i + 1")
        case False
        with True have "res - i + 1 = (res - (i + 2) + 1) + 2" by simp
        then show ?thesis by simp
      qed simp
      with IH show ?thesis by (simp split: sum.splits prod.splits)
    qed
  qed
qed

text \<open>The invariant of \<open>ReadSign\<close>'s loop, and what holds when it ends.\<close>

definition sign_inv :: "memory \<Rightarrow> nat \<times> u8 list \<times> u8 list \<times> 'w sys \<Rightarrow> bool" where
  "sign_inv m = (\<lambda>(n, b, g, x). ok x \<and> mem x = m \<and> length b = 32 \<and> length g = 128 \<and> n mod 16 = 0 \<and> n \<le> 128)"

definition sign_done :: "memory \<Rightarrow> int \<times> u8 list \<times> 'w sys \<Rightarrow> bool" where
  "sign_done m = (\<lambda>(r, g, x). ok x \<and> mem x = m \<and> length g = 128 \<and> (r = -1 \<or> 0 \<le> r \<and> r \<le> 128))"

lemma sign_step_safe:
  assumes I: "sign_inv m (n, b, g, x)" and st: "sign_step io P (n, b, g, x) = Some z"
  shows "case z of Inl q \<Rightarrow> sign_done m q | Inr y' \<Rightarrow> sign_inv m y'"
proof (cases "n < 128")
  case False
  with st I show ?thesis by (auto simp: sign_step_def sign_inv_def sign_done_def)
next
  case True
  with st I obtain res b1 x1 where rl: "ReadLine io (char_signed P) b x = Some (res, b1, x1)"
    by (auto simp: sign_step_def sign_inv_def bind_eq_Some_conv)
  from ReadLine_safe [OF _ rl] I have x1: "ok x1" "mem x1 = m" "length b1 = 32"
    "res = -1 \<or> 0 \<le> res \<and> res \<le> 32" by (auto simp: sign_inv_def same_rest_def)
  show ?thesis
  proof (cases "res < 0 \<or> int n + res div 2 > 128")
    case True
    with st rl x1 \<open>n < 128\<close> I show ?thesis by (auto simp: sign_step_def sign_inv_def sign_done_def split: if_splits)
  next
    case False
    with st rl \<open>n < 128\<close> I obtain p where
      p: "sign_pairs (strtoul_einval P) b1 (nat res) 0 n g x1 = Some p"
      and z: "z = (case p of Inl (sign, s) \<Rightarrow> Inl (-1, sign, s)
         | Inr (nbytes, sign, s) \<Rightarrow>
             if nat res < length b1 then Inl (int nbytes, sign, s) else Inr (nbytes, b1, sign, s))"
      by (auto simp: sign_step_def sign_inv_def bind_eq_Some_conv split: if_splits)
    have n16: "n \<le> 112" "n mod 16 = 0" using I \<open>n < 128\<close> by (auto simp: sign_inv_def)
    have cnt: "n + (nat res - 0 + 1) div 2 \<le> 128"
      using n16 x1(4) by (auto simp: nat_le_iff)
    have full: "(n + (nat res - 0 + 1) div 2) mod 16 = 0" if "\<not> nat res < 32"
    proof -
      have "res = 32" using that x1(4) False by auto
      then show ?thesis using n16 by simp
    qed
    from sign_pairs_safe [OF p] z x1 cnt full I ok_print show ?thesis
      by (auto simp: sign_inv_def sign_done_def split: sum.splits prod.splits if_splits)
  qed
qed

lemma ReadSign_safe:
  assumes "ok s" "length buf = 32" "length sign = 128"
    and run: "ReadSign io P buf sign s = Some (r, sign', s')"
  shows "ok s' \<and> mem s' = mem s \<and> length sign' = 128 \<and> (r = -1 \<or> 0 \<le> r \<and> r \<le> 128)"
proof -
  have "sign_done (mem s) (r, sign', s')"
  proof (rule forever_rule [OF run [unfolded ReadSign_def], where I = "sign_inv (mem s)"])
    show "sign_inv (mem s) (0, buf, sign, s)" using assms by (simp add: sign_inv_def)
    show "sign_inv (mem s) y'" if "sign_inv (mem s) y" "sign_step io P y = Some (Inr y')" for y y'
      using sign_step_safe that by (cases y) fastforce
    show "sign_done (mem s) z" if "sign_inv (mem s) y" "sign_step io P y = Some (Inl z)" for y z
      using sign_step_safe that by (cases y) fastforce
  qed
  then show ?thesis by (simp add: sign_done_def)
qed

end

end
