(* ===== verification/Console_Line.thy ===== *)
theory Console_Line
  imports Console
begin

text \<open>
  What \<open>ReadLine\<close> does with what is typed: the text in the buffer is the abstract edited line
  (a backspace or a DEL removes the last character, a carriage return is ignored), every
  character is echoed; and what it does when nothing is typed.
\<close>

section \<open>The edited line\<close>

definition edit_char :: "u8 list \<Rightarrow> u8 \<Rightarrow> u8 list" where
  "edit_char t c = (if c = 13 then t else if c = 8 \<or> c = 127 then butlast t else t @ [c])"

definition edited :: "u8 list \<Rightarrow> u8 list" where
  "edited cs = foldl edit_char [] cs"

definition echo_char :: "u8 \<Rightarrow> u8 list" where
  "echo_char c = (if c = 0 then [] else if c = 127 then [8, 32, 8] else [c])"

definition echoed :: "u8 list \<Rightarrow> u8 list" where
  "echoed cs = concat (map echo_char cs)"

text \<open>The characters that a console of the platform can take as such.\<close>

definition typable :: "bool \<Rightarrow> u8 \<Rightarrow> bool" where
  "typable sg c \<longleftrightarrow> c \<noteq> 10 \<and> (sg \<longrightarrow> c < 128)"

definition zero_padded :: "nat \<Rightarrow> u8 list \<Rightarrow> u8 list" where
  "zero_padded n t = t @ replicate (n - length t) 0"

lemma length_zero_padded: "length t \<le> n \<Longrightarrow> length (zero_padded n t) = n"
  by (simp add: zero_padded_def)

lemma zero_padded_snoc: "length t < n \<Longrightarrow> (zero_padded n t)[length t := c] = zero_padded n (t @ [c])"
  by (auto simp: zero_padded_def list_update_append Suc_diff_Suc [symmetric])

lemma zero_padded_butlast:
  assumes "t \<noteq> []" "length t \<le> n"
  shows "(zero_padded n t)[length t - 1 := 0] = zero_padded n (butlast t)"
proof -
  obtain u c where t: "t = u @ [c]" using assms(1) by (cases t rule: rev_cases) auto
  with assms(2) show ?thesis
    by (simp add: zero_padded_def list_update_append Suc_diff_Suc [symmetric])
qed

lemma edit_length: "length (edit_char t c) \<le> Suc (length t)"
  by (auto simp: edit_char_def)

lemma to_char_byte:
  fixes c :: u8
  shows "to_char sg (uint c) = (if sg \<and> c \<ge> 128 then uint c - 256 else uint c)"
proof -
  have "odd (n div 128) \<longleftrightarrow> 128 \<le> n" if "0 \<le> n" "n < 256" for n :: int
    using that by presburger
  from this [of "uint c"] have "bit (uint c) 7 \<longleftrightarrow> 128 \<le> uint c"
    by (simp add: bit_iff_odd)
  then have "sint c = (if c \<ge> 128 then uint c - 256 else uint c)"
    by (simp add: sint_uint signed_take_bit_eq_take_bit_minus word_le_def take_bit_int_eq_self)
  then show ?thesis by (simp add: to_char_def)
qed

text \<open>Characters that ReadLine stores as they are.\<close>

definition plain :: "u8 \<Rightarrow> bool" where
  "plain c \<longleftrightarrow> 32 \<le> c \<and> c < 127"

lemma plain_typable: "plain c \<Longrightarrow> typable sg c"
  by (auto simp: plain_def typable_def word_le_nat_alt word_less_nat_alt)

lemma plain_neq: "plain c \<Longrightarrow> c \<noteq> 13 \<and> c \<noteq> 8 \<and> c \<noteq> 127 \<and> c \<noteq> 0 \<and> c \<noteq> 10"
  by (auto simp: plain_def)

context rx_line
begin

text \<open>One character, typed and echoed.\<close>

lemma echo_byte:
  assumes "ok s" "port_ticks io ms \<noteq> 0" "stream s = Byte c # r"
  shows "\<exists>s'. read_with_echo io ms s = Some (if c = 127 then 8 else uint c, s') \<and> ok s' \<and> stream s' = r
    \<and> kept sent obs (echo_char c) s s'"
proof -
  from read_byte [OF assms] obtain s1 where rd: "port_read io (port_ticks io ms) s = Some (uint c, s1)"
    and s1: "stream s1 = r" "sent (world s1) = sent (world s)" "obs (world s1) = obs (world s)" by blast
  have ok1: "ok s1" "mem s1 = mem s" using read_safe [OF assms(1) rd] by (auto simp: same_rest_def)
  have snd: "ok (port_send io b x)" "mem (port_send io b x) = mem x" if "ok x" for b x
    using send_safe [OF that, of b] by (simp_all add: same_rest_def)
  have c0: "uint c > 0 \<longleftrightarrow> c \<noteq> 0" "uint c = 127 \<longleftrightarrow> c = 127"
    using uint_ge_0 [of c] by (auto simp: uint_eq_numeral_u8 order_less_le)
  show ?thesis
    using rd s1 ok1 snd send_line by (simp add: read_with_echo_def c0 echo_char_def kept_def u8_of_int_def)
qed

lemma ticks_5000: "port_ticks io 5000 \<noteq> 0"
  by (rule finite_timeout_nz [OF ticks_finite]) simp_all

lemma echo_quiet:
  assumes "ok s" "quiet (stream s)"
  shows "\<exists>s'. read_with_echo io 5000 s = Some (-1, s') \<and> ok s' \<and> stream s' = tl (stream s)
    \<and> kept sent obs [] s s'"
proof -
  have ft: "finite_timeout (port_ticks io 5000)" by (rule ticks_finite) simp_all
  from read_quiet [OF assms(1) ft assms(2)] obtain s1 where rd: "port_read io (port_ticks io 5000) s = Some (-1, s1)"
    and s1: "stream s1 = tl (stream s)" "sent (world s1) = sent (world s)" "obs (world s1) = obs (world s)" by blast
  have "ok s1" "mem s1 = mem s" using read_safe [OF assms(1) rd] by (auto simp: same_rest_def)
  with rd s1 show ?thesis by (simp add: read_with_echo_def kept_def)
qed

lemma typed_char:
  assumes "ok s" "stream s = Byte c # r" "typable sg c" "length t < n"
  shows "\<exists>s'. line_step io sg (length t, zero_padded n t, s)
      = Some (Inr (length (edit_char t c), zero_padded n (edit_char t c), s')) \<and> ok s' \<and> stream s' = r
    \<and> kept sent obs (echo_char c) s s'"
proof -
  from echo_byte [OF assms(1) ticks_5000 assms(2)] obtain s' where
    rd: "read_with_echo io 5000 s = Some (if c = 127 then 8 else uint c, s')" and s': "ok s'" "stream s' = r"
    "kept sent obs (echo_char c) s s'" by blast
  let ?c = "if c = 127 then 8 else c"
  have e: "to_char sg (if c = 127 then 8 else uint c) = uint ?c"
    using assms(3) to_char_byte [of sg ?c] by (auto simp: typable_def split: if_splits)
  have e2: "to_char sg (uint c) = uint c"
    using assms(3) to_char_byte [of sg c] by (auto simp: typable_def)
  have cs: "uint ?c \<ge> 0" "uint ?c = 13 \<longleftrightarrow> c = 13" "uint ?c = 10 \<longleftrightarrow> c = 10" "uint ?c = 8 \<longleftrightarrow> c = 8 \<or> c = 127"
    "u8_of_int (uint ?c) = ?c"
    by (auto simp: uint_eq_numeral_u8)
  have len: "length (zero_padded n t) = n" using assms(4) by (simp add: length_zero_padded)
  have "line_step io sg (length t, zero_padded n t, s)
      = Some (Inr (length (edit_char t c), zero_padded n (edit_char t c), s'))"
    using assms(3,4) rd cs zero_padded_snoc [OF assms(4), of c] zero_padded_butlast [of t n]
    by (auto simp: line_step_def len e e2 Let_def edit_char_def typable_def simp del: uint_0_iff)
  with s' show ?thesis by blast
qed

lemma typed_line:
  "ok s \<Longrightarrow> stream s = map Byte cs @ Byte 10 # r \<Longrightarrow> \<forall>c \<in> set cs. typable sg c \<Longrightarrow> length t + length cs < n \<Longrightarrow>
    \<exists>s'. forever (line_step io sg) (length t, zero_padded n t, s)
      = Some (int (length (foldl edit_char t cs)), zero_padded n (foldl edit_char t cs), s')
    \<and> ok s' \<and> stream s' = r \<and> kept sent obs (echoed cs @ [10]) s s'"
proof (induction cs arbitrary: s t)
  case Nil
  from echo_byte [OF Nil(1) ticks_5000, of 10 r] Nil(2) obtain s' where
    rd: "read_with_echo io 5000 s = Some (10, s')" and s': "ok s'" "stream s' = r"
    "kept sent obs (echo_char 10) s s'" by auto
  have "line_step io sg (length t, zero_padded n t, s) = Some (Inl (int (length t), zero_padded n t, s'))"
    using Nil(4) to_char_byte [of sg 10] by (simp add: line_step_def rd Let_def length_zero_padded)
  from forever_Inl [of "line_step io sg", OF this] s' show ?case
    by (simp add: echo_char_def echoed_def)
next
  case (Cons c cs)
  from typed_char [OF Cons.prems(1), of c "map Byte cs @ Byte 10 # r" sg t n] Cons.prems obtain s1 where
    st: "line_step io sg (length t, zero_padded n t, s)
      = Some (Inr (length (edit_char t c), zero_padded n (edit_char t c), s1))" and s1: "ok s1"
    "stream s1 = map Byte cs @ Byte 10 # r" "kept sent obs (echo_char c) s s1" by auto
  have "length (edit_char t c) + length cs < n"
    using Cons.prems(4) edit_length [of t c] by simp
  from Cons.IH [OF s1(1,2) _ this] Cons.prems(3) obtain s' where
    lp: "forever (line_step io sg) (length (edit_char t c), zero_padded n (edit_char t c), s1)
      = Some (int (length (foldl edit_char t (c # cs))), zero_padded n (foldl edit_char t (c # cs)), s')"
    and s': "ok s'" "stream s' = r" "kept sent obs (echoed cs @ [10]) s1 s'" by auto
  have "kept sent obs (echoed (c # cs) @ [10]) s s'"
    using kept_trans [OF s1(3) s'(3)] by (simp add: echoed_def)
  with forever_Inr [of "line_step io sg", OF st] lp s' show ?case by auto
qed

text \<open>Plain characters fill the buffer, whatever it holds.\<close>

lemma plain_step:
  assumes "ok s" "stream s = Byte c # r" "plain c" "i < length buf"
  shows "\<exists>s'. line_step io sg (i, buf, s) = Some (Inr (i + 1, buf[i := c], s')) \<and> ok s' \<and> stream s' = r
    \<and> kept sent obs [c] s s'"
proof -
  note c = plain_neq [OF assms(3)]
  from echo_byte [OF assms(1) ticks_5000 assms(2)] c obtain s' where
    rd: "read_with_echo io 5000 s = Some (uint c, s')" and s': "ok s'" "stream s' = r" "kept sent obs [c] s s'"
    by (auto simp: echo_char_def)
  have "to_char sg (uint c) = uint c" using to_char_byte [of sg c] assms(3)
    by (auto simp: plain_def word_le_nat_alt word_less_nat_alt)
  moreover have "uint c \<noteq> 13" "uint c \<noteq> 10" "uint c \<noteq> 8" "\<not> uint c < 0"
    using c uint_ge_0 [of c] by (auto simp: uint_eq_numeral_u8)
  ultimately have "line_step io sg (i, buf, s) = Some (Inr (i + 1, buf[i := c], s'))"
    using assms(4) by (simp add: line_step_def rd Let_def)
  with s' show ?thesis by blast
qed

lemma plain_chars:
  "ok s \<Longrightarrow> stream s = map Byte cs @ r \<Longrightarrow> \<forall>c \<in> set cs. plain c \<Longrightarrow> i + length cs \<le> length buf \<Longrightarrow>
    \<exists>s'. forever (line_step io sg) (i, buf, s)
      = forever (line_step io sg) (i + length cs, take i buf @ cs @ drop (i + length cs) buf, s')
    \<and> ok s' \<and> stream s' = r \<and> kept sent obs cs s s'"
proof (induction cs arbitrary: s i buf)
  case (Cons c cs)
  from plain_step [OF Cons.prems(1), of c "map Byte cs @ r" i buf sg] Cons.prems obtain s1 where
    st: "line_step io sg (i, buf, s) = Some (Inr (i + 1, buf[i := c], s1))"
    and s1: "ok s1" "stream s1 = map Byte cs @ r" "kept sent obs [c] s s1" by auto
  have "i + 1 + length cs \<le> length (buf[i := c])" using Cons.prems(4) by simp
  from Cons.IH [OF s1(1,2) _ this] Cons.prems(3) obtain s2 where
    lp: "forever (line_step io sg) (i + 1, buf[i := c], s1) = forever (line_step io sg)
      (i + 1 + length cs, take (i + 1) (buf[i := c]) @ cs @ drop (i + 1 + length cs) (buf[i := c]), s2)"
    and s2: "ok s2" "stream s2 = r" "kept sent obs cs s1 s2" by auto
  have "take (i + 1) (buf[i := c]) = take i buf @ [c]"
    using Cons.prems(4) by (simp add: take_Suc_conv_app_nth)
  with lp forever_Inr [of "line_step io sg", OF st] s2 kept_trans [OF s1(3) s2(3)] show ?case
    by (intro exI [of _ s2]) simp
qed (auto intro!: exI)

lemma full_line:
  assumes "ok s" "stream s = map Byte cs @ r" "\<forall>c \<in> set cs. plain c" "length cs = length buf"
  shows "\<exists>s'. ReadLine io sg buf s = Some (int (length buf), cs, s') \<and> ok s' \<and> stream s' = r
    \<and> kept sent obs cs s s'"
proof -
  from plain_chars [OF assms(1-3), of 0 buf sg] assms(4) obtain s' where
    lp: "forever (line_step io sg) (0, buf, s) = forever (line_step io sg) (length buf, cs, s')"
    and s': "ok s'" "stream s' = r" "kept sent obs cs s s'" by auto
  have "line_step io sg (length buf, cs, s') = Some (Inl (int (length buf), cs, s'))"
    using assms(4) by (simp add: line_step_def)
  from forever_Inl [of "line_step io sg", OF this] lp s' show ?thesis by (simp add: ReadLine_def)
qed

lemma short_line:
  assumes "ok s" "stream s = map Byte cs @ Byte 10 # r" "\<forall>c \<in> set cs. plain c" "length cs < length buf"
  shows "\<exists>s'. ReadLine io sg buf s = Some (int (length cs), cs @ drop (length cs) buf, s') \<and> ok s' \<and> stream s' = r
    \<and> kept sent obs (cs @ [10]) s s'"
proof -
  from plain_chars [OF assms(1-3), of 0 buf sg] assms(4) obtain s1 where
    lp: "forever (line_step io sg) (0, buf, s) = forever (line_step io sg) (length cs, cs @ drop (length cs) buf, s1)"
    and s1: "ok s1" "stream s1 = Byte 10 # r" "kept sent obs cs s s1" by auto
  from echo_byte [OF s1(1) ticks_5000 s1(2)] obtain s' where
    rd: "read_with_echo io 5000 s1 = Some (10, s')" and s': "ok s'" "stream s' = r" "kept sent obs [10] s1 s'"
    by (auto simp: echo_char_def)
  have "line_step io sg (length cs, cs @ drop (length cs) buf, s1)
      = Some (Inl (int (length cs), cs @ drop (length cs) buf, s'))"
    using assms(4) to_char_byte [of sg 10] by (simp add: line_step_def rd Let_def)
  from forever_Inl [of "line_step io sg", OF this] lp s' kept_trans [OF s1(3) s'(3)] show ?thesis
    by (auto simp: ReadLine_def)
qed

text \<open>A signed \<open>char\<close> shows the timeout of the first byte.\<close>

lemma silent_line_signed:
  assumes "ok s" "quiet (stream s)" "buf \<noteq> []"
  shows "\<exists>s'. ReadLine io True buf s = Some (-1, buf, s') \<and> ok s' \<and> stream s' = tl (stream s)
    \<and> kept sent obs [] s s'"
proof -
  from echo_quiet [OF assms(1,2)] obtain s1 where rd: "read_with_echo io 5000 s = Some (-1, s1)"
    and s1: "ok s1" "stream s1 = tl (stream s)" "kept sent obs [] s s1" by blast
  have "line_step io True (0, buf, s) = Some (Inl (-1, buf, s1))"
    using assms(3) by (simp add: line_step_def rd to_char_def u8_of_int_def)
  from forever_Inl [of "line_step io True", OF this] s1 show ?thesis by (simp add: ReadLine_def)
qed

text \<open>Nothing typed: a signed \<open>char\<close> shows the timeout, an unsigned one stores 255.\<close>

lemma silent_line:
  "ok s \<Longrightarrow> stream s = [] \<Longrightarrow> i \<le> length buf \<Longrightarrow> take i buf = replicate i 255 \<Longrightarrow>
    \<exists>s'. forever (line_step io False) (i, buf, s) = Some (int (length buf), replicate (length buf) 255, s')
      \<and> ok s' \<and> kept sent obs [] s s'"
proof (induction "length buf - i" arbitrary: i buf s)
  case 0
  then have "line_step io False (i, buf, s) = Some (Inl (int (length buf), replicate (length buf) 255, s))"
    by (simp add: line_step_def)
  from forever_Inl [of "line_step io False", OF this] 0 show ?case by auto
next
  case (Suc k)
  from echo_quiet [OF Suc.prems(1)] Suc.prems(2) obtain s1 where rd: "read_with_echo io 5000 s = Some (-1, s1)"
    and s1: "ok s1" "stream s1 = []" "kept sent obs [] s s1" by (auto simp: quiet_def)
  have m1: "u8_of_int (- 1) = 255" "u8_of_int 255 = 255" by (simp_all add: u8_of_int_def)
  have st: "line_step io False (i, buf, s) = Some (Inr (i + 1, buf[i := 255], s1))"
    using Suc.hyps(2) by (simp add: line_step_def rd to_char_def m1 Let_def)
  have "take (i + 1) (buf[i := 255]) = replicate (i + 1) 255"
    using Suc.hyps(2) Suc.prems(4) by (simp add: take_Suc_conv_app_nth replicate_append_same)
  moreover have "k = length (buf[i := 255]) - (i + 1)" "i + 1 \<le> length (buf[i := 255])"
    using Suc.hyps(2) by simp_all
  ultimately have "\<exists>s'. forever (line_step io False) (i + 1, buf[i := 255], s1)
      = Some (int (length (buf[i := 255])), replicate (length (buf[i := 255])) 255, s')
      \<and> ok s' \<and> kept sent obs [] s1 s'"
    using Suc.hyps(1) s1(1,2) by blast
  with forever_Inr [of "line_step io False", OF st] kept_trans [OF s1(3)] show ?case by fastforce
qed

end

end
