(* ===== verification/Commands.thy ===== *)
theory Commands
  imports Console_Line
begin

text \<open>
  The commands of the OTA console (\<open>ota_demo/ota_demo/app.c\<close>): upload over XMODEM, print and hash a
  partition, check a signature, cancel, restart, roll back and debug; \<open>CommandProcess\<close>, which reads
  and dispatches one command; the task that repeats it; and the start of the application. A command
  may sleep for ever (\<open>None\<close>), end with its code, or do what C leaves undefined (\<open>Undefined\<close>:
  \<open>strtoul\<close> on a line that fills its buffer and so has no terminator, or a write through the null
  pointer that \<open>malloc\<close> returned). The task goes on when it got no work buffer: a null one is then
  the address 0, as the code uses it.
\<close>

abbreviation (input) XMODEM_BUF_SIZE :: nat where "XMODEM_BUF_SIZE \<equiv> 1024"
abbreviation (input) LOS_WAIT_FOREVER :: u32 where "LOS_WAIT_FOREVER \<equiv> 0xFFFFFFFF"
abbreviation (input) OTA_UART_TASK_PRIO :: nat where "OTA_UART_TASK_PRIO \<equiv> 7"
abbreviation (input) OTA_THREAD_STACK_SIZE :: nat where "OTA_THREAD_STACK_SIZE \<equiv> 1024 * 16"

datatype CommandType =
    COMMAND_TYPE_ERROR_TIMEOUT | COMMAND_TYPE_ERROR_PREAMBLE | COMMAND_TYPE_ERROR_WRONG_COMMAND
  | COMMAND_TYPE_ERROR_WRONG_ARGS | COMMAND_TYPE_UPLOAD | COMMAND_TYPE_PRINT | COMMAND_TYPE_CANCEL
  | COMMAND_TYPE_ERASE | COMMAND_TYPE_HASH_SHA256 | COMMAND_TYPE_RESTART | COMMAND_TYPE_ROLLBACK
  | COMMAND_TYPE_DEBUG | COMMAND_TYPE_SIGN

fun command_code :: "CommandType \<Rightarrow> int" where
  "command_code COMMAND_TYPE_ERROR_TIMEOUT = -1"
| "command_code COMMAND_TYPE_ERROR_PREAMBLE = -2"
| "command_code COMMAND_TYPE_ERROR_WRONG_COMMAND = -3"
| "command_code COMMAND_TYPE_ERROR_WRONG_ARGS = -4"
| "command_code COMMAND_TYPE_UPLOAD = 0"
| "command_code COMMAND_TYPE_PRINT = 1"
| "command_code COMMAND_TYPE_CANCEL = 2"
| "command_code COMMAND_TYPE_ERASE = 3"
| "command_code COMMAND_TYPE_HASH_SHA256 = 4"
| "command_code COMMAND_TYPE_RESTART = 5"
| "command_code COMMAND_TYPE_ROLLBACK = 6"
| "command_code COMMAND_TYPE_DEBUG = 7"
| "command_code COMMAND_TYPE_SIGN = 8"

datatype outcome = Command CommandType | Undefined

record OTA_AppState =
  hash :: "u8 list"
  workBuf :: nat

section \<open>Upload\<close>

definition sha256_msg :: "u8 list \<Rightarrow> string" where
  "sha256_msg h = ''sha256: '' @ hex_dump h @ CRLF"

definition CommandRunUpload ::
    "'w kernel \<Rightarrow> ('c, 'w) platform \<Rightarrow> int \<Rightarrow> int \<Rightarrow> OTA_AppState \<Rightarrow> 'w sys
      \<Rightarrow> (OTA_AppState \<times> 'w sys) option" where
  "CommandRunUpload K P arg1 arg2 state s = do {
     let arg = \<lparr>sz = arg1, start = arg2, sha256 = AppSha256Init P\<rparr>;
     (res, arg, s) \<leftarrow> xmodemReceive (serial_port K) (workBuf state) arg1 (xmodemReceiveCB P K) arg s;
     let state = state\<lparr>hash := AppSha256Finish P (sha256 arg)\<rparr>;
     Some (state, print (sha256_msg (hash state)) s) }"

section \<open>Print and hash a partition\<close>

text \<open>A read into the work buffer; the result of \<open>HotaRead\<close> is not looked at.\<close>

definition read_work :: "('c, 'w) platform \<Rightarrow> u32 \<Rightarrow> nat \<Rightarrow> nat \<Rightarrow> 'w sys \<Rightarrow> 'w sys" where
  "read_work P addr n buf s =
     (let ((ret, bytes), w) = HotaRead P addr (of_nat n) (world s)
      in s\<lparr>world := w, mem := mem_write (mem s) buf (take n bytes)\<rparr>)"

definition print_work :: "u32 \<Rightarrow> u32 \<Rightarrow> nat \<Rightarrow> nat \<Rightarrow> nat \<Rightarrow> 'w sys \<Rightarrow> 'w sys" where
  "print_work st addr n bufLen buf s =
     print (''Read['' @ show_nat (unat st) @ '' '' @ show_nat (unat addr) @ '' '' @ show_nat n @ '' ''
       @ show_nat bufLen @ '']: {'' @ hex_dump (mem_read (mem s) buf n) @ ''}'' @ CRLF) s"

text \<open>The loops over whole pages. \<open>bufLen\<close> is below \<open>2 ^ 31\<close>, so the counters do not wrap.\<close>

function print_pages :: "('c, 'w) platform \<Rightarrow> u32 \<Rightarrow> nat \<Rightarrow> nat \<Rightarrow> nat \<Rightarrow> nat \<Rightarrow> 'w sys \<Rightarrow> 'w sys" where
  "print_pages P st bufLen buf offset nxt s =
     (if nxt < bufLen then
        (let s = read_work P (st + of_nat offset) XMODEM_BUF_SIZE buf s;
             s = print_work st (st + of_nat offset) XMODEM_BUF_SIZE bufLen buf s
         in print_pages P st bufLen buf nxt (nxt + XMODEM_BUF_SIZE) s)
      else s)"
  by pat_completeness auto
termination print_pages
  by (relation "measure (\<lambda>(P, st, bufLen, buf, offset, nxt, s). bufLen - nxt)") auto

declare print_pages.simps [simp del]

definition page_args :: "int \<Rightarrow> int \<Rightarrow> u32 \<times> nat" where
  "page_args arg1 arg2 = (u32_of_int arg1, nat (if arg2 \<ge> 0 then arg2 else 256))"

definition CommandRunPrint ::
    "('c, 'w) platform \<Rightarrow> int \<Rightarrow> int \<Rightarrow> OTA_AppState \<Rightarrow> 'w sys \<Rightarrow> 'w sys" where
  "CommandRunPrint P arg1 arg2 state s =
     (let (st, bufLen) = page_args arg1 arg2;
          s = print_pages P st bufLen (workBuf state) 0 XMODEM_BUF_SIZE s;
          rm = bufLen mod XMODEM_BUF_SIZE
      in if rm \<noteq> 0 then
           (let addr = st + of_nat bufLen - of_nat rm;
                s = read_work P addr rm (workBuf state) s
            in print_work st addr rm bufLen (workBuf state) s)
         else s)"

function hash_pages ::
    "('c, 'w) platform \<Rightarrow> u32 \<Rightarrow> nat \<Rightarrow> nat \<Rightarrow> nat \<Rightarrow> nat \<Rightarrow> 'c \<times> 'w sys \<Rightarrow> 'c \<times> 'w sys" where
  "hash_pages P st bufLen buf offset nxt (ctx, s) =
     (if nxt < bufLen then
        (let s = read_work P (st + of_nat offset) XMODEM_BUF_SIZE buf s;
             ctx = AppSha256Update P (mem_read (mem s) buf XMODEM_BUF_SIZE) ctx
         in hash_pages P st bufLen buf nxt (nxt + XMODEM_BUF_SIZE) (ctx, s))
      else (ctx, s))"
  by pat_completeness auto
termination hash_pages
  by (relation "measure (\<lambda>(P, st, bufLen, buf, offset, nxt, c). bufLen - nxt)") auto

declare hash_pages.simps [simp del]

definition CommandRunHashSha256 ::
    "('c, 'w) platform \<Rightarrow> int \<Rightarrow> int \<Rightarrow> OTA_AppState \<Rightarrow> 'w sys \<Rightarrow> 'w sys" where
  "CommandRunHashSha256 P arg1 arg2 state s =
     (let (st, bufLen) = page_args arg1 arg2;
          (ctx, s) = hash_pages P st bufLen (workBuf state) 0 XMODEM_BUF_SIZE (AppSha256Init P, s);
          rm = bufLen mod XMODEM_BUF_SIZE;
          (ctx, s) = (if rm \<noteq> 0 then
              (let s = read_work P (st + of_nat bufLen - of_nat rm) rm (workBuf state) s
               in (AppSha256Update P (mem_read (mem s) (workBuf state) rm) ctx, s))
            else (ctx, s))
      in print (sha256_msg (AppSha256Finish P ctx)) s)"

section \<open>Signature\<close>

text \<open>A local array that is not initialised.\<close>

definition local_array :: "('c, 'w) platform \<Rightarrow> nat \<Rightarrow> 'w sys \<Rightarrow> u8 list" where
  "local_array P n s = take n (uninit P (world s) @ replicate n 0)"

definition check_signature ::
    "'w kernel \<Rightarrow> ('c, 'w) platform \<Rightarrow> u8 list \<Rightarrow> u8 list \<Rightarrow> 'w sys \<Rightarrow> 'w sys" where
  "check_signature K P h sign s =
     (let s = call K Mbedtls_pk_init s;
          ((keyBuf, length), w) = HotaGetPubKey P (world s);
          s = s\<lparr>world := w\<rparr>;
          s = (if keyBuf = None then print (''Get key fail'' @ CRLF) s else s);
          (parseRet, s) = do_call K (Mbedtls_pk_parse_public_key keyBuf length) s
      in if parseRet \<noteq> 0 then print (''Parse public key failed.'' @ CRLF) s
         else (let s = call K Mbedtls_rsa_set_padding s;
                   s = call K Mbedtls_entropy_init s;
                   (ret, s) = do_call K (Mbedtls_rsa_pkcs1_verify h sign) s;
                   s = print ((if ret \<noteq> 0 then ''Sign check fail!'' else ''Sign check success!'') @ CRLF) s
               in call K Mbedtls_pk_free s))"

definition CommandRunSign ::
    "'w kernel \<Rightarrow> ('c, 'w) platform \<Rightarrow> OTA_AppState \<Rightarrow> 'w sys \<Rightarrow> 'w sys option" where
  "CommandRunSign K P state s = do {
     (len, sign, s) \<leftarrow> ReadSign (serial_port K) P (local_array P 32 s) (local_array P 128 s) s;
     Some (if len < 0 then print ('' === ERROR CommandRunSign:478 res: '' @ show_int len @ CRLF) s
           else check_signature K P (hash state) sign s) }"

section \<open>Cancel, restart, roll back\<close>

definition CommandRunCancel :: "'w kernel \<Rightarrow> 'w sys \<Rightarrow> 'w sys" where
  "CommandRunCancel K s = call K HotaSetPackageType (call K HotaInit (call K HotaCancel s))"

definition CommandRunRestart :: "'w kernel \<Rightarrow> 'w sys \<Rightarrow> 'w sys" where
  "CommandRunRestart K s =
     (let (ret, s) = do_call K HotaRestart s in print (''HotaRestart() =  '' @ show_int ret @ CRLF) s)"

definition CommandRunRollback :: "'w kernel \<Rightarrow> 'w sys \<Rightarrow> 'w sys" where
  "CommandRunRollback K s =
     (let (ret, s) = do_call K HotaHalRollback s
      in print (''HotaHalRollback() =  '' @ show_int ret @ CRLF) s)"

definition OtaErrorCallBack :: "int \<Rightarrow> 'w sys \<Rightarrow> 'w sys" where
  "OtaErrorCallBack errorCode s =
     print ('' === OtaErrorCallBack:347 errorCode: '' @ show_int errorCode @ CRLF) s"

definition OtaStatusCallBack :: "int \<Rightarrow> 'w sys \<Rightarrow> 'w sys" where
  "OtaStatusCallBack status s =
     print ('' === OtaStatusCallBack:352 status: '' @ show_int status @ CRLF) s"

section \<open>Debug\<close>

text \<open>\<open>printf("%02x", p[i])\<close> with \<open>p\<close> a plain \<open>char\<close> pointer: a negative one is printed as an \<open>int\<close>.\<close>

definition hex_char :: "bool \<Rightarrow> u8 \<Rightarrow> string" where
  "hex_char sg b = (if sg \<and> b \<ge> 128 then ''ffffff'' @ hex2 b else hex2 b)"

definition errno_msg :: "string \<Rightarrow> int \<Rightarrow> string" where
  "errno_msg place errno = '' === '' @ place @ '' errno: '' @ show_int errno @ CRLF"

text \<open>A failed conversion: \<open>((num == 0) || (ULONG_MAX == num)) && (ENOERR != errno)\<close>.\<close>

definition strtoul_failed :: "u32 \<Rightarrow> int \<Rightarrow> bool" where
  "strtoul_failed num errno \<longleftrightarrow> (num = 0 \<or> ULONG_MAX = num) \<and> ENOERR \<noteq> errno"

definition malloc_ptr_of :: "('c, 'w) platform \<Rightarrow> u32 \<Rightarrow> 'w sys \<Rightarrow> nat \<times> 'w sys" where
  "malloc_ptr_of P n s = (let (p, w) = malloc_ptr P n (world s) in (p, s\<lparr>world := w\<rparr>))"

definition debug_dump ::
    "('c, 'w) platform \<Rightarrow> u8 \<Rightarrow> u32 \<Rightarrow> u32 \<Rightarrow> 'w sys \<Rightarrow> outcome \<times> 'w sys" where
  "debug_dump P c addr n s =
     (let (p, s) = (if c = 102 then malloc_ptr_of P n s else (unat addr, s))
      in if c = 102 \<and> p = NULL \<and> n \<noteq> 0 then (Undefined, s)
         else
           (let s = (if c = 102 then
                  (let (bytes, w) = flash_read_page P addr n (world s)
                   in s\<lparr>world := w, mem := mem_write (mem s) p (take (unat n) bytes)\<rparr>)
                else s)
            in (Command COMMAND_TYPE_DEBUG,
                print (''Debug('' @ [char_of (unat c)] @ ''): ''
                  @ concat (map (hex_char (char_signed P)) (mem_read (mem s) p (unat n))) @ CRLF) s)))"

definition CommandRunDebug ::
    "('c, 'w) platform \<Rightarrow> u8 list \<Rightarrow> 'w sys \<Rightarrow> outcome \<times> 'w sys" where
  "CommandRunDebug P buf s =
     (let c = buf ! 0
      in if c \<noteq> 109 \<and> c \<noteq> 102 then (Command COMMAND_TYPE_ERROR_WRONG_COMMAND, s)
         else case strtoul (strtoul_einval P) RADIX_10 (drop 1 buf) ENOERR of
           None \<Rightarrow> (Undefined, s)
         | Some (addr, p, errno) \<Rightarrow>
             if strtoul_failed addr errno
             then (Command COMMAND_TYPE_ERROR_WRONG_ARGS, print (errno_msg ''CommandRunDebug:539'' errno) s)
             else (case strtoul (strtoul_einval P) RADIX_10 p errno of
               None \<Rightarrow> (Undefined, s)
             | Some (n, p, errno) \<Rightarrow>
                 if strtoul_failed n errno
                 then debug_dump P c addr 1 (print (errno_msg ''CommandRunDebug:544'' errno) s)
                 else debug_dump P c addr n s))"

section \<open>One command\<close>

text \<open>The letter after the brace.\<close>

definition command_of :: "int \<Rightarrow> CommandType option" where
  "command_of c =
     (if c = 117 then Some COMMAND_TYPE_UPLOAD
      else if c = 112 then Some COMMAND_TYPE_PRINT
      else if c = 99 then Some COMMAND_TYPE_CANCEL
      else if c = 104 then Some COMMAND_TYPE_HASH_SHA256
      else if c = 114 then Some COMMAND_TYPE_RESTART
      else if c = 98 then Some COMMAND_TYPE_ROLLBACK
      else if c = 100 then Some COMMAND_TYPE_DEBUG
      else if c = 115 then Some COMMAND_TYPE_SIGN
      else None)"

text \<open>Upload, print and hash, with their two numbers; a missing second one is \<open>UINT32_MAX\<close>.\<close>

definition run_with_args ::
    "'w kernel \<Rightarrow> ('c, 'w) platform \<Rightarrow> CommandType \<Rightarrow> u8 list \<Rightarrow> OTA_AppState \<Rightarrow> 'w sys
      \<Rightarrow> (outcome \<times> OTA_AppState \<times> 'w sys) option" where
  "run_with_args K P cmd buf state s =
     (case strtoul (strtoul_einval P) RADIX_10 buf ENOERR of
        None \<Rightarrow> Some (Undefined, state, s)
      | Some (arg1, p, errno) \<Rightarrow>
          if strtoul_failed arg1 errno
          then Some (Command COMMAND_TYPE_ERROR_WRONG_ARGS, state,
                 print (errno_msg ''CommandProcess:630'' errno) s)
          else (case strtoul (strtoul_einval P) RADIX_10 p errno of
            None \<Rightarrow> Some (Undefined, state, s)
          | Some (arg2, p, errno) \<Rightarrow>
              (let (arg2, s) = (if strtoul_failed arg2 errno
                     then (0xFFFFFFFF, print (errno_msg ''CommandProcess:635'' errno) s) else (arg2, s));
                   a1 = int_of_u32 arg1;
                   a2 = int_of_u32 arg2
               in if cmd = COMMAND_TYPE_UPLOAD then do {
                    (state, s) \<leftarrow> CommandRunUpload K P a1 a2 state s;
                    Some (Command cmd, state, s) }
                  else if cmd = COMMAND_TYPE_PRINT then Some (Command cmd, state, CommandRunPrint P a1 a2 state s)
                  else Some (Command cmd, state, CommandRunHashSha256 P a1 a2 state s))))"

text \<open>The commands that are words: \<open>strcmp\<close> with the rest of the line.\<close>

definition run_word ::
    "string \<Rightarrow> u8 list \<Rightarrow> CommandType \<Rightarrow> ('w sys \<Rightarrow> 'w sys) \<Rightarrow> OTA_AppState \<Rightarrow> 'w sys
      \<Rightarrow> outcome \<times> OTA_AppState \<times> 'w sys" where
  "run_word w buf cmd f state s =
     (case strcmp_eq w buf of
        None \<Rightarrow> (Undefined, state, s)
      | Some eq \<Rightarrow> (Command cmd, state, if eq then f s else s))"

definition run_command ::
    "'w kernel \<Rightarrow> ('c, 'w) platform \<Rightarrow> CommandType \<Rightarrow> u8 list \<Rightarrow> OTA_AppState \<Rightarrow> 'w sys
      \<Rightarrow> (outcome \<times> OTA_AppState \<times> 'w sys) option" where
  "run_command K P cmd buf state s =
     (if cmd = COMMAND_TYPE_UPLOAD \<or> cmd = COMMAND_TYPE_PRINT \<or> cmd = COMMAND_TYPE_HASH_SHA256
      then run_with_args K P cmd buf state s
      else if cmd = COMMAND_TYPE_CANCEL
      then Some (run_word ''ancel'' buf cmd (CommandRunCancel K) state s)
      else if cmd = COMMAND_TYPE_RESTART
      then Some (run_word ''estart'' buf cmd (CommandRunRestart K) state s)
      else if cmd = COMMAND_TYPE_ROLLBACK
      then Some (run_word ''ack'' buf cmd (CommandRunRollback K) state s)
      else if cmd = COMMAND_TYPE_DEBUG
      then (let (out, s) = CommandRunDebug P buf s in Some (out, state, s))
      else Some (Command cmd, state, s))"

definition CommandProcess ::
    "'w kernel \<Rightarrow> ('c, 'w) platform \<Rightarrow> OTA_AppState \<Rightarrow> 'w sys
      \<Rightarrow> (outcome \<times> OTA_AppState \<times> 'w sys) option" where
  "CommandProcess K P state s = do {
     (c, s) \<leftarrow> read_with_echo (serial_port K) LOS_WAIT_FOREVER s;
     if c < 0 then Some (Command COMMAND_TYPE_ERROR_TIMEOUT, state, s)
     else if c \<noteq> 123 then Some (Command COMMAND_TYPE_ERROR_PREAMBLE, state, s)
     else do {
       (c, s) \<leftarrow> read_with_echo (serial_port K) READ_BYTE_TIMEOUT_MS s;
       if c < 0 then Some (Command COMMAND_TYPE_ERROR_TIMEOUT, state, s)
       else case command_of c of
         None \<Rightarrow> Some (Command COMMAND_TYPE_ERROR_WRONG_COMMAND, state, s)
       | Some COMMAND_TYPE_SIGN \<Rightarrow> do {
           s \<leftarrow> CommandRunSign K P state s;
           Some (Command COMMAND_TYPE_SIGN, state, s) }
       | Some cmd \<Rightarrow> do {
           (res, buf, s) \<leftarrow> ReadLine (serial_port K) (char_signed P) (replicate 32 0) s;
           if res < 0 then Some (Command COMMAND_TYPE_ERROR_TIMEOUT, state, s)
           else run_command K P cmd buf state s } } }"

section \<open>The task and the start of the application\<close>

text \<open>\<open>n\<close> rounds of the task's endless loop; a command with no defined behaviour ends the run.\<close>

fun ota_rounds ::
    "'w kernel \<Rightarrow> ('c, 'w) platform \<Rightarrow> nat \<Rightarrow> OTA_AppState \<Rightarrow> 'w sys
      \<Rightarrow> (outcome list \<times> OTA_AppState \<times> 'w sys) option" where
  "ota_rounds K P 0 state s = Some ([], state, s)"
| "ota_rounds K P (Suc n) state s = do {
     (out, state, s) \<leftarrow> CommandProcess K P state s;
     case out of
       Undefined \<Rightarrow> Some ([Undefined], state, s)
     | Command cmd \<Rightarrow> do {
         let s = print ('' === OTA_TestThread:683 cmd: '' @ show_int (command_code cmd) @ CRLF) s;
         (outs, state, s) \<leftarrow> ota_rounds K P n state s;
         Some (out # outs, state, s) } }"

text \<open>The task before its loop: the work buffer, the serial port, the state.\<close>

definition OTA_TestThread_init ::
    "'w kernel \<Rightarrow> ('c, 'w) platform \<Rightarrow> 'w sys \<Rightarrow> OTA_AppState \<times> 'w sys" where
  "OTA_TestThread_init K P s =
     (let s = print ('' === OTA_TestThread:667'' @ CRLF) s;
          (workBuff, s) = malloc_ptr_of P (of_nat (XMODEM_BUF_SIZE + 6)) s;
          s = (if workBuff = NULL then print (''OTA_TestThread: Memory allocation error!'' @ CRLF) s else s);
          s = SerialInit K s
      in (\<lparr>hash = replicate 32 0, workBuf = workBuff\<rparr>, s))"

definition OTA_TestThread ::
    "'w kernel \<Rightarrow> ('c, 'w) platform \<Rightarrow> nat \<Rightarrow> 'w sys \<Rightarrow> (outcome list \<times> OTA_AppState \<times> 'w sys) option" where
  "OTA_TestThread K P n s = (let (state, s) = OTA_TestThread_init K P s in ota_rounds K P n state s)"

definition OtaUartTestInit :: "'w kernel \<Rightarrow> 'w sys \<Rightarrow> 'w sys" where
  "OtaUartTestInit K s =
     (let s = call K HotaInit s;
          s = call K HotaSetPackageType s;
          (ret, s) = do_call K (LOS_TaskCreate ''OTA_TestThread'' OTA_THREAD_STACK_SIZE OTA_UART_TASK_PRIO) s
      in if ret \<noteq> 0 then print (''Create Task failed! ERROR: 0x'' @ show_hex (u32_of_int ret) @ CRLF) s
         else s)"

text \<open>\<open>banner\<close> is the text of the two \<open>printf\<close>s, with the build date and the address of \<open>AppMain\<close>.\<close>

definition AppMain :: "'w kernel \<Rightarrow> string \<Rightarrow> 'w sys \<Rightarrow> 'w sys" where
  "AppMain K banner s = OtaUartTestInit K (print banner s)"

end
