(* ===== verification/Command_Safe.thy ===== *)
theory Command_Safe
  imports Commands
begin

text \<open>
  What the commands leave alone, for every kernel, line and platform: the driver is idle after each
  command, and only the work buffer of 1030 bytes is written, except by the debug command.
\<close>

definition tidy :: "nat \<Rightarrow> 'w sys \<Rightarrow> 'w sys \<Rightarrow> bool" where
  "tidy p s s' \<longleftrightarrow> serial_idle s' \<and> within p 1030 (mem s) (mem s')"

lemma within_trans: "within p n m m1 \<Longrightarrow> within p n m1 m2 \<Longrightarrow> within p n m m2"
  by (simp add: within_def)

lemma tidy_refl: "serial_idle s \<Longrightarrow> tidy p s s"
  by (simp add: tidy_def within_def)

lemma tidy_trans [trans]: "tidy p s s1 \<Longrightarrow> tidy p s1 s2 \<Longrightarrow> tidy p s s2"
  by (auto simp: tidy_def intro: within_trans)

lemma tidy_idle: "tidy p s s' \<Longrightarrow> serial_idle s'"
  by (simp add: tidy_def)

lemma tidy_print [simp]: "tidy p s (print t s') = tidy p s s'"
  by (simp add: tidy_def)

lemma tidy_call [simp]: "tidy p s (call K c s') = tidy p s s'"
  by (simp add: tidy_def)

lemma tidy_world [simp]: "tidy p s (s'\<lparr>world := w\<rparr>) = tidy p s s'"
  by (simp add: tidy_def)

lemma tidy_do_call: "do_call K c s1 = (r, s2) \<Longrightarrow> tidy p s s2 = tidy p s s1"
  using tidy_call [of p s K c s1] by (simp add: call_def)

lemma tidy_same_rest: "serial_idle s' \<Longrightarrow> same_rest s s' \<Longrightarrow> tidy p s s'"
  by (simp add: tidy_def same_rest_def within_def)

text \<open>Pages of a partition.\<close>

lemma tidy_read_work: "serial_idle s \<Longrightarrow> n \<le> 1024 \<Longrightarrow> tidy p s (read_work P addr n p s)"
  by (auto simp: read_work_def tidy_def within_def mem_write_def split: prod.split)

lemma tidy_read_work_from: "tidy p s s1 \<Longrightarrow> n \<le> 1024 \<Longrightarrow> tidy p s (read_work P addr n p s1)"
  by (rule tidy_trans [OF _ tidy_read_work [OF tidy_idle]])

lemma tidy_print_work [simp]: "tidy p s (print_work st addr n bufLen p s') = tidy p s s'"
  by (simp add: print_work_def)

text \<open>What every read of a page and every message keeps, the loops over pages keep.\<close>

lemma print_pages_inv:
  assumes "\<And>a s. I s \<Longrightarrow> I (read_work P a 1024 buf s)" "\<And>txt s. I s \<Longrightarrow> I (print txt s)"
  shows "I s \<Longrightarrow> I (print_pages P st bufLen buf offset nxt s)"
proof (induction "bufLen - nxt" arbitrary: offset nxt s rule: less_induct)
  case less
  show ?case
  proof (cases "nxt < bufLen")
    case True
    have "I (print_work st (st + of_nat offset) 1024 bufLen buf (read_work P (st + of_nat offset) 1024 buf s))"
      using less.prems assms by (simp add: print_work_def)
    from less.hyps [OF _ this] True show ?thesis
      by (subst print_pages.simps) (simp add: Let_def)
  qed (use less.prems in \<open>subst print_pages.simps; simp\<close>)
qed

lemma hash_pages_inv:
  assumes "\<And>a s. I s \<Longrightarrow> I (read_work P a 1024 buf s)"
  shows "I s \<Longrightarrow> I (snd (hash_pages P st bufLen buf offset nxt (ctx, s)))"
proof (induction "bufLen - nxt" arbitrary: offset nxt ctx s rule: less_induct)
  case less
  show ?case
  proof (cases "nxt < bufLen")
    case True
    from less.hyps [OF _ assms [OF less.prems]] True show ?thesis
      by (subst hash_pages.simps) (simp add: Let_def)
  qed (use less.prems in \<open>subst hash_pages.simps; simp\<close>)
qed

lemma CommandRunPrint_inv:
  assumes "\<And>a n s. n \<le> 1024 \<Longrightarrow> I s \<Longrightarrow> I (read_work P a n (workBuf state) s)" "\<And>txt s. I s \<Longrightarrow> I (print txt s)"
    and "I s"
  shows "I (CommandRunPrint P a1 a2 state s)"
  using print_pages_inv [of I P "workBuf state", OF assms(1,2) assms(3)] assms(1,2)
  by (simp add: CommandRunPrint_def print_work_def page_args_def Let_def)

lemma CommandRunHashSha256_inv:
  assumes "\<And>a n s. n \<le> 1024 \<Longrightarrow> I s \<Longrightarrow> I (read_work P a n (workBuf state) s)" "\<And>txt s. I s \<Longrightarrow> I (print txt s)"
    and "I s"
  shows "I (CommandRunHashSha256 P a1 a2 state s)"
proof -
  obtain ctx s1 where hp: "hash_pages P (u32_of_int a1) (snd (page_args a1 a2)) (workBuf state) 0 1024
      (AppSha256Init P, s) = (ctx, s1)" by force
  from hash_pages_inv [of I P "workBuf state", OF assms(1) assms(3)] hp have "I s1" by (metis le_refl snd_conv)
  with hp assms(1,2) show ?thesis
    by (auto simp: CommandRunHashSha256_def page_args_def Let_def)
qed

lemma tidy_CommandRunPrint: "serial_idle s \<Longrightarrow> tidy (workBuf state) s (CommandRunPrint P a1 a2 state s)"
  by (rule CommandRunPrint_inv) (simp_all add: tidy_read_work_from tidy_refl)

lemma tidy_CommandRunHashSha256:
  "serial_idle s \<Longrightarrow> tidy (workBuf state) s (CommandRunHashSha256 P a1 a2 state s)"
  by (rule CommandRunHashSha256_inv) (simp_all add: tidy_read_work_from tidy_refl)

text \<open>The other commands.\<close>

lemma tidy_CommandRunUpload:
  assumes "serial_idle s" "a1 < 2147483648" "CommandRunUpload K P a1 a2 state s = Some (state', s')"
  shows "tidy (workBuf state) s s' \<and> workBuf state' = workBuf state"
proof -
  let ?a = "\<lparr>sz = a1, start = a2, sha256 = AppSha256Init P\<rparr>"
  from assms(3) obtain r a s1 where
    x: "xmodemReceive (serial_port K) (workBuf state) a1 (xmodemReceiveCB P K) ?a s = Some (r, a, s1)"
    and s': "s' = print (sha256_msg (AppSha256Finish P (sha256 a))) s1"
      "state' = state\<lparr>hash := AppSha256Finish P (sha256 a)\<rparr>"
    by (auto simp: CommandRunUpload_def Let_def bind_eq_Some_conv)
  from serial_xm.xmodemReceive_ok [OF assms(2,1) x] show ?thesis
    by (auto simp: s' tidy_def within_def)
qed

lemma tidy_CommandRunSign:
  assumes "serial_idle s" "CommandRunSign K P state s = Some s'"
  shows "tidy p s s'"
proof -
  from assms(2) obtain len sign s1 where
    rs: "ReadSign (serial_port K) P (local_array P 32 s) (local_array P 128 s) s = Some (len, sign, s1)"
    and s': "s' = (if len < 0 then print ('' === ERROR CommandRunSign:478 res: '' @ show_int len @ CRLF) s1
           else check_signature K P (hash state) sign s1)"
    by (auto simp: CommandRunSign_def bind_eq_Some_conv)
  have arr: "length (local_array P n s) = n" for n by (simp add: local_array_def)
  from serial_rx.ReadSign_safe [OF assms(1) arr arr rs] have "tidy p s s1"
    by (simp add: tidy_def within_def)
  moreover have "tidy p s s1 \<Longrightarrow> tidy p s (check_signature K P (hash state) sign s1)"
    by (auto simp: check_signature_def Let_def tidy_do_call split: prod.split)
  ultimately show ?thesis by (simp add: s')
qed

lemma tidy_words:
  "serial_idle s \<Longrightarrow> tidy p s (CommandRunCancel K s)"
  "serial_idle s \<Longrightarrow> tidy p s (CommandRunRestart K s)"
  "serial_idle s \<Longrightarrow> tidy p s (CommandRunRollback K s)"
  by (auto simp: CommandRunCancel_def CommandRunRestart_def CommandRunRollback_def tidy_refl tidy_do_call
      split: prod.split)

lemma tidy_run_word:
  assumes "\<And>s. serial_idle s \<Longrightarrow> tidy p s (f s)" "serial_idle s" "run_word w buf cmd f state s = (out, state', s')"
  shows "tidy p s s' \<and> state' = state"
  using assms by (auto simp: run_word_def tidy_refl split: option.splits if_splits)

lemma debug_idle: "serial_idle s \<Longrightarrow> CommandRunDebug P buf s = (out, s') \<Longrightarrow> serial_idle s'"
  by (auto simp: CommandRunDebug_def debug_dump_def malloc_ptr_of_def Let_def
      split: option.splits if_splits prod.splits)

lemma int_of_u32_less: "int_of_u32 w < 2147483648"
  using sint_lt [of w] by (simp add: int_of_u32_def)

lemma print_empty [simp]: "print [] s = s"
  by (simp add: print_def)

text \<open>How a command with numbers ends: refused with a message, or as one of the three commands.\<close>

lemma run_with_args_cases:
  assumes "run_with_args K P cmd buf state s = Some (out, state', s')"
  obtains (Refused) t where "state' = state" "s' = print t s"
    | (Upload) a1 a2 t where "out = Command COMMAND_TYPE_UPLOAD" "a1 < 2147483648"
        "CommandRunUpload K P a1 a2 state (print t s) = Some (state', s')"
    | (Pages) a1 a2 t where "state' = state"
        "s' = CommandRunPrint P a1 a2 state (print t s) \<or> s' = CommandRunHashSha256 P a1 a2 state (print t s)"
proof -
  consider (none) "state' = state" "s' = s"
    | (fail) errno where "state' = state" "s' = print (errno_msg ''CommandProcess:630'' errno) s"
    | (run) arg1 p errno arg2 q errno2 where "strtoul (strtoul_einval P) 10 buf 0 = Some (arg1, p, errno)"
        "\<not> strtoul_failed arg1 errno" "strtoul (strtoul_einval P) 10 p errno = Some (arg2, q, errno2)"
    using assms by (auto simp: run_with_args_def split: option.splits if_splits prod.splits)
  then show thesis
  proof cases
    case none
    with Refused [of "[]"] show thesis by simp
  next
    case fail
    with Refused show thesis by blast
  next
    case run
    define t where "t = (if strtoul_failed arg2 errno2 then errno_msg ''CommandProcess:635'' errno2 else [])"
    define a2 where "a2 = int_of_u32 (if strtoul_failed arg2 errno2 then 0xFFFFFFFF else arg2)"
    have "run_with_args K P cmd buf state s =
        (if cmd = COMMAND_TYPE_UPLOAD then do {
           (state, s) \<leftarrow> CommandRunUpload K P (int_of_u32 arg1) a2 state (print t s);
           Some (Command cmd, state, s) }
         else if cmd = COMMAND_TYPE_PRINT
         then Some (Command cmd, state, CommandRunPrint P (int_of_u32 arg1) a2 state (print t s))
         else Some (Command cmd, state, CommandRunHashSha256 P (int_of_u32 arg1) a2 state (print t s)))"
      using run by (simp add: run_with_args_def t_def a2_def)
    with assms Upload [OF _ int_of_u32_less] Pages [of "int_of_u32 arg1" a2 t] show thesis
      by (auto simp: bind_eq_Some_conv split: if_splits)
  qed
qed

lemma tidy_run_with_args:
  assumes "serial_idle s" "run_with_args K P cmd buf state s = Some (out, state', s')"
  shows "tidy (workBuf state) s s' \<and> workBuf state' = workBuf state"
proof -
  have pr: "serial_idle (print t s)" "tidy (workBuf state) s (print t s)" for t
    using assms(1) by (simp_all add: tidy_refl)
  from assms(2) show ?thesis
  proof (cases rule: run_with_args_cases)
    case (Upload a1 a2 t)
    from tidy_CommandRunUpload [OF pr(1) this(2,3)] tidy_trans [OF pr(2)] show ?thesis by blast
  next
    case (Pages a1 a2 t)
    with tidy_trans [OF pr(2) tidy_CommandRunPrint [OF pr(1)]]
      tidy_trans [OF pr(2) tidy_CommandRunHashSha256 [OF pr(1)]] show ?thesis by blast
  qed (use pr in simp)
qed

lemma tidy_run_command:
  assumes "serial_idle s" "run_command K P cmd buf state s = Some (out, state', s')"
  shows "serial_idle s' \<and> workBuf state' = workBuf state \<and> (cmd = COMMAND_TYPE_DEBUG \<or> tidy (workBuf state) s s')"
proof -
  from assms(2) consider "run_with_args K P cmd buf state s = Some (out, state', s')"
    | "run_word ''ancel'' buf cmd (CommandRunCancel K) state s = (out, state', s')"
    | "run_word ''estart'' buf cmd (CommandRunRestart K) state s = (out, state', s')"
    | "run_word ''ack'' buf cmd (CommandRunRollback K) state s = (out, state', s')"
    | "cmd = COMMAND_TYPE_DEBUG" "CommandRunDebug P buf s = (out, s')" "state' = state"
    | "s' = s" "state' = state"
    by (auto simp: run_command_def split: if_splits prod.splits)
  then show ?thesis
  proof cases
    case 1
    from tidy_run_with_args [OF assms(1) this] tidy_idle show ?thesis by blast
  next
    case 2
    from tidy_run_word [OF tidy_words(1) assms(1) 2, of "workBuf state"] show ?thesis by (auto simp: tidy_def)
  next
    case 3
    from tidy_run_word [OF tidy_words(2) assms(1) 3, of "workBuf state"] show ?thesis by (auto simp: tidy_def)
  next
    case 4
    from tidy_run_word [OF tidy_words(3) assms(1) 4, of "workBuf state"] show ?thesis by (auto simp: tidy_def)
  next
    case 5
    with debug_idle [OF assms(1)] show ?thesis by blast
  next
    case 6
    with tidy_refl [OF assms(1)] assms(1) show ?thesis by simp
  qed
qed

text \<open>The debug command is the only one that returns its code.\<close>

lemma debug_outcome:
  "run_command K P COMMAND_TYPE_DEBUG buf state s = Some (out, state', s') \<Longrightarrow>
    out \<noteq> Command COMMAND_TYPE_DEBUG \<Longrightarrow> mem s' = mem s"
  by (auto simp: run_command_def CommandRunDebug_def debug_dump_def malloc_ptr_of_def Let_def
      split: option.splits if_splits prod.splits)

text \<open>The command after its letter.\<close>

definition after_letter ::
    "'w kernel \<Rightarrow> ('c, 'w) platform \<Rightarrow> CommandType \<Rightarrow> OTA_AppState \<Rightarrow> 'w sys
      \<Rightarrow> (outcome \<times> OTA_AppState \<times> 'w sys) option" where
  "after_letter K P cmd state s =
     (if cmd = COMMAND_TYPE_SIGN then do {
        s \<leftarrow> CommandRunSign K P state s;
        Some (Command COMMAND_TYPE_SIGN, state, s) }
      else do {
        (res, buf, s) \<leftarrow> ReadLine (serial_port K) (char_signed P) (replicate 32 0) s;
        if res < 0 then Some (Command COMMAND_TYPE_ERROR_TIMEOUT, state, s)
        else run_command K P cmd buf state s })"

lemma CommandProcess_letter:
  assumes "read_with_echo (serial_port K) 0xFFFFFFFF s = Some (123, s1)"
    and "read_with_echo (serial_port K) 5000 s1 = Some (c, s2)" "\<not> c < 0" "command_of c = Some cmd"
  shows "CommandProcess K P state s = after_letter K P cmd state s2"
  using assms by (cases cmd) (simp_all add: CommandProcess_def after_letter_def)

lemma after_letter_tidy:
  assumes "serial_idle s" "after_letter K P cmd state s = Some (out, state', s')"
  shows "serial_idle s' \<and> workBuf state' = workBuf state
    \<and> (out = Command COMMAND_TYPE_DEBUG \<or> within (workBuf state) 1030 (mem s) (mem s'))"
proof (cases "cmd = COMMAND_TYPE_SIGN")
  case True
  with assms(2) have "CommandRunSign K P state s = Some s'" "state' = state"
    by (auto simp: after_letter_def bind_eq_Some_conv)
  with tidy_CommandRunSign [OF assms(1), of K P state s' "workBuf state"] show ?thesis
    by (simp add: tidy_def)
next
  case False
  with assms(2) obtain res buf s3 where
    rl: "ReadLine (serial_port K) (char_signed P) (replicate 32 0) s = Some (res, buf, s3)"
    and rest: "s' = s3 \<and> state' = state \<or> run_command K P cmd buf state s3 = Some (out, state', s')"
    by (auto simp: after_letter_def bind_eq_Some_conv split: if_splits)
  from serial_rx.ReadLine_safe [OF assms(1) rl] tidy_same_rest
  have s3: "serial_idle s3" "tidy (workBuf state) s s3" by blast+
  show ?thesis
    using rest
  proof
    assume run: "run_command K P cmd buf state s3 = Some (out, state', s')"
    have "out = Command COMMAND_TYPE_DEBUG \<or> within (workBuf state) 1030 (mem s3) (mem s')"
      if "cmd = COMMAND_TYPE_DEBUG"
      using debug_outcome [OF run [unfolded that]] by (auto simp: within_def)
    with tidy_run_command [OF s3(1) run] s3(2) show ?thesis
      using within_trans [of "workBuf state" 1030 "mem s" "mem s3" "mem s'"] by (auto simp: tidy_def)
  qed (use s3 in \<open>simp add: tidy_def\<close>)
qed

text \<open>One command: refused before its line is read, or run after its letter.\<close>

lemma CommandProcess_cases:
  assumes "serial_idle s" "CommandProcess K P state s = Some (out, state', s')"
  obtains (Refused) "state' = state" "serial_idle s'" "mem s' = mem s"
    | (Letter) cmd s1 where "serial_idle s1" "mem s1 = mem s" "after_letter K P cmd state s1 = Some (out, state', s')"
proof -
  from assms(2) obtain c s1 where rd: "read_with_echo (serial_port K) 0xFFFFFFFF s = Some (c, s1)"
    by (auto simp: CommandProcess_def bind_eq_Some_conv)
  have s1: "serial_idle s1" "mem s1 = mem s"
    using serial_rx.echo_safe [OF assms(1) rd] by (auto simp: same_rest_def)
  show thesis
  proof (cases "c = 123")
    case False
    with assms(2) rd s1 Refused show thesis by (auto simp: CommandProcess_def split: if_splits)
  next
    case True
    with assms(2) rd obtain d s2 where rd2: "read_with_echo (serial_port K) 5000 s1 = Some (d, s2)"
      by (auto simp: CommandProcess_def bind_eq_Some_conv)
    have s2: "serial_idle s2" "mem s2 = mem s"
      using serial_rx.echo_safe [OF s1(1) rd2] s1(2) by (auto simp: same_rest_def)
    show thesis
    proof (cases "d < 0 \<or> command_of d = None")
      case bad: True
      with assms(2) rd rd2 True have "s' = s2" "state' = state"
        by (auto simp: CommandProcess_def split: if_splits)
      with s2 Refused show thesis by simp
    next
      case False
      then obtain cmd where cmd: "command_of d = Some cmd" "\<not> d < 0" by auto
      from CommandProcess_letter [OF rd [unfolded True] rd2 cmd(2,1), of P state] assms(2)
      have "after_letter K P cmd state s2 = Some (out, state', s')" by simp
      with Letter s2 show thesis by blast
    qed
  qed
qed

lemma CommandProcess_tidy:
  assumes "serial_idle s" "CommandProcess K P state s = Some (out, state', s')"
  shows "serial_idle s' \<and> workBuf state' = workBuf state
    \<and> (out = Command COMMAND_TYPE_DEBUG \<or> within (workBuf state) 1030 (mem s) (mem s'))"
  using assms
proof (cases rule: CommandProcess_cases)
  case (Letter cmd s1)
  with after_letter_tidy [OF this(1,3)] show ?thesis by simp
qed (simp add: within_def)

end
