(* ===== verification/Command_Line.thy ===== *)
theory Command_Line
  imports Command_Safe
begin

text \<open>
  What one call of \<open>CommandProcess\<close> does with what is typed, on a kernel that behaves as
  documented: garbage before the brace, a command letter and its line, a decimal argument, and a
  line that never comes.
\<close>

lemmas serial_typed_line = rx_line.typed_line [OF serial_rx_line]
lemmas serial_echo_byte = rx_line.echo_byte [OF serial_rx_line]
lemmas serial_echo_quiet = rx_line.echo_quiet [OF serial_rx_line]
lemmas serial_ticks = rx_line.ticks_5000 [OF serial_rx_line] rx_line.ticks_forever [OF serial_rx_line]

text \<open>The first two bytes of a command.\<close>

lemma typed_garbage:
  assumes L: "line_kernel K line pend sent obs" and "serial_idle s"
    and "serial_stream line s = Byte c # r" "c \<noteq> 123"
  shows "\<exists>s'. CommandProcess K P state s = Some (Command COMMAND_TYPE_ERROR_PREAMBLE, state, s')
    \<and> serial_idle s' \<and> serial_stream line s' = r \<and> kept sent obs (echo_char c) s s'"
proof -
  from serial_echo_byte [OF L assms(2) serial_ticks(2) [OF L] assms(3)] obtain s' where
    rd: "read_with_echo (serial_port K) 0xFFFFFFFF s = Some (if c = 127 then 8 else uint c, s')"
    and s': "serial_idle s'" "serial_stream line s' = r" "kept sent obs (echo_char c) s s'" by blast
  have "uint c = 123 \<longleftrightarrow> c = 123" by (auto simp: uint_eq_numeral_u8)
  with assms(4) have "(if c = 127 then 8 else uint c) \<noteq> 123" "\<not> (if c = 127 then 8 else uint c) < 0"
    using uint_ge_0 [of c] by simp_all
  with rd s' show ?thesis by (simp add: CommandProcess_def)
qed

lemma typed_header:
  assumes L: "line_kernel K line pend sent obs" and "serial_idle s"
    and "serial_stream line s = Byte 123 # Byte c # r" and cmd: "command_of (uint c) = Some cmd"
  shows "\<exists>s'. CommandProcess K P state s = after_letter K P cmd state s'
    \<and> serial_idle s' \<and> serial_stream line s' = r \<and> kept sent obs [123, c] s s'"
proof -
  have c: "c \<noteq> 127" "c \<noteq> 0"
    using cmd by (auto simp: command_of_def)
  from serial_echo_byte [OF L assms(2) serial_ticks(2) [OF L] assms(3)] obtain s1 where
    r1: "read_with_echo (serial_port K) 0xFFFFFFFF s = Some (123, s1)"
    and s1: "serial_idle s1" "serial_stream line s1 = Byte c # r" "kept sent obs [123] s s1"
    by (auto simp: echo_char_def)
  from serial_echo_byte [OF L s1(1) serial_ticks(1) [OF L] s1(2)] c obtain s2 where
    r2: "read_with_echo (serial_port K) 5000 s1 = Some (uint c, s2)"
    and s2: "serial_idle s2" "serial_stream line s2 = r" "kept sent obs [c] s1 s2"
    by (auto simp: echo_char_def)
  have "\<not> uint c < 0" using uint_ge_0 [of c] by linarith
  from CommandProcess_letter [OF r1 r2 this cmd] kept_trans [OF s1(3) s2(3)] s2 show ?thesis
    by auto
qed

lemma edited_length: "length (foldl edit_char t cs) \<le> length t + length cs"
proof (induction cs arbitrary: t)
  case (Cons c cs)
  from Cons.IH [of "edit_char t c"] edit_length [of t c] show ?case by simp
qed simp

lemma typed_command:
  assumes L: "line_kernel K line pend sent obs" and "serial_idle s"
    and "serial_stream line s = Byte 123 # Byte c # map Byte cs @ Byte 10 # r"
    and cmd: "command_of (uint c) = Some cmd" "cmd \<noteq> COMMAND_TYPE_SIGN"
    and cs: "\<forall>c \<in> set cs. typable (char_signed P) c" "length cs < 32"
  shows "\<exists>s'. CommandProcess K P state s = run_command K P cmd (zero_padded 32 (edited cs)) state s'
    \<and> serial_idle s' \<and> serial_stream line s' = r \<and> kept sent obs (123 # c # echoed cs @ [10]) s s'"
proof -
  from typed_header [OF L assms(2,3) cmd(1), of P state] obtain s1 where
    cp: "CommandProcess K P state s = after_letter K P cmd state s1"
    and s1: "serial_idle s1" "serial_stream line s1 = map Byte cs @ Byte 10 # r" "kept sent obs [123, c] s s1"
    by blast
  from serial_typed_line [OF L s1(1,2) cs(1), of "[]" 32] cs(2) obtain s2 where
    "ReadLine (serial_port K) (char_signed P) (replicate 32 0) s1
      = Some (int (length (edited cs)), zero_padded 32 (edited cs), s2)"
    and s2: "serial_idle s2" "serial_stream line s2 = r" "kept sent obs (echoed cs @ [10]) s1 s2"
    by (auto simp: ReadLine_def zero_padded_def edited_def)
  then have "CommandProcess K P state s = run_command K P cmd (zero_padded 32 (edited cs)) state s2"
    using cmd(2) by (simp add: cp after_letter_def)
  moreover have "kept sent obs (123 # c # echoed cs @ [10]) s s2"
    using kept_trans [OF s1(3) s2(3)] by simp
  ultimately show ?thesis using s2 by blast
qed

section \<open>Plain text\<close>

lemma edited_plain_from: "\<forall>c \<in> set cs. plain c \<Longrightarrow> foldl edit_char t cs = t @ cs"
proof (induction cs arbitrary: t)
  case (Cons c cs)
  with plain_neq [of c] show ?case by (simp add: edit_char_def)
qed simp

lemma edited_plain: "\<forall>c \<in> set cs. plain c \<Longrightarrow> edited cs = cs"
  by (simp add: edited_def edited_plain_from)

lemma echoed_plain: "\<forall>c \<in> set cs. plain c \<Longrightarrow> echoed cs = cs"
proof (induction cs)
  case (Cons c cs)
  with plain_neq [of c] show ?case by (simp add: echoed_def echo_char_def)
qed (simp add: echoed_def)

lemma plain_digits: "\<forall>d \<in> set [0, 1, 2, 3, 4, 5, 6, 7, 8, 9]. plain (of_char (digit_char d))"
  by code_simp

lemma plain_number: "\<forall>c \<in> set (str (show_nat n)). plain c"
proof -
  have "plain (of_char (digit_char d))" if "d \<in> set (digits_of n)" for d
  proof -
    have "d \<in> set [0, 1, 2, 3, 4, 5, 6, 7, 8, 9]" using digits_of_less [OF that] by auto
    with plain_digits show ?thesis by blast
  qed
  then show ?thesis by (auto simp: str_def show_nat_digits)
qed

lemma digits_of_length: "n < 10 ^ Suc k \<Longrightarrow> length (digits_of n) \<le> Suc k"
proof (induction k arbitrary: n)
  case 0
  then show ?case by (subst digits_of.simps) simp
next
  case (Suc k)
  then have "n div 10 < 10 ^ Suc k" by (simp add: div_less_iff_less_mult)
  from Suc.IH [OF this] show ?case by (subst digits_of.simps) simp
qed

lemma number_length: "n < 2147483648 \<Longrightarrow> length (str (show_nat n)) \<le> 10"
  using digits_of_length [of n 9] by (simp add: str_def show_nat_digits)

text \<open>Two decimal arguments on a line.\<close>

lemma strtoul_space:
  "strtoul einval b cs errno = Some (v, r, errno) \<Longrightarrow> r \<noteq> cs \<Longrightarrow> strtoul einval b (32 # cs) errno = Some (v, r, errno)"
  by (auto simp: strtoul_def bind_eq_Some_conv is_space_def Let_def split: if_splits)

lemma strtoul_next:
  assumes "n < 4294967296" "digit_of 10 c = None"
  shows "strtoul einval 10 (32 # str (show_nat n) @ c # cs) errno = Some (of_nat n, c # cs, errno)"
proof (rule strtoul_space [OF strtoul_decimal [OF assms]])
  show "c # cs \<noteq> str (show_nat n) @ c # cs"
    using digits_of_nonempty [of n] by (auto simp: str_def show_nat_digits)
qed

lemma no_digit: "digit_of 10 32 = None" "digit_of 10 0 = None" "digit_of 10 255 = None"
  by code_simp+

lemma str_append: "str (a @ b) = str a @ str b"
  by (simp add: str_def)

lemma of_nat_int_u32: "n < 2147483648 \<Longrightarrow> int_of_u32 (of_nat n) = int n"
  by (simp add: int_of_u32_def signed_of_nat signed_take_bit_int_eq_self)

definition two_numbers :: "nat \<Rightarrow> nat \<Rightarrow> u8 list" where
  "two_numbers n off = str (show_nat n) @ 32 # str (show_nat off)"

lemma two_numbers_plain: "\<forall>c \<in> set (two_numbers n off). plain c"
  using plain_number by (auto simp: two_numbers_def plain_def)

lemma two_numbers_length: "n < 2147483648 \<Longrightarrow> off < 2147483648 \<Longrightarrow> length (two_numbers n off) < 32"
  using number_length [of n] number_length [of off] by (simp add: two_numbers_def)

lemma run_two_numbers:
  assumes "n < 2147483648" "off < 2147483648"
  shows "run_with_args K P cmd (zero_padded 32 (two_numbers n off)) state s =
    (if cmd = COMMAND_TYPE_UPLOAD then do {
       (state, s) \<leftarrow> CommandRunUpload K P (int n) (int off) state s;
       Some (Command cmd, state, s) }
     else if cmd = COMMAND_TYPE_PRINT then Some (Command cmd, state, CommandRunPrint P (int n) (int off) state s)
     else Some (Command cmd, state, CommandRunHashSha256 P (int n) (int off) state s))"
proof -
  obtain k where k: "32 - length (two_numbers n off) = Suc k"
    using two_numbers_length [OF assms] by (cases "32 - length (two_numbers n off)") auto
  then have z: "zero_padded 32 (two_numbers n off) = str (show_nat n) @ 32 # str (show_nat off) @ 0 # replicate k 0"
    by (simp add: zero_padded_def) (simp add: two_numbers_def)
  have s1: "strtoul e 10 (zero_padded 32 (two_numbers n off)) 0
      = Some (of_nat n, 32 # str (show_nat off) @ 0 # replicate k 0, 0)" for e
    unfolding z using assms(1) by (intro strtoul_decimal) (simp_all add: no_digit)
  have s2: "strtoul e 10 (32 # str (show_nat off) @ 0 # replicate k 0) 0 = Some (of_nat off, 0 # replicate k 0, 0)" for e
    using assms(2) by (intro strtoul_next) (simp_all add: no_digit)
  show ?thesis
    by (simp add: run_with_args_def s1 s2 strtoul_failed_def of_nat_int_u32 assms)
qed

end
