(* ===== verification/Sign_Line.thy ===== *)
theory Sign_Line
  imports Command_Line
begin

text \<open>
  A signature typed in hexadecimal is read back: every pair of digits is one byte, lines of 32
  digits follow each other without a line feed between them, a shorter one ends the signature.
\<close>

section \<open>Pairs of digits\<close>

lemma hex_digits_read:
  "\<forall>d \<in> set [0..<16]. digit_of 16 (of_char (digit_char d)) = Some d \<and> plain (of_char (digit_char d))
     \<and> \<not> is_space (of_char (digit_char d)) \<and> (of_char (digit_char d) :: u8) \<notin> {43, 45, 120, 88}"
  by code_simp

lemma hex_digit_read:
  assumes "d < 16"
  shows "digit_of 16 (of_char (digit_char d)) = Some d" "plain (of_char (digit_char d))"
    "\<not> is_space (of_char (digit_char d))" "(of_char (digit_char d) :: u8) \<notin> {43, 45, 120, 88}"
proof -
  have "d \<in> set [0..<16]" using assms by simp
  with hex_digits_read show "digit_of 16 (of_char (digit_char d)) = Some d" "plain (of_char (digit_char d))"
    "\<not> is_space (of_char (digit_char d))" "(of_char (digit_char d) :: u8) \<notin> {43, 45, 120, 88}" by blast+
qed

lemma strtoul_pair:
  assumes "h < 16" "l < 16"
  shows "strtoul einval 16 [of_char (digit_char h), of_char (digit_char l), 0] errno
    = Some (of_nat (h * 16 + l), [0], errno)"
proof -
  have z: "digit_of 16 0 = None" by code_simp
  have "h * 16 + l \<le> 4294967295" using assms by simp
  with hex_digit_read [OF assms(1)] hex_digit_read [OF assms(2)] z show ?thesis
    by (simp add: strtoul_def digits_value_def)
qed

definition hex_text :: "u8 list \<Rightarrow> u8 list" where
  "hex_text d = str (hex_dump d)"

lemma hex_text_Nil [simp]: "hex_text [] = []"
  by (simp add: hex_text_def hex_dump_def str_def)

lemma hex_text_Cons:
  "hex_text (b # d) = of_char (digit_char (unat b div 16)) # of_char (digit_char (unat b mod 16)) # hex_text d"
  by (simp add: hex_text_def hex_dump_def hex2_def str_def)

lemma hex_text_append: "hex_text (a @ b) = hex_text a @ hex_text b"
  by (simp add: hex_text_def hex_dump_def str_def)

lemma length_hex_text [simp]: "length (hex_text d) = 2 * length d"
  by (simp add: hex_text_def str_def length_hex_dump)

lemma byte_nibbles: "unat (b :: u8) div 16 < 16" "unat b mod 16 < 16" "unat b div 16 * 16 + unat b mod 16 = unat b"
  using unat_u8_lt [of b] by (simp_all add: less_mult_imp_div_less)

lemma hex_text_plain: "\<forall>c \<in> set (hex_text d). plain c"
proof (induction d)
  case (Cons b d)
  with hex_digit_read(2) byte_nibbles [of b] show ?case by (simp add: hex_text_Cons)
qed simp

definition put_at :: "nat \<Rightarrow> u8 list \<Rightarrow> u8 list \<Rightarrow> u8 list" where
  "put_at k d xs = take k xs @ d @ drop (k + length d) xs"

lemma put_at_Nil [simp]: "put_at k [] xs = xs"
  by (simp add: put_at_def)

lemma length_put_at [simp]: "k + length d \<le> length xs \<Longrightarrow> length (put_at k d xs) = length xs"
  by (simp add: put_at_def)

lemma put_at_Cons: "k + Suc (length d) \<le> length xs \<Longrightarrow> put_at (Suc k) d (xs[k := b]) = put_at k (b # d) xs"
  by (simp add: put_at_def take_Suc_conv_app_nth)

lemma put_at_append:
  "k + length a + length b \<le> length xs \<Longrightarrow> put_at (k + length a) b (put_at k a xs) = put_at k (a @ b) xs"
  by (rule nth_equalityI) (auto simp: put_at_def nth_append)

lemma sign_pairs_hex:
  "nb + length d \<le> length sign \<Longrightarrow>
    sign_pairs einval (pre @ hex_text d @ rest) (length pre + 2 * length d) (length pre) nb sign s
    = Some (Inr (nb + length d, put_at nb d sign, s))"
proof (induction d arbitrary: pre nb sign)
  case Nil
  then show ?case by (subst sign_pairs.simps) simp
next
  case (Cons b d)
  let ?h = "of_char (digit_char (unat b div 16)) :: u8" and ?l = "of_char (digit_char (unat b mod 16)) :: u8"
  have buf: "pre @ hex_text (b # d) @ rest = (pre @ [?h, ?l]) @ hex_text d @ rest"
    by (simp add: hex_text_Cons)
  have nth: "(pre @ hex_text (b # d) @ rest) ! length pre = ?h"
    "(pre @ hex_text (b # d) @ rest) ! (length pre + 1) = ?l"
    by (simp_all add: hex_text_Cons nth_append)
  have i: "length pre < length pre + 2 * length (b # d)" by simp
  have st: "strtoul einval 16 [?h, ?l, 0] 0 = Some (of_nat (unat b), [0], 0)"
    using strtoul_pair [OF byte_nibbles(1,2) [of b], of einval 0] byte_nibbles(3) [of b] by simp
  have b: "(ucast (of_nat (unat b) :: u32) :: u8) = b"
    by (simp add: unsigned_ucast_eq take_bit_word_eq_self)
  have "sign_pairs einval (pre @ hex_text (b # d) @ rest) (length pre + 2 * length (b # d)) (length pre) nb sign s
      = sign_pairs einval (pre @ hex_text (b # d) @ rest) (length pre + 2 * length (b # d)) (length pre + 2) (nb + 1)
          (sign[nb := b]) s"
    unfolding serial_rx.sign_pairs_step [OF i] nth st by (simp add: b del: of_nat_unat)
  also have "\<dots> = sign_pairs einval ((pre @ [?h, ?l]) @ hex_text d @ rest)
      (length (pre @ [?h, ?l]) + 2 * length d) (length (pre @ [?h, ?l])) (nb + 1) (sign[nb := b]) s"
    unfolding buf by simp
  also have "\<dots> = Some (Inr (nb + 1 + length d, put_at (nb + 1) d (sign[nb := b]), s))"
    using Cons.prems by (intro Cons.IH) simp
  also have "\<dots> = Some (Inr (nb + length (b # d), put_at nb (b # d) sign, s))"
    using Cons.prems put_at_Cons [of nb d sign b] by simp
  finally show ?case .
qed

section \<open>The whole signature\<close>

context rx_line
begin

lemma sign_full_line:
  assumes "ok s" "stream s = map Byte (hex_text d) @ r" "length d = 16" "length buf = 32" "nb + 16 \<le> length sign"
  shows "\<exists>s'. sign_step io P (nb, buf, sign, s) = Some (Inr (nb + 16, hex_text d, put_at nb d sign, s'))
    \<and> ok s' \<and> stream s' = r \<and> kept sent obs (hex_text d) s s'"
proof -
  from full_line [OF assms(1,2) hex_text_plain, of buf "char_signed P"] assms(3,4) obtain s' where
    rl: "ReadLine io (char_signed P) buf s = Some (32, hex_text d, s')"
    and s': "ok s'" "stream s' = r" "kept sent obs (hex_text d) s s'" by auto
  have "sign_pairs (strtoul_einval P) (hex_text d) (nat 32) 0 nb sign s' = Some (Inr (nb + 16, put_at nb d sign, s'))"
    using sign_pairs_hex [of nb d sign "strtoul_einval P" "[]" "[]" s'] assms(3,5) by simp
  with rl assms have "sign_step io P (nb, buf, sign, s) = Some (Inr (nb + 16, hex_text d, put_at nb d sign, s'))"
    by (simp add: sign_step_def)
  with s' show ?thesis by blast
qed

lemma sign_short_line:
  assumes "ok s" "stream s = map Byte (hex_text d) @ Byte 10 # r" "length d < 16" "length buf = 32"
    "nb + length d \<le> length sign" "nb < length sign"
  shows "\<exists>s'. sign_step io P (nb, buf, sign, s) = Some (Inl (int (nb + length d), put_at nb d sign, s'))
    \<and> ok s' \<and> stream s' = r \<and> kept sent obs (hex_text d @ [10]) s s'"
proof -
  from short_line [OF assms(1,2) hex_text_plain, of buf "char_signed P"] assms(3,4) obtain s' where
    rl: "ReadLine io (char_signed P) buf s = Some (2 * int (length d), hex_text d @ drop (2 * length d) buf, s')"
    and s': "ok s'" "stream s' = r" "kept sent obs (hex_text d @ [10]) s s'" by auto
  have "nat (2 * int (length d)) = 2 * length d" by simp
  then have "sign_pairs (strtoul_einval P) (hex_text d @ drop (2 * length d) buf) (nat (2 * int (length d))) 0 nb sign s'
      = Some (Inr (nb + length d, put_at nb d sign, s'))"
    using sign_pairs_hex [OF assms(5), of "strtoul_einval P" "[]" "drop (2 * length d) buf" s'] by simp
  with rl assms have "sign_step io P (nb, buf, sign, s) = Some (Inl (int (nb + length d), put_at nb d sign, s'))"
    by (simp add: sign_step_def)
  with s' show ?thesis by blast
qed

lemma sign_last_line:
  assumes "ok s" "stream s = map Byte (hex_text g) @ Byte 10 # r" "length buf = 32" "length sign = 128"
    and "length g < 16" "nb mod 16 = 0" "nb + length g \<le> 128"
  shows "\<exists>s'. sign_step io P (nb, buf, sign, s) = Some (Inl (int (nb + length g), put_at nb g sign, s'))
    \<and> ok s' \<and> stream s' = (if nb + length g < 128 then r else Byte 10 # r)
    \<and> kept sent obs (hex_text g @ (if nb + length g < 128 then [10] else [])) s s'"
proof (cases "nb + length g < 128")
  case True
  with sign_short_line [OF assms(1,2,5,3), of nb sign P] assms(4) show ?thesis by fastforce
next
  case False
  with assms(7) have "nb + length g = 128" by simp
  moreover from this assms(5,6) have "length g = 0" by presburger
  ultimately have "nb = 128" "g = []" by simp_all
  moreover have "sign_step io P (128, buf, sign, s) = Some (Inl (128, sign, s))"
    using assms(4) by (simp add: sign_step_def)
  ultimately show ?thesis using assms(1,2) by auto
qed

lemma sign_lines:
  "ok s \<Longrightarrow> stream s = map Byte (hex_text g) @ Byte 10 # r \<Longrightarrow> length buf = 32 \<Longrightarrow> length sign = 128 \<Longrightarrow>
    nb mod 16 = 0 \<Longrightarrow> nb + length g \<le> 128 \<Longrightarrow>
    \<exists>s'. forever (sign_step io P) (nb, buf, sign, s) = Some (int (nb + length g), put_at nb g sign, s')
      \<and> ok s' \<and> stream s' = (if nb + length g < 128 then r else Byte 10 # r)
      \<and> kept sent obs (hex_text g @ (if nb + length g < 128 then [10] else [])) s s'"
proof (induction "length g" arbitrary: g nb buf sign s rule: less_induct)
  case less
  note step = forever_Inl [of "sign_step io P"] forever_Inr [of "sign_step io P"]
  show ?case
  proof (cases "length g < 16")
    case short: True
    from sign_last_line [OF less.prems(1-4) short less.prems(5,6)] step(1) show ?thesis by blast
  next
    case False
    define d e where "d = take 16 g" and "e = drop 16 g"
    have g: "g = d @ e" "length d = 16" "length e < length g" "length g = 16 + length e"
      using False by (simp_all add: d_def e_def)
    have st: "stream s = map Byte (hex_text d) @ map Byte (hex_text e) @ Byte 10 # r"
      using less.prems(2) g(1) by (simp add: hex_text_append)
    have nb: "nb + 16 \<le> length sign" using g less.prems(4,6) by simp
    from sign_full_line [OF less.prems(1) st g(2) less.prems(3) nb, of P] obtain s1 where
      run: "sign_step io P (nb, buf, sign, s) = Some (Inr (nb + 16, hex_text d, put_at nb d sign, s1))"
      and s1: "ok s1" "stream s1 = map Byte (hex_text e) @ Byte 10 # r" "kept sent obs (hex_text d) s s1" by blast
    have side: "length (hex_text d) = 32" "length (put_at nb d sign) = 128" "(nb + 16) mod 16 = 0"
      "nb + 16 + length e \<le> 128"
      using g less.prems(4-6) by simp_all
    from less.hyps [OF g(3) s1(1,2) side] obtain s2 where
      rest: "forever (sign_step io P) (nb + 16, hex_text d, put_at nb d sign, s1)
        = Some (int (nb + 16 + length e), put_at (nb + 16) e (put_at nb d sign), s2)"
      and s2: "ok s2" "stream s2 = (if nb + 16 + length e < 128 then r else Byte 10 # r)"
        "kept sent obs (hex_text e @ (if nb + 16 + length e < 128 then [10] else [])) s1 s2" by blast
    have "put_at (nb + 16) e (put_at nb d sign) = put_at nb g sign"
      using put_at_append [of nb d e sign] g less.prems(4,6) by simp
    moreover have "nb + 16 + length e = nb + length g" using g by simp
    ultimately show ?thesis
      using step(2) [OF run] rest s2 kept_trans [OF s1(3) s2(3)] g(1)
      by (intro exI [of _ s2]) (simp add: hex_text_append)
  qed
qed

end

end
