(* ===== verification/Pages.thy ===== *)
theory Pages
  imports Command_Safe
begin

text \<open>
  What the print and hash commands read: whole pages while the next one begins before the end, then
  the remainder. A partition is a memory of \<open>psize\<close> bytes that \<open>HotaRead\<close> reads.
\<close>

definition partition_reads :: "('c, 'w) platform \<Rightarrow> memory \<Rightarrow> nat \<Rightarrow> bool" where
  "partition_reads P flash psize \<longleftrightarrow>
     (\<forall>addr n w. unat addr + unat n \<le> psize \<longrightarrow> HotaRead P addr n w = ((0, mem_read flash (unat addr) (unat n)), w))"

text \<open>The bytes that the loop over pages covers, and those of the whole command.\<close>

definition loop_end :: "nat \<Rightarrow> nat" where
  "loop_end n = (n - 1) div 1024 * 1024"

definition covered :: "nat \<Rightarrow> nat" where
  "covered n = (if n mod 1024 = 0 then n - 1024 else n)"

lemma loop_end_le: "loop_end n \<le> n"
  unfolding loop_end_def by (rule order_trans [OF div_times_less_eq_dividend]) simp

lemma loop_end_last:
  assumes "offset mod 1024 = 0" "offset = 0 \<or> offset < n" "n \<le> offset + 1024"
  shows "loop_end n = offset"
proof -
  from assms(1) obtain q where q: "offset = 1024 * q" by (auto elim!: dvdE simp flip: dvd_eq_mod_eq_0)
  have "(n - 1) div 1024 = q"
    using assms(2,3) unfolding q by (intro div_nat_eqI) auto
  then show ?thesis by (simp add: loop_end_def q)
qed

lemma loop_end_mono:
  assumes "offset mod 1024 = 0" "offset + 1024 < n"
  shows "offset + 1024 \<le> loop_end n"
proof -
  from assms(1) obtain q where q: "offset = 1024 * q" by (auto elim!: dvdE simp flip: dvd_eq_mod_eq_0)
  have "q + 1 \<le> (n - 1) div 1024"
    using assms(2) unfolding q by (simp add: less_eq_div_iff_mult_less_eq)
  then show ?thesis unfolding q loop_end_def by simp
qed

lemma loop_end_eq: "loop_end n = (if n mod 1024 = 0 then n - 1024 else n - n mod 1024)"
proof (cases "n < 1024")
  case True
  then show ?thesis by (simp add: loop_end_def)
next
  case big: False
  show ?thesis
  proof (cases "n mod 1024 = 0")
    case True
    with big have "loop_end n = n - 1024"
      by (intro loop_end_last) (simp_all flip: le_mod_geq)
    with True show ?thesis by simp
  next
    case False
    have "(n - n mod 1024) mod 1024 = 0" by (metis mod_0_imp_dvd dvd_imp_mod_0 minus_mod_eq_mult_div dvd_triv_left)
    moreover have "n < n - n mod 1024 + 1024" using mod_less_divisor [of 1024 n] by linarith
    moreover have "n - n mod 1024 < n" using False big by simp
    ultimately have "loop_end n = n - n mod 1024" by (intro loop_end_last) simp_all
    with False show ?thesis by simp
  qed
qed

lemma covered_loop: "covered n = loop_end n + (if n mod 1024 = 0 then 0 else n mod 1024)"
  by (simp add: covered_def loop_end_eq)

lemma loop_end_rest: "n mod 1024 \<noteq> 0 \<Longrightarrow> n - n mod 1024 = loop_end n"
  by (simp add: loop_end_eq)

lemma read_work_partition:
  assumes "partition_reads P flash psize" "addr + n \<le> psize" "psize \<le> 4294967296" "n \<le> 1024" "addr < 4294967296"
  shows "read_work P (of_nat addr) n buf s = s\<lparr>mem := mem_write (mem s) buf (mem_read flash addr n)\<rparr>"
proof -
  have "unat (of_nat addr :: u32) = addr" "unat (of_nat n :: u32) = n"
    using assms by (simp_all add: unat_of_nat take_bit_nat_eq_self)
  moreover from this assms(1,2) have "HotaRead P (of_nat addr) (of_nat n) w = ((0, mem_read flash addr n), w)" for w
    by (simp add: partition_reads_def)
  ultimately show ?thesis by (simp add: read_work_def)
qed

lemma hash_pages_partition:
  assumes P: "partition_reads P flash psize" and psize: "st + bufLen \<le> psize" "psize \<le> 4294967296" "st < 4294967296"
  shows "offset mod 1024 = 0 \<Longrightarrow> offset = 0 \<or> offset < bufLen \<Longrightarrow>
    \<exists>ds m. hash_pages P (of_nat st) bufLen buf offset (offset + 1024) (ctx, s)
        = (fold (AppSha256Update P) ds ctx, s\<lparr>mem := m\<rparr>)
      \<and> concat ds = mem_read flash (st + offset) (loop_end bufLen - offset)"
proof (induction "bufLen - offset" arbitrary: offset ctx s rule: less_induct)
  case less
  show ?case
  proof (cases "offset + 1024 < bufLen")
    case False
    then have "hash_pages P (of_nat st) bufLen buf offset (offset + 1024) (ctx, s) = (ctx, s)"
      by (subst hash_pages.simps) simp
    moreover have "loop_end bufLen = offset"
      using less.prems False by (intro loop_end_last) simp_all
    ultimately show ?thesis by (intro exI [of _ "[]"] exI [of _ "mem s"]) simp
  next
    case True
    let ?d = "mem_read flash (st + offset) 1024"
    have "of_nat st + of_nat offset = (of_nat (st + offset) :: u32)" by simp
    moreover have "st + offset + 1024 \<le> psize" "st + offset < 4294967296" using True psize by simp_all
    ultimately have rd: "read_work P (of_nat st + of_nat offset) 1024 buf s = s\<lparr>mem := mem_write (mem s) buf ?d\<rparr>"
      using read_work_partition [OF P _ psize(2), of "st + offset" 1024 buf s] by simp
    have page: "mem_read (mem_write (mem s) buf ?d) buf 1024 = ?d"
      using mem_read_write_same [of "mem s" buf ?d] by (simp only: length_mem_read)
    have "(offset + 1024) mod 1024 = 0" "offset + 1024 = 0 \<or> offset + 1024 < bufLen"
      "bufLen - (offset + 1024) < bufLen - offset" using less.prems True by simp_all
    from less.hyps [OF this(3,1,2), of "AppSha256Update P ?d ctx" "s\<lparr>mem := mem_write (mem s) buf ?d\<rparr>"]
    obtain ds m where
      rest: "hash_pages P (of_nat st) bufLen buf (offset + 1024) (offset + 1024 + 1024)
          (AppSha256Update P ?d ctx, s\<lparr>mem := mem_write (mem s) buf ?d\<rparr>)
        = (fold (AppSha256Update P) ds (AppSha256Update P ?d ctx), s\<lparr>mem := m\<rparr>)"
      and ds: "concat ds = mem_read flash (st + offset + 1024) (loop_end bufLen - (offset + 1024))"
      by (auto simp: add.assoc)
    have "hash_pages P (of_nat st) bufLen buf offset (offset + 1024) (ctx, s)
        = (fold (AppSha256Update P) (?d # ds) ctx, s\<lparr>mem := m\<rparr>)"
      using True rest page by (subst hash_pages.simps) (simp add: Let_def rd)
    moreover have "1024 + (loop_end bufLen - (offset + 1024)) = loop_end bufLen - offset"
      using loop_end_mono [OF less.prems(1) True] by simp
    then have "concat (?d # ds) = mem_read flash (st + offset) (loop_end bufLen - offset)"
      using mem_read_append [of flash "st + offset" 1024 "loop_end bufLen - (offset + 1024)"] ds by simp
    ultimately show ?thesis by blast
  qed
qed

section \<open>Print and hash read the same\<close>

definition same_reads :: "'w sys \<Rightarrow> 'w sys \<Rightarrow> bool" where
  "same_reads s s' \<longleftrightarrow> world s = world s' \<and> mem s = mem s'"

lemma same_reads_print [simp]: "same_reads (print t s) s' = same_reads s s'" "same_reads s (print t s') = same_reads s s'"
  by (simp_all add: same_reads_def)

lemma same_reads_print_work [simp]: "same_reads (print_work st a n l buf s) s' = same_reads s s'"
  by (simp add: print_work_def)

lemma same_reads_read: "same_reads s s' \<Longrightarrow> same_reads (read_work P a n buf s) (read_work P a n buf s')"
  by (simp add: same_reads_def read_work_def split: prod.split)

lemma same_pages:
  "same_reads s s' \<Longrightarrow> same_reads (print_pages P st bufLen buf offset nxt s)
     (snd (hash_pages P st bufLen buf offset nxt (ctx, s')))"
proof (induction P st bufLen buf offset nxt s arbitrary: ctx s' rule: print_pages.induct)
  case (1 P st bufLen buf offset nxt s)
  show ?case
  proof (cases "nxt < bufLen")
    case True
    let ?r = "read_work P (st + of_nat offset) 1024 buf s'"
    have "same_reads (print_work st (st + of_nat offset) 1024 bufLen buf (read_work P (st + of_nat offset) 1024 buf s)) ?r"
      using same_reads_read [OF "1.prems"] by simp
    from "1.IH" [OF True refl refl this, of "AppSha256Update P (mem_read (mem ?r) buf 1024) ctx"] True show ?thesis
      by (subst print_pages.simps, subst hash_pages.simps) (simp add: Let_def)
  qed (use "1.prems" in \<open>subst print_pages.simps, subst hash_pages.simps; simp\<close>)
qed

end
