(* ===== verification/Command_Props.thy ===== *)
theory Command_Props
  imports Sign_Line Pages Xmodem_Props
begin

text \<open>
  The properties of the commands of the OTA console: from the typed line to what the updater is
  given, what the commands may touch, how they fail.
\<close>

section \<open>Upload\<close>

lemma line_chars: "str (CHR ''{'' # CHR ''u'' # t) = 123 # 117 # str t" "str (CHR 10 # t) = 10 # str t"
  "str (CHR 32 # t) = 32 # str t" "str [] = []"
  by (simp_all add: str_def of_char_def)

text \<open>
  The upload command, with what is typed after the pause that ends the session (\<open>q\<close>) left on the
  line for the next command.
\<close>

lemma upload_line:
  assumes L: "line_kernel K line pend sent obs" and "hota_kernel K line sent obs hw" "serial_idle s"
    and "n < 2147483648" "off < 2147483648" "k < 32" "crc \<longleftrightarrow> k < 16" "quiet q"
    and "serial_stream line s = map Byte (str (''{u'' @ show_nat n @ '' '' @ show_nat off @ [CHR 10]))
        @ replicate k Silence @ session_line crc 1 ts @ q"
    and "session_ok crc 1 MAXRETRANS ts"
  shows "\<exists>cs h s'. CommandProcess K P state s = Some (Command COMMAND_TYPE_UPLOAD, state\<lparr>hash := h\<rparr>, s')
    \<and> h = AppSha256Finish P (fold (AppSha256Update P) (map snd cs) (AppSha256Init P))
    \<and> contiguous 0 cs (int (min n (length (concat (blocks ts)))))
    \<and> concat (map snd cs) = take n (concat (blocks ts))
    \<and> obs (world s') = fold (\<lambda>(addr, d). hw d (of_nat off + addr)) cs (obs (world s))
    \<and> sent (world s') = sent (world s) @ str (''{u'' @ show_nat n @ '' '' @ show_nat off @ [CHR 10])
        @ requests k @ answers ts
    \<and> serial_stream line s' = tl q \<and> serial_idle s'"
proof -
  let ?t = "two_numbers n off"
  have lt: "str (''{u'' @ show_nat n @ '' '' @ show_nat off @ [CHR 10]) = 123 # 117 # ?t @ [10]"
    by (simp add: str_append line_chars two_numbers_def)
  have st: "serial_stream line s = Byte 123 # Byte 117 # map Byte ?t @ Byte 10
      # replicate k Silence @ session_line crc 1 ts @ q"
    using assms(9) unfolding lt by simp
  note pl = two_numbers_plain [of n off] and len = two_numbers_length [OF assms(4,5)]
  have ty: "\<forall>c \<in> set ?t. typable (char_signed P) c" using pl plain_typable by blast
  have uc: "command_of (uint (117 :: u8)) = Some COMMAND_TYPE_UPLOAD" by (simp add: command_of_def)
  from typed_command [OF L assms(3) st uc _ ty len, of state] obtain s1 where
    cp: "CommandProcess K P state s = run_command K P COMMAND_TYPE_UPLOAD (zero_padded 32 (edited ?t)) state s1"
    and s1: "serial_idle s1" "serial_stream line s1 = replicate k Silence @ session_line crc 1 ts @ q"
    and k1: "kept sent obs (123 # 117 # echoed ?t @ [10]) s s1" by auto
  let ?a = "\<lparr>sz = int n, start = int off, sha256 = AppSha256Init P\<rparr>"
  have n: "int n < 2147483648" using assms(4) by simp
  from upload_session [OF L assms(2) s1(1) n assms(6-8) s1(2) assms(10), of "workBuf state" P ?a] obtain cs s2 where
    x: "xmodemReceive (serial_port K) (workBuf state) (int n) (xmodemReceiveCB P K) ?a s1
      = Some (min (max 0 (int n)) (int (length (concat (blocks ts)))),
          ?a\<lparr>sha256 := fold (AppSha256Update P) (map snd cs) (sha256 ?a)\<rparr>, s2)"
    and cs: "contiguous 0 cs (min (max 0 (int n)) (int (length (concat (blocks ts)))))"
      "concat (map snd cs) = take (nat (int n)) (concat (blocks ts))"
      "obs (world s2) = fold (\<lambda>(addr, d). hw d (u32_of_int (if start ?a > 0 then start ?a else 0) + addr))
        cs (obs (world s1))"
      "sent (world s2) = sent (world s1) @ requests k @ answers ts" "serial_stream line s2 = tl q" by blast
  have idle: "serial_idle s2" using serial_xm.xmodemReceive_ok [OF n s1(1) x] by blast
  have start: "u32_of_int (if start ?a > 0 then start ?a else 0) = of_nat off"
    by (simp add: u32_of_int_def)
  define h where "h = AppSha256Finish P (fold (AppSha256Update P) (map snd cs) (AppSha256Init P))"
  have "CommandProcess K P state s
      = Some (Command COMMAND_TYPE_UPLOAD, state\<lparr>hash := h\<rparr>, print (sha256_msg h) s2)"
    unfolding cp run_command_def edited_plain [OF pl] run_two_numbers [OF assms(4,5)]
    by (simp add: CommandRunUpload_def x h_def)
  moreover have "serial_stream line (print (sha256_msg h) s2) = tl q"
    using cs(5) rx_line.stream_print [OF serial_rx_line [OF L], of "sha256_msg h" s2] by simp
  moreover have "serial_idle (print (sha256_msg h) s2)"
    using idle serial_rx.ok_print by blast
  moreover have "int (min n (length (concat (blocks ts)))) = min (max 0 (int n)) (int (length (concat (blocks ts))))"
    by simp
  ultimately show ?thesis
    unfolding lt using cs(1,2,4) cs(3) [unfolded start] k1 h_def
    by (intro exI [of _ cs] exI [of _ h] exI [of _ "print (sha256_msg h) s2"])
      (simp add: echoed_plain [OF pl] kept_def)
qed


text \<open>
  C3: The upload command, end to end. On a kernel that behaves as documented, let the line
  \<open>{u<size> <offset>\<close> be typed, then an XMODEM session follow (blocks damaged, cut short and
  repeated as \<open>session_ok\<close> allows). \<open>CommandProcess\<close> returns the upload command; the line was
  echoed and every packet answered; the state's hash is the digest of, and \<open>HotaWrite\<close> was given,
  the payload cut to the size, each byte once and in order, at its place counted from the offset;
  the work buffer stays the same and the driver is idle.
\<close>

theorem upload_command_end_to_end:
  assumes "line_kernel K line pend sent obs" "hota_kernel K line sent obs hw" "serial_idle s"
    and "n < 2147483648" "off < 2147483648" "k < 32" "crc \<longleftrightarrow> k < 16"
    and "serial_stream line s = map Byte (str (''{u'' @ show_nat n @ '' '' @ show_nat off @ [CHR 10]))
        @ replicate k Silence @ session_line crc 1 ts"
    and "session_ok crc 1 MAXRETRANS ts"
  shows "\<exists>cs state' s'. CommandProcess K P state s = Some (Command COMMAND_TYPE_UPLOAD, state', s')
    \<and> hash state' = AppSha256Finish P (fold (AppSha256Update P) (map snd cs) (AppSha256Init P))
    \<and> workBuf state' = workBuf state
    \<and> contiguous 0 cs (int (min n (length (concat (blocks ts)))))
    \<and> concat (map snd cs) = take n (concat (blocks ts))
    \<and> obs (world s') = fold (\<lambda>(addr, d). hw d (of_nat off + addr)) cs (obs (world s))
    \<and> sent (world s') = sent (world s) @ str (''{u'' @ show_nat n @ '' '' @ show_nat off @ [CHR 10])
        @ requests k @ answers ts
    \<and> serial_stream line s' = [] \<and> serial_idle s'"
  using upload_line [OF assms(1-7) quiet_intros(1) _ assms(9), simplified append_Nil2 list.sel, OF assms(8), of P state]
  by (elim exE conjE) (intro exI conjI, assumption+, simp_all)

definition sim_state :: OTA_AppState where
  "sim_state = \<lparr>hash = replicate 32 0, workBuf = 4096\<rparr>"

definition sim_boot :: "rx_item list \<Rightarrow> sim sys" where
  "sim_boot l = serial_static (\<lambda>_. 9) (sim_world l)"

lemma sim_boot_sel [simp]:
  "serial_idle (sim_boot l)" "serial_stream sim_line (sim_boot l) = l" "mem (sim_boot l) = (\<lambda>_. 9)"
  "world (sim_boot l) = sim_world l" "console (sim_boot l) = []"
  by (simp_all add: sim_boot_def)

lemma sim_update: "fold (AppSha256Update sim_platform) ds c = c @ concat ds"
  by (induction ds arbitrary: c) simp_all

lemma upload_command_end_to_end_witness:
  "\<exists>state' s'. CommandProcess sim_kernel sim_platform sim_state
      (sim_boot (map Byte (str (''{u'' @ show_nat 100 @ '' '' @ show_nat 8 @ [CHR 10]))
        @ replicate 1 Silence @ session_line True 1 demo_session))
      = Some (Command COMMAND_TYPE_UPLOAD, state', s')
    \<and> hash state' = replicate 32 7 \<and> serial_idle s'"
proof -
  let ?s = "sim_boot (map Byte (str (''{u'' @ show_nat 100 @ '' '' @ show_nat 8 @ [CHR 10]))
        @ replicate 1 Silence @ session_line True 1 demo_session)"
  have side: "serial_idle ?s" "(100 :: nat) < 2147483648" "(8 :: nat) < 2147483648" "(1 :: nat) < 32"
    "True \<longleftrightarrow> (1 :: nat) < 16" by simp_all
  from upload_command_end_to_end [OF sim_line_kernel sim_hota_kernel side sim_boot_sel(2) demo_session_ok,
      of sim_platform sim_state]
  obtain cs :: "chunk list" and state' s' where
    "CommandProcess sim_kernel sim_platform sim_state ?s = Some (Command COMMAND_TYPE_UPLOAD, state', s')"
    "hash state' = AppSha256Finish sim_platform
      (fold (AppSha256Update sim_platform) (map snd cs) (AppSha256Init sim_platform))"
    "concat (map snd cs) = take 100 (concat (blocks demo_session))" "serial_idle s'" by blast
  then show ?thesis by (simp add: sim_update demo_session_def)
qed

section \<open>What the task leaves alone\<close>

lemma ota_rounds_tidy:
  "ota_rounds K P n state s = Some (outs, state', s') \<Longrightarrow> serial_idle s \<Longrightarrow>
    serial_idle s' \<and> workBuf state' = workBuf state
    \<and> (Command COMMAND_TYPE_DEBUG \<notin> set outs \<longrightarrow> within (workBuf state) 1030 (mem s) (mem s'))"
proof (induction n arbitrary: state s outs)
  case 0
  then show ?case by (auto simp: within_def)
next
  case (Suc n)
  from Suc.prems(1) obtain out st1 s1 where cp: "CommandProcess K P state s = Some (out, st1, s1)"
    by (auto simp: bind_eq_Some_conv)
  note one = CommandProcess_tidy [OF Suc.prems(2) cp]
  show ?case
  proof (cases out)
    case Undefined
    with Suc.prems(1) cp one show ?thesis by auto
  next
    case (Command cmd)
    with Suc.prems(1) cp obtain outs1 where
      "ota_rounds K P n st1 (print ('' === OTA_TestThread:683 cmd: '' @ show_int (command_code cmd) @ CRLF) s1)
        = Some (outs1, state', s')" "outs = out # outs1"
      by (auto simp: bind_eq_Some_conv)
    with Suc.IH [OF this(1)] one Command show ?thesis by (auto intro: within_trans)
  qed
qed

text \<open>
  C5: The invariant of the OTA task. Whatever is typed and received, for every kernel, line and
  platform: after any number of rounds of the task's loop the serial driver is idle (ready for the
  next read, no buffer lent to the interrupt handler), the state still has the buffer that
  \<open>malloc\<close> returned, and, as long as no debug command was run, the task wrote no memory outside
  the 1030 bytes it had asked for.
\<close>

theorem ota_task_invariant:
  assumes "serial_idle s" "OTA_TestThread K P n s = Some (outs, state', s')"
  shows "serial_idle s' \<and> workBuf state' = fst (malloc_ptr P 1030 (world s))
    \<and> (Command COMMAND_TYPE_DEBUG \<notin> set outs \<longrightarrow> within (workBuf state') 1030 (mem s) (mem s'))"
proof -
  obtain state s1 where init: "OTA_TestThread_init K P s = (state, s1)" by force
  then have "serial_idle s1" "mem s1 = mem s" "workBuf state = fst (malloc_ptr P 1030 (world s))"
    using assms(1)
    by (auto simp: OTA_TestThread_init_def malloc_ptr_of_def SerialInit_def VendorUartRxIrqEnable_def Let_def
        split: prod.splits)
  with ota_rounds_tidy [of K P n state s1 outs state' s'] assms(2) init show ?thesis
    by (simp add: OTA_TestThread_def)
qed

section \<open>Other commands\<close>

lemma rounds_garbage:
  "line_kernel K line pend sent obs \<Longrightarrow> serial_idle s \<Longrightarrow> serial_stream line s = map Byte g @ r \<Longrightarrow> 123 \<notin> set g \<Longrightarrow>
    \<exists>s'. serial_idle s' \<and> serial_stream line s' = r \<and> kept sent obs (echoed g) s s'
      \<and> (\<forall>n. ota_rounds K P (length g + n) state s
          = map_option (\<lambda>(outs, st, x). (replicate (length g) (Command COMMAND_TYPE_ERROR_PREAMBLE) @ outs, st, x))
              (ota_rounds K P n state s'))"
proof (induction g arbitrary: s)
  case Nil
  then show ?case
    by (intro exI [of _ s]) (simp add: echoed_def option.map_ident_strong case_prod_beta)
next
  case (Cons c g)
  from typed_garbage [OF Cons.prems(1,2), of c "map Byte g @ r" P state] Cons.prems(3,4) obtain s1 where
    cp: "CommandProcess K P state s = Some (Command COMMAND_TYPE_ERROR_PREAMBLE, state, s1)"
    and s1: "serial_idle s1" "serial_stream line s1 = map Byte g @ r" "kept sent obs (echo_char c) s s1" by auto
  let ?s2 = "print ('' === OTA_TestThread:683 cmd: '' @ show_int (command_code COMMAND_TYPE_ERROR_PREAMBLE) @ CRLF) s1"
  have s2: "serial_idle ?s2" "serial_stream line ?s2 = map Byte g @ r" "kept sent obs (echo_char c) s ?s2"
    using s1 rx_line.stream_print [OF serial_rx_line [OF Cons.prems(1)]] by (auto simp: kept_def)
  from Cons.IH [OF Cons.prems(1) s2(1,2)] Cons.prems(4) obtain s' where
    s': "serial_idle s'" "serial_stream line s' = r" "kept sent obs (echoed g) ?s2 s'"
    and rounds: "\<And>n. ota_rounds K P (length g + n) state ?s2
        = map_option (\<lambda>(outs, st, x). (replicate (length g) (Command COMMAND_TYPE_ERROR_PREAMBLE) @ outs, st, x))
            (ota_rounds K P n state s')" by auto
  have "kept sent obs (echoed (c # g)) s s'"
    using kept_trans [OF s2(3) s'(3)] by (simp add: echoed_def)
  moreover have "ota_rounds K P (length (c # g) + n) state s
      = map_option (\<lambda>(outs, st, x). (replicate (length (c # g)) (Command COMMAND_TYPE_ERROR_PREAMBLE) @ outs, st, x))
          (ota_rounds K P n state s')" for n
    using rounds [of n] by (cases "ota_rounds K P n state s'") (auto simp: cp Let_def)
  ultimately show ?case using s'(1,2) by blast
qed

text \<open>
  C22: The console recovers from garbage. Whatever bytes arrive before a brace (the rest of a broken
  upload, a line that was refused), the task takes them one per round, answers each with the
  preamble error, changes neither its state nor the updater, and is then in front of the next
  command as if they had not been there.
\<close>

theorem garbage_is_skipped:
  assumes "line_kernel K line pend sent obs" "serial_idle s"
    and "serial_stream line s = map Byte g @ r" "123 \<notin> set g"
  shows "\<exists>s'. serial_idle s' \<and> serial_stream line s' = r
    \<and> mem s' = mem s \<and> obs (world s') = obs (world s) \<and> sent (world s') = sent (world s) @ echoed g
    \<and> (\<forall>n. ota_rounds K P (length g + n) state s
        = map_option (\<lambda>(outs, st, x). (replicate (length g) (Command COMMAND_TYPE_ERROR_PREAMBLE) @ outs, st, x))
            (ota_rounds K P n state s'))"
  using rounds_garbage [OF assms, of P state] unfolding kept_def by blast

lemma garbage_is_skipped_witness:
  "\<exists>s'. ota_rounds sim_kernel sim_platform 2 sim_state (sim_boot [Byte 120, Byte 121])
    = Some ([Command COMMAND_TYPE_ERROR_PREAMBLE, Command COMMAND_TYPE_ERROR_PREAMBLE], sim_state, s')
    \<and> sim_sent (world s') = [120, 121]"
proof -
  have st: "serial_stream sim_line (sim_boot [Byte 120, Byte 121]) = map Byte [120, 121] @ []"
    "123 \<notin> set [120, 121 :: u8]" by simp_all
  from garbage_is_skipped [OF sim_line_kernel sim_boot_sel(1) st, of sim_platform sim_state]
  obtain s' where s': "sim_sent (world s') = sim_sent (world (sim_boot [Byte 120, Byte 121])) @ echoed [120, 121]"
    "\<And>n. ota_rounds sim_kernel sim_platform (length [120, 121 :: u8] + n) sim_state (sim_boot [Byte 120, Byte 121])
      = map_option (\<lambda>(outs, st, x). (replicate (length [120, 121 :: u8]) (Command COMMAND_TYPE_ERROR_PREAMBLE) @ outs, st, x))
          (ota_rounds sim_kernel sim_platform n sim_state s')"
    by blast
  have "echoed [120, 121] = [120, 121]" "length [120, 121 :: u8] + 0 = 2" by (code_simp, simp)
  with s'(1) s'(2) [of 0] show ?thesis by (simp add: numeral_2_eq_2 del: ota_rounds.simps(2))
qed

lemma ota_task_invariant_witness:
  "\<exists>outs state' s'. OTA_TestThread sim_kernel sim_platform 2 (sim_boot [Byte 120, Byte 121])
      = Some (outs, state', s') \<and> serial_idle s' \<and> workBuf state' = 4096"
proof -
  obtain state s1 where init: "OTA_TestThread_init sim_kernel sim_platform (sim_boot [Byte 120, Byte 121]) = (state, s1)"
    by force
  then have "serial_idle s1" "serial_stream sim_line s1 = map Byte [120, 121] @ []" "123 \<notin> set [120, 121 :: u8]"
    by (auto simp: OTA_TestThread_init_def malloc_ptr_of_def SerialInit_def VendorUartRxIrqEnable_def Let_def
        serial_stream_def sim_boot_def split: prod.splits)
  from rounds_garbage [OF sim_line_kernel this, of sim_platform state]
  obtain outs s' where "OTA_TestThread sim_kernel sim_platform 2 (sim_boot [Byte 120, Byte 121]) = Some (outs, state, s')"
    by (auto simp: OTA_TestThread_def init numeral_2_eq_2)
  from ota_task_invariant [OF sim_boot_sel(1) this] this show ?thesis by auto
qed

end
