(* ===== verification/Console_Props.thy ===== *)
theory Console_Props
  imports Command_Props
begin

text \<open>
  More properties of the console: line editing, the words, the lines that are too long or never
  come, partitions and signatures.
\<close>

section \<open>Lines\<close>

text \<open>
  C15: \<open>ReadLine\<close> implements line editing. On a kernel that behaves as documented, for a line that
  fits its buffer, \<open>ReadLine\<close> returns the length of the abstract edited line (backspace and DEL
  delete the last character, carriage returns are ignored), leaves the edited text in the buffer
  followed by the zeros it was initialised with, echoes every character, and consumes exactly the
  line.
\<close>

theorem ReadLine_edits:
  assumes "line_kernel K line pend sent obs" "serial_idle s"
    and "serial_stream line s = map Byte cs @ Byte 10 # r" "\<forall>c \<in> set cs. typable sg c" "length cs < n"
  shows "\<exists>s'. ReadLine (serial_port K) sg (replicate n 0) s
      = Some (int (length (edited cs)), edited cs @ replicate (n - length (edited cs)) 0, s')
    \<and> serial_idle s' \<and> serial_stream line s' = r \<and> mem s' = mem s
    \<and> obs (world s') = obs (world s) \<and> sent (world s') = sent (world s) @ echoed cs @ [10]"
  using serial_typed_line [OF assms(1-4), of "[]" n] assms(5)
  by (auto simp: ReadLine_def zero_padded_def edited_def kept_def)

lemma ReadLine_edits_witness:
  "\<exists>s'. ReadLine (serial_port sim_kernel) True (replicate 8 0) (sim_boot (map Byte [97, 98, 127, 99] @ Byte 10 # []))
      = Some (2, [97, 99, 0, 0, 0, 0, 0, 0], s') \<and> sim_sent (world s') = [97, 98, 8, 32, 8, 99, 10]"
proof -
  have side: "\<forall>c \<in> set [97, 98, 127, 99 :: u8]. typable True c" "length [97, 98, 127, 99 :: u8] < 8"
    by (code_simp, simp)
  have e: "edited [97, 98, 127, 99] = [97, 99]" "echoed [97, 98, 127, 99] = [97, 98, 8, 32, 8, 99]"
    by code_simp+
  from ReadLine_edits [OF sim_line_kernel sim_boot_sel(1,2) side] show ?thesis
    by (auto simp: e numeral_eq_Suc)
qed



text \<open>A line of 32 digits.\<close>

lemma full_line_run:
  assumes "line_kernel K line pend sent obs" "serial_idle s"
    and "serial_stream line s = Byte 123 # Byte c # map Byte (str (map digit_char ds)) @ r"
    and "command_of (uint c) = Some cmd"
    and "cmd \<in> {COMMAND_TYPE_UPLOAD, COMMAND_TYPE_PRINT, COMMAND_TYPE_HASH_SHA256}"
    and "length ds = 32" "\<forall>d \<in> set ds. d < 10"
  shows "\<exists>s'. CommandProcess K P state s = Some (Undefined, state, s') \<and> serial_stream line s' = r"
proof -
  note L = serial_rx_line [OF assms(1)]
  let ?t = "str (map digit_char ds)"
  from typed_header [OF assms(1-4), of P state] obtain s1 where
    cp: "CommandProcess K P state s = after_letter K P cmd state s1"
    and s1: "serial_idle s1" "serial_stream line s1 = map Byte ?t @ r" by blast
  have dg: "d \<in> set [0, 1, 2, 3, 4, 5, 6, 7, 8, 9]" if "d \<in> set ds" for d
    using assms(7) that by force
  have "\<forall>c \<in> set ?t. plain c"
  proof
    fix c assume "c \<in> set ?t"
    then obtain d where "d \<in> set ds" "c = of_char (digit_char d)" by (auto simp: str_def)
    with plain_digits dg show "plain c" by blast
  qed
  from rx_line.full_line [OF L s1 this, of "replicate 32 0"] assms(6) obtain s2 where
    rl: "ReadLine (serial_port K) (char_signed P) (replicate 32 0) s1 = Some (32, ?t, s2)"
    and s2: "serial_stream line s2 = r" by (auto simp: str_def)
  obtain d0 ds0 where ds: "ds = d0 # ds0" using assms(6) by (cases ds) auto
  have "take_digits 10 (str (map digit_char xs)) = None" if "\<forall>d \<in> set xs. d < 10" for xs
    using that by (induction xs) (simp_all add: str_def digit_read)
  moreover have "skip_space ?t = Some ?t" "take_sign ?t = Some (False, ?t)"
    using digit_read(2,3) [of d0] assms(7) by (simp_all add: ds str_def)
  moreover have "take_prefix 10 xs = xs" for xs
    by (induction "10 :: nat" xs rule: take_prefix.induct) simp_all
  ultimately have "strtoul (strtoul_einval P) 10 ?t 0 = None"
    using assms(7) by (simp add: strtoul_def)
  with rl assms(5) have "CommandProcess K P state s = Some (Undefined, state, s2)"
    by (auto simp: cp after_letter_def run_command_def run_with_args_def)
  with s2 show ?thesis by blast
qed

text \<open>
  C33: A line of 32 characters fills the buffer of \<open>CommandProcess\<close>, which then holds no NUL: when
  its characters are digits, \<open>strtoul\<close> reads past the end of the array. The model has no result for
  that (\<open>Undefined\<close>); a shorter line has a NUL behind it.
\<close>

theorem full_line_overread:
  assumes "line_kernel K line pend sent obs" "serial_idle s"
    and "serial_stream line s = Byte 123 # Byte c # map Byte (str (map digit_char ds)) @ r"
    and "command_of (uint c) = Some cmd"
    and "cmd \<in> {COMMAND_TYPE_UPLOAD, COMMAND_TYPE_PRINT, COMMAND_TYPE_HASH_SHA256}"
    and "length ds = 32" "\<forall>d \<in> set ds. d < 10"
  shows "\<exists>s'. CommandProcess K P state s = Some (Undefined, state, s') \<and> serial_stream line s' = r"
  using full_line_run [OF assms] .

lemma full_line_overread_witness:
  "\<exists>s'. CommandProcess sim_kernel sim_platform sim_state
      (sim_boot (Byte 123 # Byte 104 # map Byte (str (map digit_char (replicate 32 1))) @ [Byte 10]))
    = Some (Undefined, sim_state, s')"
proof -
  have side: "command_of (uint (104 :: u8)) = Some COMMAND_TYPE_HASH_SHA256"
    "COMMAND_TYPE_HASH_SHA256 \<in> {COMMAND_TYPE_UPLOAD, COMMAND_TYPE_PRINT, COMMAND_TYPE_HASH_SHA256}"
    "length (replicate 32 (1 :: nat)) = 32" "\<forall>d \<in> set (replicate 32 (1 :: nat)). d < 10"
    by (simp_all add: command_of_def)
  from full_line_overread [OF sim_line_kernel sim_boot_sel(1,2) side, of sim_platform sim_state]
  show ?thesis by blast
qed

section \<open>Words\<close>

text \<open>The rest of the words \<open>cancel\<close>, \<open>restart\<close> and \<open>back\<close>, and what each command does.\<close>

fun word_of :: "CommandType \<Rightarrow> string option" where
  "word_of COMMAND_TYPE_CANCEL = Some ''ancel''"
| "word_of COMMAND_TYPE_RESTART = Some ''estart''"
| "word_of COMMAND_TYPE_ROLLBACK = Some ''ack''"
| "word_of _ = None"

definition word_effect :: "'w kernel \<Rightarrow> CommandType \<Rightarrow> 'w sys \<Rightarrow> 'w sys" where
  "word_effect K cmd s =
     (if cmd = COMMAND_TYPE_CANCEL then call K HotaSetPackageType (call K HotaInit (call K HotaCancel s))
      else if cmd = COMMAND_TYPE_RESTART
      then (let (ret, s) = do_call K HotaRestart s in print (''HotaRestart() =  '' @ show_int ret @ CRLF) s)
      else (let (ret, s) = do_call K HotaHalRollback s in print (''HotaHalRollback() =  '' @ show_int ret @ CRLF) s))"

lemma strcmp_padded:
  assumes "\<forall>c \<in> set t. plain c" "length t < 32" "0 \<notin> set (str w)" "length w < 32"
  shows "strcmp_eq w (zero_padded 32 t) = Some (t = str w)"
proof -
  have nz: "takeWhile (\<lambda>c. c \<noteq> 0) xs = xs" if "0 \<notin> set xs" for xs :: "u8 list"
    using that by (subst takeWhile_eq_all_conv) auto
  have t0: "0 \<notin> set t" using assms(1) by (auto simp: plain_def)
  obtain k where k: "32 - length t = Suc k" using assms(2) by (cases "32 - length t") auto
  have z: "zero_padded 32 t = t @ 0 # replicate k 0" by (simp add: zero_padded_def k)
  have "take (Suc (length w)) (t @ 0 # replicate k 0) = str w @ [0] \<longleftrightarrow> t = str w"
  proof
    assume e: "take (Suc (length w)) (t @ 0 # replicate k 0) = str w @ [0]"
    have "\<not> Suc (length w) \<le> length t"
    proof
      assume "Suc (length w) \<le> length t"
      with e have "take (Suc (length w)) t = str w @ [0]" by simp
      then have "0 \<in> set t" by (metis in_set_conv_decomp in_set_takeD)
      with t0 show False ..
    qed
    then have "take (Suc (length w)) (t @ 0 # replicate k 0) = t @ 0 # take (length w - length t) (replicate k 0)"
      by (simp add: Suc_diff_le)
    with e have "takeWhile (\<lambda>c. c \<noteq> 0) (t @ 0 # take (length w - length t) (replicate k 0)) = takeWhile (\<lambda>c. c \<noteq> 0) (str w @ [0])"
      by simp
    then show "t = str w" using t0 assms(3) by (simp add: takeWhile_append nz split: if_splits)
  qed (simp add: str_def)
  moreover have "length (str w) = length w" by (simp add: str_def)
  moreover have "length t + k = 31" using k by simp
  ultimately show ?thesis
    using assms(4) by (simp add: strcmp_eq_def z Let_def flip: str_def)
qed

text \<open>
  C31: The commands that are words. When a line is typed after the letter \<open>c\<close>, \<open>r\<close> or \<open>b\<close>, the
  command's code is returned in any case; the updater is called (cancelled and initialised again,
  restarted, rolled back) exactly when the edited line completes the word.
\<close>

theorem word_commands:
  assumes "line_kernel K line pend sent obs" "serial_idle s"
    and "serial_stream line s = Byte 123 # Byte c # map Byte cs @ Byte 10 # r"
    and "command_of (uint c) = Some cmd" "word_of cmd = Some w"
    and "\<forall>c \<in> set cs. plain c" "length cs < 32"
  shows "\<exists>s1. CommandProcess K P state s
      = Some (Command cmd, state, if cs = str w then word_effect K cmd s1 else s1)
    \<and> serial_idle s1 \<and> serial_stream line s1 = r \<and> mem s1 = mem s \<and> obs (world s1) = obs (world s)"
proof -
  have cmd: "cmd = COMMAND_TYPE_CANCEL \<and> w = ''ancel'' \<or> cmd = COMMAND_TYPE_RESTART \<and> w = ''estart''
      \<or> cmd = COMMAND_TYPE_ROLLBACK \<and> w = ''ack''"
    using assms(5) by (cases cmd) auto
  have ty: "\<forall>c \<in> set cs. typable (char_signed P) c" using assms(6) plain_typable by blast
  have sgn: "cmd \<noteq> COMMAND_TYPE_SIGN" using cmd by auto
  from typed_command [OF assms(1-4) sgn ty assms(7), of state] obtain s1 where
    cp: "CommandProcess K P state s = run_command K P cmd (zero_padded 32 (edited cs)) state s1"
    and s1: "serial_idle s1" "serial_stream line s1 = r" "mem s1 = mem s" "obs (world s1) = obs (world s)"
    by (auto simp: kept_def)
  have "0 \<notin> set (str ''ancel'')" "0 \<notin> set (str ''estart'')" "0 \<notin> set (str ''ack'')" by code_simp+
  with cmd have "strcmp_eq w (zero_padded 32 (edited cs)) = Some (cs = str w)"
    using strcmp_padded [OF assms(6,7), of w] by (auto simp: edited_plain [OF assms(6)])
  with cmd have "CommandProcess K P state s
      = Some (Command cmd, state, if cs = str w then word_effect K cmd s1 else s1)"
    by (auto simp: cp run_command_def run_word_def word_effect_def CommandRunCancel_def
        CommandRunRestart_def CommandRunRollback_def)
  with s1 show ?thesis by blast
qed

lemma word_commands_witness:
  "\<exists>s'. CommandProcess sim_kernel sim_platform sim_state (sim_boot (Byte 123 # Byte 99 # map Byte (str ''ancel'') @ Byte 10 # []))
    = Some (Command COMMAND_TYPE_CANCEL, sim_state, s')
    \<and> sim_calls (world s') = [HotaCancel, HotaInit, HotaSetPackageType]"
proof -
  have side: "command_of (uint (99 :: u8)) = Some COMMAND_TYPE_CANCEL" "word_of COMMAND_TYPE_CANCEL = Some ''ancel''"
    "length (str ''ancel'') < 32" by (simp_all add: command_of_def str_def)
  have pl: "\<forall>c \<in> set (str ''ancel''). plain c" by code_simp
  from word_commands [OF sim_line_kernel sim_boot_sel(1,2) side(1,2) pl side(3), of sim_platform sim_state]
  obtain s1 where "CommandProcess sim_kernel sim_platform sim_state
      (sim_boot (Byte 123 # Byte 99 # map Byte (str ''ancel'') @ Byte 10 # []))
      = Some (Command COMMAND_TYPE_CANCEL, sim_state, word_effect sim_kernel COMMAND_TYPE_CANCEL s1)"
    "sim_calls (world s1) = []" by auto
  then show ?thesis by (simp add: word_effect_def)
qed


section \<open>Partitions\<close>

text \<open>
  C20: What the hash command hashes. When the updater reads a partition as documented, the command
  \<open>{h<start> <size>\<close> prints the digest of the partition's bytes from \<open>start\<close>, all \<open>size\<close> of them unless
  \<open>size\<close> is a multiple of 1024: then the last page is left out (the loop stops when the next page
  would begin at the end, and there is no remainder), and for a size of 1024 nothing is hashed.
\<close>

theorem hash_covers:
  assumes "partition_reads P flash psize" "st + n \<le> psize" "psize \<le> 4294967296"
    and "st < 2147483648" "n < 2147483648"
  shows "\<exists>ds m. CommandRunHashSha256 P (int st) (int n) state s
      = print (sha256_msg (AppSha256Finish P (fold (AppSha256Update P) ds (AppSha256Init P)))) (s\<lparr>mem := m\<rparr>)
    \<and> concat ds = mem_read flash st (if n mod 1024 = 0 then n - 1024 else n)"
proof -
  have st: "st < 4294967296" using assms(4) by simp
  have pa: "page_args (int st) (int n) = (of_nat st, n)" by (simp add: page_args_def u32_of_int_def)
  from hash_pages_partition [OF assms(1-3) st, of 0 "workBuf state" "AppSha256Init P" s] obtain ds m where
    hp: "hash_pages P (of_nat st) n (workBuf state) 0 1024 (AppSha256Init P, s)
      = (fold (AppSha256Update P) ds (AppSha256Init P), s\<lparr>mem := m\<rparr>)"
    and ds: "concat ds = mem_read flash st (loop_end n)" by auto
  show ?thesis
  proof (cases "n mod 1024 = 0")
    case True
    with ds loop_end_eq [of n] show ?thesis
      by (intro exI [of _ ds] exI [of _ m]) (simp add: CommandRunHashSha256_def pa hp)
  next
    case False
    let ?rm = "n mod 1024"
    let ?d = "mem_read flash (st + loop_end n) ?rm"
    have le: "loop_end n + ?rm = n" using covered_loop [of n] False by (simp add: covered_def)
    then have "of_nat n = (of_nat (loop_end n) + of_nat ?rm :: u32)" by (metis of_nat_add)
    then have addr: "of_nat st + of_nat n - of_nat ?rm = (of_nat (st + loop_end n) :: u32)" by simp
    have "st + loop_end n + ?rm \<le> psize" "st + loop_end n < 4294967296"
      using le assms(2,4,5) by linarith+
    from read_work_partition [OF assms(1) this(1) assms(3) _ this(2), of "workBuf state" "s\<lparr>mem := m\<rparr>"]
    have rd: "read_work P (of_nat st + of_nat n - of_nat ?rm) ?rm (workBuf state) (s\<lparr>mem := m\<rparr>)
        = s\<lparr>mem := mem_write m (workBuf state) ?d\<rparr>"
      by (simp add: addr)
    have page: "mem_read (mem_write m (workBuf state) ?d) (workBuf state) ?rm = ?d"
      using mem_read_write_same [of m "workBuf state" ?d] by (simp only: length_mem_read)
    have "mem_read flash st n = mem_read flash st (loop_end n) @ ?d"
      using mem_read_append [of flash st "loop_end n" ?rm] le by simp
    with False ds show ?thesis
      by (intro exI [of _ "ds @ [?d]"] exI [of _ "mem_write m (workBuf state) ?d"])
        (simp add: CommandRunHashSha256_def pa hp rd page Let_def)
  qed
qed

definition sim_partition :: "(u8 list, sim) platform" where
  "sim_partition = sim_platform\<lparr>HotaRead := \<lambda>addr n w. ((0, mem_read (\<lambda>a. of_nat a) (unat addr) (unat n)), w)\<rparr>"

lemma hash_covers_witness:
  "\<exists>m. CommandRunHashSha256 sim_partition (int 5) (int 1024) sim_state (sim_boot [])
    = print (sha256_msg []) (sim_boot []\<lparr>mem := m\<rparr>)"
proof -
  have side: "partition_reads sim_partition (\<lambda>a. of_nat a) 4096" "5 + 1024 \<le> (4096 :: nat)"
    "(4096 :: nat) \<le> 4294967296" "(5 :: nat) < 2147483648" "(1024 :: nat) < 2147483648"
    by (simp_all add: partition_reads_def sim_partition_def)
  have upd: "AppSha256Update sim_partition d c = c @ d" "AppSha256Init sim_partition = []"
    "AppSha256Finish sim_partition = take 32" for d c
    by (simp_all add: sim_partition_def)
  have cat: "fold (AppSha256Update sim_partition) ds c = c @ concat ds" for ds c
    by (induction ds arbitrary: c) (simp_all add: upd)
  from hash_covers [OF side, of sim_state "sim_boot []"] obtain ds m where
    "CommandRunHashSha256 sim_partition (int 5) (int 1024) sim_state (sim_boot [])
      = print (sha256_msg (AppSha256Finish sim_partition (fold (AppSha256Update sim_partition) ds (AppSha256Init sim_partition))))
          (sim_boot []\<lparr>mem := m\<rparr>)" and "concat ds = []" by (auto simp: mem_read_def)
  then show ?thesis unfolding cat upd by (metis append_Nil take_Nil)
qed

text \<open>
  The print and the hash command read the same. For every platform, and the same arguments, they
  make the same calls of \<open>HotaRead\<close> in the same order: they leave the same world and the same memory
  behind, so the page that the hash command skips is not printed either.
\<close>

theorem print_reads_as_hash:
  "world (CommandRunPrint P a1 a2 state s) = world (CommandRunHashSha256 P a1 a2 state s)
   \<and> mem (CommandRunPrint P a1 a2 state s) = mem (CommandRunHashSha256 P a1 a2 state s)"
proof -
  let ?st = "u32_of_int a1" and ?n = "snd (page_args a1 a2)"
  obtain ctx s1 where hp: "hash_pages P ?st ?n (workBuf state) 0 1024 (AppSha256Init P, s) = (ctx, s1)" by force
  have "same_reads s s" by (simp add: same_reads_def)
  from same_pages [OF this, of P ?st ?n "workBuf state" 0 1024 "AppSha256Init P"] hp
  have "same_reads (print_pages P ?st ?n (workBuf state) 0 1024 s) s1" by simp
  then have "same_reads (CommandRunPrint P a1 a2 state s) (CommandRunHashSha256 P a1 a2 state s)"
    using hp by (auto simp: CommandRunPrint_def CommandRunHashSha256_def page_args_def Let_def
        intro!: same_reads_read)
  then show ?thesis by (simp add: same_reads_def)
qed

section \<open>Signatures\<close>

lemma check_signature_idle: "serial_idle s \<Longrightarrow> serial_idle (check_signature K P h sign s)"
  using tidy_idle [of 0 s "check_signature K P h sign s"] tidy_refl [of s 0]
  by (auto simp: check_signature_def Let_def tidy_do_call split: prod.split)

lemma check_signature_verdict:
  assumes "\<And>w. fst (HotaGetPubKey P w) = (key, n)"
    and "\<And>w. fst (os_call K (Mbedtls_pk_parse_public_key key n) w) = 0 \<longleftrightarrow> valid_key"
    and "\<And>h sign w. fst (os_call K (Mbedtls_rsa_pkcs1_verify h sign) w) = 0 \<longleftrightarrow> genuine h sign"
  shows "\<exists>t. console (check_signature K P h sign s) = t @ (if \<not> valid_key then ''Parse public key failed.''
        else if genuine h sign then ''Sign check success!'' else ''Sign check fail!'') @ CRLF"
proof -
  let ?s1 = "call K Mbedtls_pk_init s"
  obtain w where key: "HotaGetPubKey P (world ?s1) = ((key, n), w)"
    using assms(1) [of "world ?s1"] by (cases "HotaGetPubKey P (world ?s1)") auto
  define s2 where "s2 = (if key = None then print (''Get key fail'' @ CRLF) (?s1\<lparr>world := w\<rparr>) else ?s1\<lparr>world := w\<rparr>)"
  obtain p s3 where parse: "do_call K (Mbedtls_pk_parse_public_key key n) s2 = (p, s3)" by force
  then have p: "p = 0 \<longleftrightarrow> valid_key"
    using assms(2) [of "world s2"] by (auto simp: do_call_def split: prod.splits)
  let ?s4 = "call K Mbedtls_entropy_init (call K Mbedtls_rsa_set_padding s3)"
  obtain v s5 where verify: "do_call K (Mbedtls_rsa_pkcs1_verify h sign) ?s4 = (v, s5)" by force
  then have v: "v = 0 \<longleftrightarrow> genuine h sign"
    using assms(3) [of h sign "world ?s4"] by (auto simp: do_call_def split: prod.splits)
  have "check_signature K P h sign s = (if p \<noteq> 0 then print (''Parse public key failed.'' @ CRLF) s3
      else call K Mbedtls_pk_free (print ((if v \<noteq> 0 then ''Sign check fail!'' else ''Sign check success!'') @ CRLF) s5))"
    unfolding check_signature_def Let_def key prod.case s2_def [symmetric] parse verify by (rule refl)
  then show ?thesis using p v by simp
qed


text \<open>
  C18: A signature survives being typed. On a kernel that behaves as documented, when the bytes \<open>g\<close>
  (at most 128) are typed as hexadecimal digits and a line feed, \<open>ReadSign\<close> returns their number and
  the array begins with exactly these bytes, the rest of it unchanged. (After 128 bytes the line
  feed is left on the line.)
\<close>

theorem ReadSign_roundtrip:
  assumes "line_kernel K line pend sent obs" "serial_idle s"
    and "serial_stream line s = map Byte (str (hex_dump g)) @ Byte 10 # r"
    and "length buf = 32" "length sign = 128" "length g \<le> 128"
  shows "\<exists>s'. ReadSign (serial_port K) P buf sign s = Some (int (length g), g @ drop (length g) sign, s')
    \<and> serial_idle s' \<and> serial_stream line s' = (if length g < 128 then r else Byte 10 # r) \<and> mem s' = mem s"
  using rx_line.sign_lines [OF serial_rx_line [OF assms(1)] assms(2) _ assms(4,5), of g r 0 P] assms(3,6)
  by (auto simp: ReadSign_def hex_text_def put_at_def kept_def)

lemma ReadSign_roundtrip_witness:
  "\<exists>s'. ReadSign (serial_port sim_kernel) sim_platform (replicate 32 0) (replicate 128 0)
      (sim_boot (map Byte (str (hex_dump [0xDE, 0xAD])) @ Byte 10 # [])) = Some (2, 0xDE # 0xAD # replicate 126 0, s')"
proof -
  have side: "length (replicate 32 (0 :: u8)) = 32" "length (replicate 128 (0 :: u8)) = 128"
    "length [0xDE, 0xAD :: u8] \<le> 128" by simp_all
  have d: "drop 2 (replicate 128 (0 :: u8)) = replicate 126 0" by simp
  from ReadSign_roundtrip [OF sim_line_kernel sim_boot_sel(1,2) side, of sim_platform] d show ?thesis
    by (auto simp del: drop_replicate replicate.simps simp: numeral_2_eq_2)
qed



lemma sign_command:
  assumes "line_kernel K line pend sent obs" "serial_idle s"
    and "serial_stream line s = Byte 123 # Byte 115 # map Byte (str (hex_dump g)) @ Byte 10 # r"
    and "length g \<le> 128"
  shows "\<exists>rest s'. CommandProcess K P state s
      = Some (Command COMMAND_TYPE_SIGN, state, check_signature K P (hash state) (g @ rest) s')
    \<and> length (g @ rest) = 128 \<and> serial_idle s'"
proof -
  have cmd: "command_of (uint (115 :: u8)) = Some COMMAND_TYPE_SIGN" by (simp add: command_of_def)
  from typed_header [OF assms(1-3) cmd, of P state] obtain s1 where
    cp: "CommandProcess K P state s = after_letter K P COMMAND_TYPE_SIGN state s1"
    and s1: "serial_idle s1" "serial_stream line s1 = map Byte (hex_text g) @ Byte 10 # r"
    by (auto simp: hex_text_def)
  let ?buf = "local_array P 32 s1" and ?sign = "local_array P 128 s1"
  have len: "length ?buf = 32" "length ?sign = 128" by (simp_all add: local_array_def)
  from rx_line.sign_lines [OF serial_rx_line [OF assms(1)] s1 len, of 0 P] assms(4) obtain s2 where
    rs: "ReadSign (serial_port K) P ?buf ?sign s1 = Some (int (length g), g @ drop (length g) ?sign, s2)"
    and s2: "serial_idle s2" by (auto simp: ReadSign_def put_at_def)
  let ?g = "g @ drop (length g) ?sign"
  have "CommandProcess K P state s = Some (Command COMMAND_TYPE_SIGN, state, check_signature K P (hash state) ?g s2)"
    by (simp add: cp after_letter_def CommandRunSign_def rs)
  moreover have "length ?g = 128" using len assms(4) by simp
  ultimately show ?thesis using s2 by blast
qed

text \<open>
  C19: The verdict on a signature. After \<open>{s\<close> and the signature's digits, on a platform whose
  updater has one public key, and an mbedTLS whose parser accepts valid keys and whose verification
  depends on the hash and the signature, the command always returns its code and leaves the state;
  mbedTLS is given the hash that the state keeps and exactly the typed bytes (followed by what the
  array held), and the last line printed says whether the key was refused, the signature is
  genuine, or it is not.
\<close>

theorem signature_verdict:
  assumes "line_kernel K line pend sent obs" "serial_idle s"
    and "serial_stream line s = Byte 123 # Byte 115 # map Byte (str (hex_dump g)) @ Byte 10 # r"
    and "length g \<le> 128"
    and "\<And>w. fst (HotaGetPubKey P w) = (key, n)"
    and "\<And>w. fst (os_call K (Mbedtls_pk_parse_public_key key n) w) = 0 \<longleftrightarrow> valid_key"
    and "\<And>h sign w. fst (os_call K (Mbedtls_rsa_pkcs1_verify h sign) w) = 0 \<longleftrightarrow> genuine h sign"
  shows "\<exists>rest s' t. CommandProcess K P state s = Some (Command COMMAND_TYPE_SIGN, state, s')
    \<and> console s' = t @ (if \<not> valid_key then ''Parse public key failed.''
        else if genuine (hash state) (g @ rest) then ''Sign check success!'' else ''Sign check fail!'') @ CRLF
    \<and> length (g @ rest) = 128 \<and> serial_idle s'"
proof -
  from sign_command [OF assms(1-4), of P state] obtain rest s1 where
    "CommandProcess K P state s = Some (Command COMMAND_TYPE_SIGN, state, check_signature K P (hash state) (g @ rest) s1)"
    "length (g @ rest) = 128" "serial_idle s1" by blast
  with check_signature_verdict [OF assms(5-7)] check_signature_idle show ?thesis by blast
qed

text \<open>A world in which mbedTLS accepts one signature of one hash.\<close>

definition sign_kernel :: "u8 list \<Rightarrow> sim kernel" where
  "sign_kernel good = sim_kernel\<lparr>os_call := \<lambda>c w. case c of
     Mbedtls_rsa_pkcs1_verify h sign \<Rightarrow> (if take 2 sign = good then 0 else - 1, w)
   | _ \<Rightarrow> sim_os_call c w\<rparr>"

lemma sign_line_kernel: "line_kernel (sign_kernel good) sim_line sim_pend sim_sent sim_calls"
  using sim_line_kernel by (simp add: line_kernel_def sign_kernel_def)

lemma signature_verdict_witness:
  "\<exists>s' t. CommandProcess (sign_kernel [0xDE, 0xAD]) sim_platform sim_state
      (sim_boot (Byte 123 # Byte 115 # map Byte (str (hex_dump [0xDE, 0xAD])) @ Byte 10 # []))
      = Some (Command COMMAND_TYPE_SIGN, sim_state, s') \<and> console s' = t @ ''Sign check success!'' @ CRLF"
proof -
  have parse: "fst (os_call (sign_kernel [0xDE, 0xAD]) (Mbedtls_pk_parse_public_key None 0) w) = 0 \<longleftrightarrow> True"
    and verify: "fst (os_call (sign_kernel [0xDE, 0xAD]) (Mbedtls_rsa_pkcs1_verify h sign) w) = 0
      \<longleftrightarrow> take 2 sign = [0xDE, 0xAD]" for h sign w
    by (simp_all add: sign_kernel_def)
  have side: "length [0xDE, 0xAD :: u8] \<le> 128" "fst (HotaGetPubKey sim_platform w) = (None, 0)" for w
    by simp_all
  from signature_verdict [OF sign_line_kernel sim_boot_sel(1,2) side parse verify, of sim_state]
  show ?thesis by fastforce
qed

end
