(* ===== verification/Update_Props.thy ===== *)
theory Update_Props
  imports Console_Props
begin

text \<open>
  Commands that follow each other on the line: a firmware update as a user performs it (upload, then
  signature check), where the hash that is checked comes from, and the debug command.
\<close>

section \<open>An update and its signature\<close>

text \<open>
  \<open>AppSha256Update\<close> as documented: hashing \<open>a\<close> and then \<open>b\<close> is hashing \<open>a @ b\<close>.
\<close>

definition sha_streams :: "('c, 'w) platform \<Rightarrow> bool" where
  "sha_streams P \<longleftrightarrow> (\<forall>c. AppSha256Update P [] c = c)
     \<and> (\<forall>a b c. AppSha256Update P b (AppSha256Update P a c) = AppSha256Update P (a @ b) c)"

lemma sha_streams_fold: "sha_streams P \<Longrightarrow> fold (AppSha256Update P) ds c = AppSha256Update P (concat ds) c"
  by (induction ds arbitrary: c) (simp_all add: sha_streams_def)

definition sha256_of :: "('c, 'w) platform \<Rightarrow> u8 list \<Rightarrow> u8 list" where
  "sha256_of P d = AppSha256Finish P (AppSha256Update P d (AppSha256Init P))"

definition cmd_msg :: "CommandType \<Rightarrow> string" where
  "cmd_msg cmd = '' === OTA_TestThread:683 cmd: '' @ show_int (command_code cmd) @ CRLF"

lemma ota_rounds_Command:
  "CommandProcess K P state s = Some (Command cmd, state1, s1) \<Longrightarrow>
    ota_rounds K P (Suc n) state s
    = map_option (\<lambda>(outs, st, x). (Command cmd # outs, st, x)) (ota_rounds K P n state1 (print (cmd_msg cmd) s1))"
  by (cases "ota_rounds K P n state1 (print (cmd_msg cmd) s1)") (auto simp: cmd_msg_def Let_def)

text \<open>
  C1: An update, as it is performed. On a kernel that behaves as documented, let \<open>{u<size> <offset>\<close> be
  typed, an XMODEM session follow (with blocks damaged, cut short and repeated), and after its
  closing pause \<open>{s\<close> with a signature in hexadecimal. The task runs both commands and returns to the
  line; \<open>HotaWrite\<close> was given the payload cut to the size, once and in order, from the offset; the
  state keeps the SHA-256 of exactly these bytes; and the verdict printed is that of the public key
  on this hash and the bytes typed.
\<close>

theorem update_is_verified:
  assumes "line_kernel K line pend sent obs" "hota_kernel K line sent obs hw" "serial_idle s"
    and "n < 2147483648" "off < 2147483648" "k < 32" "crc \<longleftrightarrow> k < 16"
    and "serial_stream line s = map Byte (str (''{u'' @ show_nat n @ '' '' @ show_nat off @ [CHR 10]))
        @ replicate k Silence @ session_line crc 1 ts
        @ Silence # map Byte (str (''{s'' @ hex_dump g @ [CHR 10])) @ r"
    and "session_ok crc 1 MAXRETRANS ts" "length g \<le> 128" "sha_streams P"
    and "\<And>w. fst (HotaGetPubKey P w) = (key, len)"
    and "\<And>w. fst (os_call K (Mbedtls_pk_parse_public_key key len) w) = 0 \<longleftrightarrow> valid_key"
    and "\<And>h sign w. fst (os_call K (Mbedtls_rsa_pkcs1_verify h sign) w) = 0 \<longleftrightarrow> genuine h sign"
  shows "\<exists>cs s1 rest t state' s'.
      CommandProcess K P state s = Some (Command COMMAND_TYPE_UPLOAD, state', s1)
    \<and> contiguous 0 cs (int (min n (length (concat (blocks ts)))))
    \<and> concat (map snd cs) = take n (concat (blocks ts))
    \<and> obs (world s1) = fold (\<lambda>(addr, d). hw d (of_nat off + addr)) cs (obs (world s))
    \<and> hash state' = sha256_of P (take n (concat (blocks ts)))
    \<and> ota_rounds K P 2 state s = Some ([Command COMMAND_TYPE_UPLOAD, Command COMMAND_TYPE_SIGN], state', s')
    \<and> length (g @ rest) = 128
    \<and> console s' = t @ (if \<not> valid_key then ''Parse public key failed.''
        else if genuine (hash state') (g @ rest) then ''Sign check success!'' else ''Sign check fail!'') @ CRLF
        @ cmd_msg COMMAND_TYPE_SIGN
    \<and> serial_idle s'"
proof -
  let ?q = "Silence # map Byte (str (''{s'' @ hex_dump g @ [CHR 10])) @ r"
  from upload_line [OF assms(1-7) quiet_intros(2) assms(8,9), of P state] obtain cs h s1 where
    up: "CommandProcess K P state s = Some (Command COMMAND_TYPE_UPLOAD, state\<lparr>hash := h\<rparr>, s1)"
    and h: "h = AppSha256Finish P (fold (AppSha256Update P) (map snd cs) (AppSha256Init P))"
    and cs: "contiguous 0 cs (int (min n (length (concat (blocks ts)))))"
      "concat (map snd cs) = take n (concat (blocks ts))"
      "obs (world s1) = fold (\<lambda>(addr, d). hw d (of_nat off + addr)) cs (obs (world s))"
    and s1: "serial_stream line s1 = tl ?q" "serial_idle s1" by blast
  have hash: "h = sha256_of P (take n (concat (blocks ts)))"
    using cs(2) by (simp add: h sha256_of_def sha_streams_fold [OF assms(11)])
  let ?state = "state\<lparr>hash := h\<rparr>" and ?s2 = "print (cmd_msg COMMAND_TYPE_UPLOAD) s1"
  have "serial_stream line ?s2 = Byte 123 # Byte 115 # map Byte (str (hex_dump g)) @ Byte 10 # r"
    using s1(1) rx_line.stream_print [OF serial_rx_line [OF assms(1)]] by (simp add: str_def of_char_def)
  from sign_command [OF assms(1) _ this assms(10), of P ?state] s1(2) obtain rest s3 where
    sg: "CommandProcess K P ?state ?s2
      = Some (Command COMMAND_TYPE_SIGN, ?state, check_signature K P h (g @ rest) s3)"
    and s3: "length (g @ rest) = 128" "serial_idle s3" by auto
  from check_signature_verdict [OF assms(12-14), of h "g @ rest" s3] obtain t where
    "console (check_signature K P h (g @ rest) s3) = t @ (if \<not> valid_key then ''Parse public key failed.''
      else if genuine h (g @ rest) then ''Sign check success!'' else ''Sign check fail!'') @ CRLF" by blast
  with up cs hash s3 sg check_signature_idle [OF s3(2), of K P h "g @ rest"] show ?thesis
    by (intro exI [of _ cs] exI [of _ s1] exI [of _ rest] exI [of _ t] exI [of _ ?state]
        exI [of _ "print (cmd_msg COMMAND_TYPE_SIGN) (check_signature K P h (g @ rest) s3)"])
      (simp add: numeral_2_eq_2 ota_rounds_Command del: ota_rounds.simps(2))
qed


lemma sign_hota_kernel:
  "hota_kernel (sign_kernel good) sim_line sim_sent sim_calls
     (\<lambda>data off calls. calls @ [HotaWrite data off (of_nat (length data))])"
  by (simp add: hota_kernel_def sign_kernel_def)

lemma sim_sha_streams: "sha_streams sim_platform"
  by (simp add: sha_streams_def)

lemma update_is_verified_witness:
  "\<exists>state' s' t. ota_rounds (sign_kernel [0xDE, 0xAD]) sim_platform 2 sim_state
      (sim_boot (map Byte (str (''{u'' @ show_nat 100 @ '' '' @ show_nat 8 @ [CHR 10]))
        @ replicate 1 Silence @ session_line True 1 demo_session
        @ Silence # map Byte (str (''{s'' @ hex_dump [0xDE, 0xAD] @ [CHR 10])) @ []))
      = Some ([Command COMMAND_TYPE_UPLOAD, Command COMMAND_TYPE_SIGN], state', s')
    \<and> hash state' = replicate 32 7
    \<and> console s' = t @ ''Sign check success!'' @ CRLF @ cmd_msg COMMAND_TYPE_SIGN"
proof -
  let ?K = "sign_kernel [0xDE, 0xAD]"
  let ?s = "sim_boot (map Byte (str (''{u'' @ show_nat 100 @ '' '' @ show_nat 8 @ [CHR 10]))
        @ replicate 1 Silence @ session_line True 1 demo_session
        @ Silence # map Byte (str (''{s'' @ hex_dump [0xDE, 0xAD] @ [CHR 10])) @ [])"
  have side: "serial_idle ?s" "(100 :: nat) < 2147483648" "(8 :: nat) < 2147483648" "(1 :: nat) < 32"
    "True \<longleftrightarrow> (1 :: nat) < 16" and len: "length [0xDE, 0xAD :: u8] \<le> 128" by simp_all
  have key: "fst (HotaGetPubKey sim_platform w) = (None, 0)"
    and parse: "fst (os_call ?K (Mbedtls_pk_parse_public_key None 0) w) = 0 \<longleftrightarrow> True"
    and verify: "fst (os_call ?K (Mbedtls_rsa_pkcs1_verify h sign) w) = 0 \<longleftrightarrow> take 2 sign = [0xDE, 0xAD]" for h sign w
    by (simp_all add: sign_kernel_def)
  from update_is_verified [OF sign_line_kernel sign_hota_kernel side sim_boot_sel(2) demo_session_ok len
      sim_sha_streams key parse verify, of sim_state]
  obtain rest :: "u8 list" and t state' s' where run: "ota_rounds ?K sim_platform 2 sim_state ?s
      = Some ([Command COMMAND_TYPE_UPLOAD, Command COMMAND_TYPE_SIGN], state', s')"
    and hash: "hash state' = sha256_of sim_platform (take 100 (concat (blocks demo_session)))"
    and con: "console s' = t @ (if \<not> True then ''Parse public key failed.''
        else if take 2 ([0xDE, 0xAD] @ rest) = [0xDE, 0xAD] then ''Sign check success!'' else ''Sign check fail!'') @ CRLF
        @ cmd_msg COMMAND_TYPE_SIGN" by blast
  from hash have "hash state' = replicate 32 7" by (simp add: sha256_of_def demo_session_def)
  with run con show ?thesis by auto
qed

section \<open>Where the hash comes from\<close>

text \<open>For every kernel: only a completed upload command changes the hash.\<close>

lemma upload_hash:
  assumes "serial_idle s" "a1 < 2147483648" "CommandRunUpload K P a1 a2 state s = Some (state', s')"
  shows "\<exists>cs m. contiguous 0 cs m \<and> m \<le> max 0 a1
    \<and> hash state' = AppSha256Finish P (fold (AppSha256Update P) (map snd cs) (AppSha256Init P))"
proof -
  let ?a = "\<lparr>sz = a1, start = a2, sha256 = AppSha256Init P\<rparr>"
  from assms(3) obtain r a s1 where
    x: "xmodemReceive (serial_port K) (workBuf state) a1 (xmodemReceiveCB P K) ?a s = Some (r, a, s1)"
    and h: "hash state' = AppSha256Finish P (sha256 a)"
    by (auto simp: CommandRunUpload_def Let_def bind_eq_Some_conv)
  from serial_xm.xmodemReceive_ok [OF assms(2,1) x] obtain cs m where
    a: "a = fold (arg_effect P) cs ?a" and cs: "contiguous 0 cs m" "m \<le> max 0 a1" by blast
  have "sha256 (fold (arg_effect P) cs b) = fold (AppSha256Update P) (map snd cs) (sha256 b)"
    if "\<forall>(addr, d) \<in> set cs. d \<noteq> [] \<and> length d \<le> 1024" for b cs
    using that by (induction cs arbitrary: b) (auto simp: arg_effect_def small_length_pos)
  from this [OF contiguous_chunks [OF cs(1)], of ?a] cs h show ?thesis by (auto simp: a)
qed


definition uploaded ::
    "'w kernel \<Rightarrow> ('c, 'w) platform \<Rightarrow> outcome \<Rightarrow> OTA_AppState \<Rightarrow> OTA_AppState \<Rightarrow> 'w sys \<Rightarrow> bool" where
  "uploaded K P out state state' s' \<longleftrightarrow> out = Command COMMAND_TYPE_UPLOAD
     \<and> (\<exists>a1 a2 s1. serial_idle s1 \<and> a1 < 2147483648 \<and> CommandRunUpload K P a1 a2 state s1 = Some (state', s'))"

lemma run_with_args_state:
  assumes "serial_idle s" "run_with_args K P cmd buf state s = Some (out, state', s')"
  shows "state' = state \<or> uploaded K P out state state' s'"
  using assms(2)
proof (cases rule: run_with_args_cases)
  case (Upload a1 a2 t)
  with assms(1) show ?thesis unfolding uploaded_def by (metis serial_rx.ok_print)
qed simp_all

lemma run_command_state:
  "serial_idle s \<Longrightarrow> run_command K P cmd buf state s = Some (out, state', s') \<Longrightarrow>
    state' = state \<or> uploaded K P out state state' s'"
  using run_with_args_state [of s K P cmd buf state out state' s']
  by (auto simp: run_command_def run_word_def split: if_splits prod.splits option.splits)

lemma after_letter_state:
  assumes "serial_idle s" "after_letter K P cmd state s = Some (out, state', s')"
  shows "state' = state \<or> uploaded K P out state state' s'"
proof (cases "cmd = COMMAND_TYPE_SIGN")
  case True
  with assms(2) show ?thesis by (auto simp: after_letter_def bind_eq_Some_conv)
next
  case False
  with assms(2) obtain res buf s1 where
    rl: "ReadLine (serial_port K) (char_signed P) (replicate 32 0) s = Some (res, buf, s1)"
    and "state' = state \<or> run_command K P cmd buf state s1 = Some (out, state', s')"
    by (auto simp: after_letter_def bind_eq_Some_conv split: if_splits)
  with run_command_state [OF serial_rx.ReadLine_safe [OF assms(1) rl, THEN conjunct1]] show ?thesis by blast
qed


lemma CommandProcess_state:
  assumes "serial_idle s" "CommandProcess K P state s = Some (out, state', s')"
  shows "state' = state \<or> uploaded K P out state state' s'"
  using assms
proof (cases rule: CommandProcess_cases)
  case (Letter cmd s1)
  from after_letter_state [OF this(1,3)] show ?thesis .
qed simp




section \<open>The debug command\<close>

text \<open>A letter and two decimal numbers on a line, as \<open>strtoul\<close> reads them.\<close>

lemma number_length_u32: "n < 4294967296 \<Longrightarrow> length (str (show_nat n)) \<le> 10"
  using digits_of_length [of n 9] by (simp add: str_def show_nat_digits)

lemma two_numbers_length_u32: "n < 4294967296 \<Longrightarrow> m < 4294967296 \<Longrightarrow> length (two_numbers n m) \<le> 21"
  using number_length_u32 [of n] number_length_u32 [of m] by (simp add: two_numbers_def)

lemma debug_two_numbers:
  assumes "a < 4294967296" "n < 4294967296" "c = 109 \<or> c = 102"
  shows "CommandRunDebug P (zero_padded 32 (c # two_numbers a n)) s = debug_dump P c (of_nat a) (of_nat n) s"
proof -
  obtain k where k: "32 - Suc (length (two_numbers a n)) = Suc k"
    using two_numbers_length_u32 [OF assms(1,2)] by (cases "32 - Suc (length (two_numbers a n))") auto
  have z: "zero_padded 32 (c # two_numbers a n) = c # str (show_nat a) @ 32 # str (show_nat n) @ 0 # replicate k 0"
    using k by (simp add: zero_padded_def) (simp add: two_numbers_def)
  have s1: "strtoul e 10 (str (show_nat a) @ 32 # str (show_nat n) @ 0 # replicate k 0) 0
      = Some (of_nat a, 32 # str (show_nat n) @ 0 # replicate k 0, 0)" for e
    using assms(1) by (intro strtoul_decimal) (simp_all add: no_digit)
  have s2: "strtoul e 10 (32 # str (show_nat n) @ 0 # replicate k 0) 0 = Some (of_nat n, 0 # replicate k 0, 0)" for e
    using assms(2) by (intro strtoul_next) (simp_all add: no_digit)
  show ?thesis
    using assms(3) by (auto simp: CommandRunDebug_def z s1 s2 strtoul_failed_def)
qed

lemma debug_letters: "char_of (109 :: nat) = CHR ''m''" "char_of (102 :: nat) = CHR ''f''"
  by code_simp+

text \<open>Typed on the console.\<close>

lemma debug_line:
  assumes L: "line_kernel K line pend sent obs" and "serial_idle s"
    and st: "serial_stream line s = Byte 123 # Byte 100 # map Byte (c # two_numbers a n) @ Byte 10 # r"
    and "a < 4294967296" "n < 4294967296" "c = 109 \<or> c = 102"
  shows "\<exists>s'. CommandProcess K P state s
      = (let (out, x) = debug_dump P c (of_nat a) (of_nat n) s' in Some (out, state, x))
    \<and> serial_idle s' \<and> mem s' = mem s \<and> obs (world s') = obs (world s)"
proof -
  let ?t = "c # two_numbers a n"
  have pl: "\<forall>x \<in> set ?t. plain x" using two_numbers_plain assms(6) by (auto simp: plain_def)
  then have ty: "\<forall>x \<in> set ?t. typable (char_signed P) x" using plain_typable by blast
  have "length ?t < 32" using two_numbers_length_u32 [OF assms(4,5)] by simp
  moreover have "command_of (uint (100 :: u8)) = Some COMMAND_TYPE_DEBUG" by (simp add: command_of_def)
  ultimately obtain s' where
    "CommandProcess K P state s = run_command K P COMMAND_TYPE_DEBUG (zero_padded 32 (edited ?t)) state s'"
    "serial_idle s'" "kept sent obs (123 # 100 # echoed ?t @ [10]) s s'"
    using typed_command [OF L assms(2) st _ _ ty, of COMMAND_TYPE_DEBUG state] by auto
  then show ?thesis
    by (auto simp: edited_plain [OF pl] run_command_def debug_two_numbers [OF assms(4-6)] kept_def)
qed

text \<open>
  C21: The debug command reads whatever it is asked for. On a kernel that behaves as documented, after
  \<open>{dm<address> <n>\<close> the command prints the \<open>n\<close> bytes of memory at the address, any address and any
  number that fit in 32 bits, and writes nothing; after \<open>{df<address> <n>\<close> it prints the \<open>n\<close> bytes of
  flash, and the only memory written is the block that \<open>malloc\<close> returned (if it returned one).
\<close>

theorem debug_command:
  assumes "line_kernel K line pend sent obs" "serial_idle s" "c = CHR ''m'' \<or> c = CHR ''f''"
    and "serial_stream line s = map Byte (str (''{d'' @ [c] @ show_nat a @ '' '' @ show_nat n @ [CHR 10])) @ r"
    and "a < 4294967296" "n < 4294967296"
    and "\<And>w. fst (malloc_ptr P (of_nat n) w) = p" "p \<noteq> 0"
    and "\<And>w. fst (flash_read_page P (of_nat a) (of_nat n) w) = mem_read flash a n"
  shows "\<exists>t s'. CommandProcess K P state s = Some (Command COMMAND_TYPE_DEBUG, state, s')
    \<and> console s' = t @ ''Debug('' @ [c] @ ''): ''
        @ concat (map (hex_char (char_signed P)) (mem_read (if c = CHR ''m'' then mem s else flash) a n)) @ CRLF
    \<and> (\<forall>x. c = CHR ''m'' \<or> x < p \<or> p + n \<le> x \<longrightarrow> mem s' x = mem s x) \<and> serial_idle s'"
proof -
  let ?c = "of_char c :: u8"
  have c: "?c = 109 \<or> ?c = 102" "?c = 102 \<longleftrightarrow> c = CHR ''f''" "char_of (unat ?c) = c"
    using assms(3) by (auto simp: of_char_def debug_letters)
  have "serial_stream line s = Byte 123 # Byte 100 # map Byte (?c # two_numbers a n) @ Byte 10 # r"
    using assms(4) by (simp add: str_append line_chars two_numbers_def) (simp add: str_def of_char_def)
  from debug_line [OF assms(1,2) this assms(5,6) c(1), of P state] obtain s1 where
    cp: "CommandProcess K P state s
      = (let (out, x) = debug_dump P ?c (of_nat a) (of_nat n) s1 in Some (out, state, x))"
    and s1: "serial_idle s1" "mem s1 = mem s" by blast
  have n: "unat (of_nat n :: u32) = n" "unat (of_nat a :: u32) = a"
    using assms(5,6) by (simp_all add: unat_of_nat)
  show ?thesis
  proof (cases "c = CHR ''m''")
    case True
    with cp s1 c show ?thesis by (simp add: debug_dump_def n)
  next
    case False
    with assms(3) have f: "c = CHR ''f''" by blast
    have data: "mem_read (mem_write m p (mem_read flash a n)) p n = mem_read flash a n" for m
      using mem_read_write_same [of m p "mem_read flash a n"] by simp
    obtain w1 w2 where "malloc_ptr P (of_nat n) (world s1) = (p, w1)"
      "flash_read_page P (of_nat a) (of_nat n) w1 = (mem_read flash a n, w2)"
      by (metis assms(7,9) prod.collapse)
    with cp s1 c f assms(8) data show ?thesis
      by (simp add: debug_dump_def malloc_ptr_of_def n mem_write_outside)
  qed
qed

lemma debug_command_witness:
  "\<exists>t s'. CommandProcess sim_kernel sim_platform sim_state
      (sim_boot (map Byte (str (''{d'' @ [CHR ''m''] @ show_nat 64 @ '' '' @ show_nat 2 @ [CHR 10])) @ []))
      = Some (Command COMMAND_TYPE_DEBUG, sim_state, s')
    \<and> console s' = t @ ''Debug(m): 0909'' @ CRLF"
proof -
  have side: "CHR ''m'' = CHR ''m'' \<or> CHR ''m'' = CHR ''f''" "(64 :: nat) < 4294967296" "(2 :: nat) < 4294967296"
    "fst (malloc_ptr sim_platform (of_nat 2) w) = 4096" "(4096 :: nat) \<noteq> 0"
    "fst (flash_read_page sim_platform (of_nat 64) (of_nat 2) w) = mem_read (\<lambda>_. 0) 64 2" for w
    by (simp_all add: mem_read_def sim_platform_def) (simp add: numeral_2_eq_2)
  have hex: "concat (map (hex_char True) (mem_read (\<lambda>_. 9) 64 2)) = ''0909''"
    by code_simp
  from debug_command [where r = "[]", OF sim_line_kernel sim_boot_sel(1) side(1) sim_boot_sel(2) side(2-6), of sim_state] hex
  show ?thesis by (simp only: sim_platform_sel sim_boot_sel if_True simp_thms append.simps append_assoc) auto
qed

end
