(* ===== verification/Console_Total.thy ===== *)
theory Console_Total
  imports Sign_Line
begin

text \<open>
  The console's reads return on every line that ends, whatever is typed: \<open>ReadLine\<close> consumes an
  item of the line in each round or fills its buffer, \<open>ReadSign\<close> adds 16 bytes for each full line;
  and \<open>strtoul\<close> is defined on every text that has a NUL.
\<close>

section \<open>Text with a NUL\<close>

lemma skip_space_ends: "0 \<in> set cs \<Longrightarrow> \<exists>r. skip_space cs = Some r \<and> 0 \<in> set r"
  by (induction cs) (auto simp: is_space_def)

lemma take_sign_ends: "0 \<in> set cs \<Longrightarrow> \<exists>neg r. take_sign cs = Some (neg, r) \<and> 0 \<in> set r"
  by (cases cs) auto

lemma take_prefix_ends: "0 \<in> set cs \<Longrightarrow> 0 \<in> set (take_prefix base cs)"
  by (induction base cs rule: take_prefix.induct) auto

lemma take_digits_ends: "0 \<in> set cs \<Longrightarrow> \<exists>ds r. take_digits base cs = Some (ds, r) \<and> 0 \<in> set r"
proof (induction cs)
  case (Cons c cs)
  have "digit_of base 0 = None" by (simp add: digit_of_def)
  with Cons show ?case by (cases "c = 0") (auto split: option.split)
qed simp

lemma strtoul_ends:
  assumes "0 \<in> set cs"
  shows "\<exists>v r e. strtoul einval base cs errno = Some (v, r, e) \<and> 0 \<in> set r"
proof -
  from skip_space_ends [OF assms] obtain r1 where 1: "skip_space cs = Some r1" "0 \<in> set r1" by blast
  from take_sign_ends [OF 1(2)] obtain neg r2 where 2: "take_sign r1 = Some (neg, r2)" "0 \<in> set r2" by blast
  from take_digits_ends [OF take_prefix_ends [OF 2(2)]] obtain ds r3 where
    "take_digits base (take_prefix base r2) = Some (ds, r3)" "0 \<in> set r3" by blast
  with 1 2 assms show ?thesis by (simp add: strtoul_def Let_def)
qed

context rx_line
begin

section \<open>Lines\<close>

lemma echo_total:
  assumes "ok s"
  shows "\<exists>c s'. read_with_echo io 5000 s = Some (c, s') \<and> ok s' \<and> stream s' = tl (stream s)
    \<and> (stream s = [] \<longrightarrow> c = -1)"
proof (cases "quiet (stream s)")
  case True
  from echo_quiet [OF assms this] show ?thesis by blast
next
  case False
  then obtain b r where st: "stream s = Byte b # r"
    unfolding quiet_def by (metis list.exhaust rx_item.exhaust)
  from echo_byte [OF assms ticks_5000 st] st show ?thesis by auto
qed

text \<open>The measure of the loop: a deletion consumes a character and gives back one place.\<close>

definition line_measure :: "nat \<times> u8 list \<times> 'a sys \<Rightarrow> nat" where
  "line_measure = (\<lambda>(i, buf, s). 2 * length (stream s) + (length buf - i))"

lemma line_step_total:
  assumes "ok s"
  shows "\<exists>z. line_step io sg (i, buf, s) = Some z \<and> (case z of
      Inl (r, buf', s') \<Rightarrow> ok s' \<and> length (stream s') \<le> length (stream s)
    | Inr (i', buf', s') \<Rightarrow> ok s' \<and> length (stream s') \<le> length (stream s)
        \<and> line_measure (i', buf', s') < line_measure (i, buf, s))"
proof (cases "i < length buf")
  case False
  with assms show ?thesis by (simp add: line_step_def)
next
  case True
  from echo_total [OF assms] obtain c s1 where rd: "read_with_echo io 5000 s = Some (c, s1)" "ok s1"
    "stream s1 = tl (stream s)" "stream s = [] \<longrightarrow> c = -1" by blast
  have c: "to_char True (-1) = -1" "to_char False (-1) = 255" by (simp_all add: to_char_def u8_of_int_def unsigned_minus_1_eq_mask mask_eq_exp_minus_1)
  show ?thesis
  proof (cases "stream s")
    case Nil
    with True rd show ?thesis by (cases sg) (auto simp: line_step_def c line_measure_def Let_def)
  next
    case (Cons x xs)
    with True rd show ?thesis by (auto simp: line_step_def line_measure_def Let_def)
  qed
qed

lemma ReadLine_total:
  assumes "ok s"
  shows "\<exists>r buf' s'. ReadLine io sg buf s = Some (r, buf', s') \<and> ok s' \<and> length (stream s') \<le> length (stream s)"
proof -
  let ?le = "\<lambda>x. ok x \<and> length (stream x) \<le> length (stream s)"
  have "\<exists>z. forever (line_step io sg) (0, buf, s) = Some z \<and> (case z of (r, b, x) \<Rightarrow> ?le x)"
  proof (rule forever_ends [where I = "\<lambda>(i, b, x). ?le x" and m = line_measure])
    fix y :: "nat \<times> u8 list \<times> 'a sys"
    assume le: "case y of (i, b, x) \<Rightarrow> ?le x"
    obtain i b x where y: "y = (i, b, x)" by (cases y)
    with le line_step_total [of x sg i b] obtain z where "line_step io sg y = Some z" "case z of
        Inl (r, buf', s') \<Rightarrow> ok s' \<and> length (stream s') \<le> length (stream x)
      | Inr (i', buf', s') \<Rightarrow> ok s' \<and> length (stream s') \<le> length (stream x)
          \<and> line_measure (i', buf', s') < line_measure y" by blast
    with le y show "\<exists>z. line_step io sg y = Some z \<and> (case z of Inl (r, b, x) \<Rightarrow> ?le x
        | Inr y' \<Rightarrow> (case y' of (i, b, x) \<Rightarrow> ?le x) \<and> line_measure y' < line_measure y)"
      by (intro exI [of _ z]) (auto split: sum.splits)
  qed (use assms in simp)
  then show ?thesis by (auto simp: ReadLine_def)
qed

section \<open>Signatures\<close>

lemma sign_pairs_total: "\<exists>z. sign_pairs einval buf res i nbytes sign s = Some z"
proof (induction einval buf res i nbytes sign s rule: sign_pairs.induct)
  case (1 einval buf res i nbytes sign s)
  show ?case
  proof (cases "i < res")
    case True
    have "0 \<in> set [buf ! i, buf ! (i + 1), 0]" by simp
    from strtoul_ends [OF this] obtain num r errno where
      st: "strtoul einval 16 [buf ! i, buf ! (i + 1), 0] 0 = Some (num, r, errno)" by blast
    show ?thesis
      using "1.IH" [OF True refl st refl refl] True st by (simp add: sign_pairs_step)
  qed (subst sign_pairs.simps; simp)
qed

lemma sign_step_total:
  assumes I: "sign_inv m (n, b, g, x)"
  shows "\<exists>z. sign_step io P (n, b, g, x) = Some z \<and> (case z of
      Inl (r, g', x') \<Rightarrow> ok x' \<and> length (stream x') \<le> length (stream x)
    | Inr (n', b', g', x') \<Rightarrow> length (stream x') \<le> length (stream x) \<and> sign_inv m (n', b', g', x') \<and> n < n')"
proof (cases "n < 128")
  case False
  with I show ?thesis by (auto simp: sign_step_def sign_inv_def)
next
  case True
  have x: "ok x" "length b = 32" "length g = 128" using I by (simp_all add: sign_inv_def)
  from ReadLine_total [OF x(1)] obtain res b1 x1 where
    rl: "ReadLine io (char_signed P) b x = Some (res, b1, x1)" "ok x1" "length (stream x1) \<le> length (stream x)"
    by blast
  obtain p where p: "sign_pairs (strtoul_einval P) b1 (nat res) 0 n g x1 = Some p"
    using sign_pairs_total by blast
  define z where "z = (if res < 0 then Inl (res, g, x1)
     else if int n + res div 2 > 128 then Inl (-1, g, x1)
     else case p of Inl (sign, s) \<Rightarrow> Inl (-1, sign, s)
       | Inr (nbytes, sign, s) \<Rightarrow>
           if nat res < length b1 then Inl (int nbytes, sign, s) else Inr (nbytes, b1, sign, s))"
  have st: "sign_step io P (n, b, g, x) = Some z"
    using True x rl p by (simp add: sign_step_def z_def)
  have len: "length b1 = 32" using ReadLine_safe [OF x(1) rl(1)] x(2) by simp
  have adv: "0 < (nat res + 1) div 2" if "\<not> nat res < 32" using that by simp
  from sign_step_safe [OF I st] sign_pairs_safe [OF p] rl(2,3) len adv show ?thesis
    by (intro exI [of _ z]) (auto simp: st z_def ok_print stream_print split: sum.splits prod.splits if_splits)
qed

lemma ReadSign_total:
  assumes "ok s" "length buf = 32" "length sign = 128"
  shows "\<exists>r sign' s'. ReadSign io P buf sign s = Some (r, sign', s') \<and> ok s'
    \<and> length (stream s') \<le> length (stream s)"
proof -
  let ?le = "\<lambda>x. length (stream x) \<le> length (stream s)"
  let ?I = "\<lambda>y. sign_inv (mem s) y \<and> (case y of (n, b, g, x) \<Rightarrow> ?le x)"
  let ?m = "\<lambda>(n, b, g, x). 128 - n"
  have "\<exists>z. forever (sign_step io P) (0, buf, sign, s) = Some z \<and> (case z of (r, g, x) \<Rightarrow> ok x \<and> ?le x)"
  proof (rule forever_ends [where I = ?I and m = ?m])
    fix y :: "nat \<times> u8 list \<times> u8 list \<times> 'a sys"
    assume I: "?I y"
    obtain n b g x where y: "y = (n, b, g, x)" by (cases y)
    with I have "sign_inv (mem s) (n, b, g, x)" by simp
    from sign_step_total [OF this, of P] obtain z where "sign_step io P y = Some z" "case z of
        Inl (r, g', x') \<Rightarrow> ok x' \<and> length (stream x') \<le> length (stream x)
      | Inr (n', b', g', x') \<Rightarrow> length (stream x') \<le> length (stream x)
          \<and> sign_inv (mem s) (n', b', g', x') \<and> n < n'"
      using y by blast
    with I y show "\<exists>z. sign_step io P y = Some z \<and> (case z of Inl (r, g, x) \<Rightarrow> ok x \<and> ?le x
        | Inr y' \<Rightarrow> ?I y' \<and> ?m y' < ?m y)"
      by (intro exI [of _ z]) (auto simp: sign_inv_def split: sum.splits)
  qed (use assms in \<open>simp add: sign_inv_def\<close>)
  then show ?thesis by (auto simp: ReadSign_def)
qed

end

end
