(* ===== verification/Task_Total.thy ===== *)
theory Task_Total
  imports Console_Total Command_Props
begin

text \<open>
  The task keeps up: on a line that ends every command comes to its end, whatever is typed or sent,
  and takes at least one item of the line. The code outside is only asked to leave the serial line
  alone (\<open>platform_line\<close>).
\<close>

text \<open>The calls of the updater and of mbedTLS that the commands make, besides \<open>HotaWrite\<close>.\<close>

definition updater_call :: "os_call \<Rightarrow> bool" where
  "updater_call c \<longleftrightarrow> (case c of
     HotaInit \<Rightarrow> True | HotaSetPackageType \<Rightarrow> True | HotaCancel \<Rightarrow> True | HotaRestart \<Rightarrow> True
   | HotaHalRollback \<Rightarrow> True | Mbedtls_pk_init \<Rightarrow> True | Mbedtls_pk_parse_public_key key n \<Rightarrow> True
   | Mbedtls_rsa_set_padding \<Rightarrow> True | Mbedtls_entropy_init \<Rightarrow> True
   | Mbedtls_rsa_pkcs1_verify h sign \<Rightarrow> True | Mbedtls_pk_free \<Rightarrow> True | _ \<Rightarrow> False)"

definition platform_line :: "'w kernel \<Rightarrow> ('c, 'w) platform \<Rightarrow> ('w \<Rightarrow> rx_item list) \<Rightarrow> bool" where
  "platform_line K P line \<longleftrightarrow>
     (\<forall>c w. updater_call c \<longrightarrow> line (snd (os_call K c w)) = line w)
   \<and> (\<forall>addr n w. line (snd (HotaRead P addr n w)) = line w)
   \<and> (\<forall>w. line (snd (HotaGetPubKey P w)) = line w)
   \<and> (\<forall>addr n w. line (snd (flash_read_page P addr n w)) = line w)
   \<and> (\<forall>n w. line (snd (malloc_ptr P n w)) = line w)"

text \<open>The driver is idle again and nothing was added to the line.\<close>

definition drains :: "('w \<Rightarrow> rx_item list) \<Rightarrow> 'w sys \<Rightarrow> 'w sys \<Rightarrow> bool" where
  "drains line s s' \<longleftrightarrow> serial_idle s' \<and> length (serial_stream line s') \<le> length (serial_stream line s)"

lemma drains_refl: "serial_idle s \<Longrightarrow> drains line s s"
  by (simp add: drains_def)

lemma drains_trans: "drains line s s1 \<Longrightarrow> drains line s1 s2 \<Longrightarrow> drains line s s2"
  by (auto simp: drains_def)

lemma drains_idle: "drains line s s' \<Longrightarrow> serial_idle s'"
  by (simp add: drains_def)

lemma serial_stream_frame:
  "dev s' = dev s \<Longrightarrow> g_uartBuf s' = g_uartBuf s \<Longrightarrow> line (world s') = line (world s) \<Longrightarrow>
    serial_stream line s' = serial_stream line s"
  using rx_contents_frame [of s' UART1 s] by (simp add: serial_stream_def)

lemma drains_frame:
  "dev s2 = dev s1 \<Longrightarrow> g_uartBuf s2 = g_uartBuf s1 \<Longrightarrow> line (world s2) = line (world s1) \<Longrightarrow>
    drains line s s2 = drains line s s1"
  using serial_stream_frame [of s2 s1 line] serial_idle_frame [of s2 s1] by (simp add: drains_def)

lemma drains_print [simp]: "drains line s (print t s') = drains line s s'"
  by (rule drains_frame) simp_all

locale task_os = hota_os K line pend sent obs P hw
  for K :: "'w kernel" and line :: "'w \<Rightarrow> rx_item list" and pend and sent :: "'w \<Rightarrow> u8 list"
    and obs :: "'w \<Rightarrow> 'o" and P :: "('c, 'w) platform" and hw :: "u8 list \<Rightarrow> u32 \<Rightarrow> 'o \<Rightarrow> 'o" +
  assumes keeps_line: "platform_line K P line"
begin

lemma drains_call [simp]: "updater_call c \<Longrightarrow> drains line s (call K c s') = drains line s s'"
  by (rule drains_frame) (use keeps_line in \<open>simp_all add: platform_line_def\<close>)

lemma drains_do_call: "do_call K c s1 = (r, s2) \<Longrightarrow> updater_call c \<Longrightarrow> drains line s s2 = drains line s s1"
  using drains_call [of c s s1] by (simp add: call_def)

lemma drains_outside:
  "HotaRead P addr n (world s1) = (x, w) \<Longrightarrow> drains line s (s1\<lparr>world := w, mem := m\<rparr>) = drains line s s1"
  "HotaGetPubKey P (world s1) = (y, w) \<Longrightarrow> drains line s (s1\<lparr>world := w\<rparr>) = drains line s s1"
  "flash_read_page P addr n (world s1) = (z, w) \<Longrightarrow> drains line s (s1\<lparr>world := w, mem := m\<rparr>) = drains line s s1"
  "flash_read_page P addr n (world s1) = (z, w) \<Longrightarrow> drains line s (s1\<lparr>world := w\<rparr>) = drains line s s1"
  "malloc_ptr P n (world s1) = (p, w) \<Longrightarrow> drains line s (s1\<lparr>world := w\<rparr>) = drains line s s1"
  by (rule drains_frame; use keeps_line in \<open>simp add: platform_line_def; metis snd_conv\<close>)+

lemma drains_read_work: "drains line s s1 \<Longrightarrow> drains line s (read_work P addr n buf s1)"
  by (auto simp: read_work_def drains_outside split: prod.split)

section \<open>The commands\<close>

lemma CommandRunUpload_ends:
  assumes "serial_idle s"
  shows "\<exists>state' s'. CommandRunUpload K P a1 a2 state s = Some (state', s') \<and> drains line s s'"
proof -
  from upload.xmodemReceive_returns [OF assms] obtain r a s1 where
    "xmodemReceive (serial_port K) (workBuf state) a1 (xmodemReceiveCB P K)
      \<lparr>sz = a1, start = a2, sha256 = AppSha256Init P\<rparr> s = Some (r, a, s1)" "drains line s s1"
    unfolding drains_def by blast
  then show ?thesis by (simp add: CommandRunUpload_def)
qed

lemma drains_pages:
  assumes "serial_idle s"
  shows "drains line s (CommandRunPrint P a1 a2 state s)" "drains line s (CommandRunHashSha256 P a1 a2 state s)"
  using assms by (auto intro: CommandRunPrint_inv CommandRunHashSha256_inv drains_read_work drains_refl)

lemma CommandRunSign_ends:
  assumes "serial_idle s"
  shows "\<exists>s'. CommandRunSign K P state s = Some s' \<and> drains line s s'"
proof -
  have arr: "length (local_array P n s) = n" for n by (simp add: local_array_def)
  from driver.ReadSign_total [OF assms arr arr] obtain len sign s1 where
    rs: "ReadSign (serial_port K) P (local_array P 32 s) (local_array P 128 s) s = Some (len, sign, s1)"
    and s1: "drains line s s1" unfolding drains_def by blast
  have "drains line s s1 \<Longrightarrow> drains line s (check_signature K P (hash state) sign s1)"
    by (auto simp: check_signature_def Let_def drains_do_call drains_outside updater_call_def split: prod.split)
  with rs s1 show ?thesis by (simp add: CommandRunSign_def)
qed

lemma drains_words:
  assumes "serial_idle s"
  shows "drains line s (CommandRunCancel K s)" "drains line s (CommandRunRestart K s)"
    "drains line s (CommandRunRollback K s)"
  using assms by (auto simp: CommandRunCancel_def CommandRunRestart_def CommandRunRollback_def drains_refl
      drains_do_call updater_call_def split: prod.split)

lemma drains_run_word:
  assumes "\<And>s. serial_idle s \<Longrightarrow> drains line s (f s)" "serial_idle s" "run_word w buf cmd f state s = (out, state', s')"
  shows "drains line s s'"
  using assms by (auto simp: run_word_def drains_refl split: option.splits if_splits)

lemma drains_debug_dump:
  assumes "drains line s s0" "debug_dump P c addr n s0 = (out, s')"
  shows "drains line s s'"
proof -
  obtain p s1 where m: "(if c = 102 then malloc_ptr_of P n s0 else (unat addr, s0)) = (p, s1)" by force
  then have "drains line s s1"
    using assms(1) by (auto simp: malloc_ptr_of_def drains_outside split: if_splits prod.splits)
  with assms(2) show ?thesis
    unfolding debug_dump_def m Let_def prod.case by (auto simp: drains_outside split: if_splits prod.splits)
qed

lemma drains_debug:
  assumes "serial_idle s" "CommandRunDebug P buf s = (out, s')"
  shows "drains line s s'"
  using assms(2) drains_refl [OF assms(1)]
  by (auto simp: CommandRunDebug_def Let_def elim!: drains_debug_dump [rotated] split: option.splits if_splits)

lemma run_with_args_ends:
  assumes "serial_idle s"
  shows "\<exists>out state' s'. run_with_args K P cmd buf state s = Some (out, state', s') \<and> drains line s s'"
proof -
  have idle: "serial_idle (print t s)" for t using assms serial_rx.ok_print by blast
  have "CommandRunUpload K P a1 a2 state (print t s) \<noteq> None" for a1 a2 t
    using CommandRunUpload_ends [OF idle] by (metis option.distinct(1))
  from this [of _ _ "[]"] this have "run_with_args K P cmd buf state s \<noteq> None"
    by (auto simp: run_with_args_def bind_eq_None_conv Let_def simp del: not_None_eq split: option.split)
  then obtain out state' s' where run: "run_with_args K P cmd buf state s = Some (out, state', s')" by auto
  then have "drains line s s'"
  proof (cases rule: run_with_args_cases)
    case (Refused t)
    with drains_refl [OF assms] show ?thesis by simp
  next
    case (Upload a1 a2 t)
    with CommandRunUpload_ends [OF idle [of t], of a1 a2 state] have "drains line (print t s) s'" by auto
    with drains_trans drains_refl [OF assms] drains_print show ?thesis by blast
  next
    case (Pages a1 a2 t)
    with drains_pages [OF idle [of t]] have "drains line (print t s) s'" by auto
    with drains_trans drains_refl [OF assms] drains_print show ?thesis by blast
  qed
  with run show ?thesis by blast
qed

lemma run_command_ends:
  assumes "serial_idle s"
  shows "\<exists>out state' s'. run_command K P cmd buf state s = Some (out, state', s') \<and> drains line s s'"
proof -
  have w: "\<exists>out state' s'. run_word w buf cmd f state s = (out, state', s') \<and> drains line s s'"
    if "\<And>s. serial_idle s \<Longrightarrow> drains line s (f s)" for w f
    using drains_run_word [OF that assms] by (metis prod_cases3)
  show ?thesis
    using run_with_args_ends [OF assms] w [OF drains_words(1)] w [OF drains_words(2)] w [OF drains_words(3)]
      drains_debug [OF assms] drains_refl [OF assms]
    by (auto simp: run_command_def split: prod.split)
qed

lemma after_letter_ends:
  assumes "serial_idle s"
  shows "\<exists>out state' s'. after_letter K P cmd state s = Some (out, state', s') \<and> drains line s s'"
proof -
  from driver.ReadLine_total [OF assms] obtain res buf s1 where
    rl: "ReadLine (serial_port K) (char_signed P) (replicate 32 0) s = Some (res, buf, s1)"
    and s1: "drains line s s1" unfolding drains_def by blast
  from run_command_ends [OF drains_idle [OF s1], of cmd buf state] drains_trans [OF s1] rl s1
    CommandRunSign_ends [OF assms, of state]
  show ?thesis by (fastforce simp: after_letter_def)
qed

section \<open>One command\<close>

lemma CommandProcess_progress:
  assumes "serial_idle s" "serial_stream line s = Byte b # r"
  shows "\<exists>out state' s'. CommandProcess K P state s = Some (out, state', s') \<and> serial_idle s'
    \<and> length (serial_stream line s') < length (serial_stream line s)"
proof -
  from driver.echo_byte [OF assms(1) driver.ticks_forever assms(2)] obtain c s1 where
    rd: "read_with_echo (serial_port K) 0xFFFFFFFF s = Some (c, s1)" and s1: "serial_idle s1"
    "serial_stream line s1 = r" by blast
  from driver.echo_total [OF s1(1)] obtain d s2 where
    rd2: "read_with_echo (serial_port K) 5000 s1 = Some (d, s2)" and s2: "serial_idle s2"
    "serial_stream line s2 = tl r" using s1(2) by auto
  have lt: "length (serial_stream line x) < length (serial_stream line s)" if "drains line s2 x" for x
    using that s2(2) assms(2) by (auto simp: drains_def)
  show ?thesis
  proof (cases "c = 123 \<and> \<not> d < 0 \<and> command_of d \<noteq> None")
    case True
    then obtain cmd where cmd: "c = 123" "\<not> d < 0" "command_of d = Some cmd" by auto
    from after_letter_ends [OF s2(1), of cmd state] CommandProcess_letter [OF rd [unfolded cmd(1)] rd2 cmd(2,3)]
      lt drains_idle show ?thesis by metis
  next
    case False
    with rd rd2 s1 s2 lt [OF drains_refl [OF s2(1)]] assms(2) show ?thesis by (auto simp: CommandProcess_def)
  qed
qed

section \<open>The loop of the task\<close>

lemma rounds_drain:
  "serial_idle s \<Longrightarrow> \<exists>n \<le> length (serial_stream line s). \<exists>outs state' s'.
    ota_rounds K P n state s = Some (outs, state', s') \<and> serial_idle s'
    \<and> (quiet (serial_stream line s') \<or> Undefined \<in> set outs)"
proof (induction "length (serial_stream line s)" arbitrary: state s rule: less_induct)
  case less
  show ?case
  proof (cases "quiet (serial_stream line s)")
    case True
    with less.prems show ?thesis by (intro exI [of _ 0]) simp
  next
    case False
    then obtain b r where st: "serial_stream line s = Byte b # r"
      unfolding quiet_def by (metis list.exhaust rx_item.exhaust)
    from CommandProcess_progress [OF less.prems st] obtain out st1 s1 where
      cp: "CommandProcess K P state s = Some (out, st1, s1)" and s1: "serial_idle s1"
      "length (serial_stream line s1) < length (serial_stream line s)" by blast
    show ?thesis
    proof (cases out)
      case Undefined
      with cp s1 show ?thesis by (intro exI [of _ 1]) simp
    next
      case (Command cmd)
      let ?s2 = "print ('' === OTA_TestThread:683 cmd: '' @ show_int (command_code cmd) @ CRLF) s1"
      have s2: "serial_idle ?s2" "length (serial_stream line ?s2) < length (serial_stream line s)"
        using s1 driver.stream_print serial_rx.ok_print by simp_all
      from less.hyps [OF s2(2,1), of st1] obtain n outs st2 s3 where
        n: "n \<le> length (serial_stream line ?s2)" and run: "ota_rounds K P n st1 ?s2 = Some (outs, st2, s3)"
        and s3: "serial_idle s3" "quiet (serial_stream line s3) \<or> Undefined \<in> set outs" by blast
      have "ota_rounds K P (Suc n) state s = Some (out # outs, st2, s3)"
        using cp Command run by simp
      moreover have "Undefined \<in> set outs \<Longrightarrow> Undefined \<in> set (out # outs)" by simp
      moreover have "Suc n \<le> length (serial_stream line s)" using n s2(2) by simp
      ultimately show ?thesis using s3 by blast
    qed
  qed
qed

end

interpretation sim_task: task_os sim_kernel sim_line sim_pend sim_sent sim_calls sim_platform
    "\<lambda>data off calls. calls @ [HotaWrite data off (of_nat (length data))]"
  by unfold_locales (auto simp: platform_line_def updater_call_def split: os_call.splits)



end
