(* ===== verification/Command_Defined.thy ===== *)
theory Command_Defined
  imports Console_Total Console_Props
begin

text \<open>
  When a command can do what C leaves undefined: only after a line that filled its buffer, or when
  the debug command got no memory. A shorter line leaves a NUL behind it, and \<open>strtoul\<close> and
  \<open>strcmp\<close> are defined on what has one.
\<close>

section \<open>The NUL after a line\<close>

definition zero_tail :: "nat \<Rightarrow> nat \<times> u8 list \<times> 'w sys \<Rightarrow> bool" where
  "zero_tail n = (\<lambda>(i, b, x). length b = n \<and> i \<le> n \<and> (\<forall>k. i \<le> k \<and> k < n \<longrightarrow> b ! k = 0))"

definition line_ended :: "nat \<Rightarrow> int \<times> u8 list \<times> 'w sys \<Rightarrow> bool" where
  "line_ended n = (\<lambda>(r, b, x). length b = n \<and> (r < 0 \<or> r = int n \<or> 0 \<in> set b))"

lemma line_step_zero_tail:
  assumes I: "zero_tail n (i, b, x)" and st: "line_step io sg (i, b, x) = Some z"
  shows "case z of Inl q \<Rightarrow> line_ended n q | Inr y \<Rightarrow> zero_tail n y"
proof (cases "i < n")
  case False
  with I st show ?thesis by (auto simp: line_step_def zero_tail_def line_ended_def)
next
  case True
  with I have b: "length b = n" "b ! i = 0" "i < length b" by (auto simp: zero_tail_def)
  then have "0 \<in> set b" by (metis nth_mem)
  moreover from st b(3) obtain c x1 where "read_with_echo io 5000 x = Some (c, x1)"
    by (auto simp: line_step_def bind_eq_Some_conv)
  ultimately show ?thesis
    using st b I by (auto simp: line_step_def zero_tail_def line_ended_def Let_def nth_list_update split: if_splits)
qed

lemma ReadLine_zeros:
  assumes run: "ReadLine io sg (replicate n 0) s = Some (r, b, s')"
  shows "length b = n \<and> (r < 0 \<or> r = int n \<or> 0 \<in> set b)"
proof -
  have "line_ended n (r, b, s')"
  proof (rule forever_rule [OF run [unfolded ReadLine_def], where I = "zero_tail n"])
    show "zero_tail n (0, replicate n 0, s)" by (simp add: zero_tail_def)
    show "zero_tail n y'" if "zero_tail n y" "line_step io sg y = Some (Inr y')" for y y'
      using line_step_zero_tail that by (cases y) fastforce
    show "line_ended n q" if "zero_tail n y" "line_step io sg y = Some (Inl q)" for y q
      using line_step_zero_tail that by (cases y) fastforce
  qed
  then show ?thesis by (simp add: line_ended_def)
qed

section \<open>The commands on a text with a NUL\<close>

lemma run_with_args_defined:
  assumes "0 \<in> set buf" "run_with_args K P cmd buf state s = Some (out, state', s')"
  shows "out \<noteq> Undefined"
proof -
  from strtoul_ends [OF assms(1)] obtain a1 p e where 1: "strtoul (strtoul_einval P) 10 buf 0 = Some (a1, p, e)"
    and p: "0 \<in> set p" by blast
  from strtoul_ends [OF p] obtain a2 q e2 where "strtoul (strtoul_einval P) 10 p e = Some (a2, q, e2)" by blast
  with 1 assms(2) show ?thesis
    by (auto simp: run_with_args_def Let_def bind_eq_Some_conv split: if_splits)
qed

lemma run_word_defined:
  "length w < length buf \<Longrightarrow> run_word w buf cmd f state s = (out, state', s') \<Longrightarrow> out \<noteq> Undefined"
  by (auto simp: run_word_def strcmp_eq_def Let_def)

lemma debug_defined:
  assumes "0 \<in> set buf" "CommandRunDebug P buf s = (Undefined, s')"
  shows "mem s' = mem s \<and> (\<exists>n. n \<noteq> 0 \<and> fst (malloc_ptr P n (world s)) = NULL)"
proof -
  have "0 \<in> set (drop 1 buf)" if "buf ! 0 \<noteq> 0" using assms(1) that by (cases buf) auto
  with assms(2) have d: "0 \<in> set (drop 1 buf)" by (auto simp: CommandRunDebug_def Let_def split: if_splits)
  from strtoul_ends [OF d] obtain a p e where 1: "strtoul (strtoul_einval P) 10 (drop 1 buf) 0 = Some (a, p, e)"
    and p: "0 \<in> set p" by blast
  from strtoul_ends [OF p] obtain n q e2 where 2: "strtoul (strtoul_einval P) 10 p e = Some (n, q, e2)" by blast
  have dump: "mem x' = mem x \<and> (\<exists>n. n \<noteq> 0 \<and> fst (malloc_ptr P n (world x)) = NULL)"
    if "debug_dump P c a n x = (Undefined, x')" for c n x x'
    using that by (auto simp: debug_dump_def malloc_ptr_of_def Let_def split: if_splits prod.splits)
  from assms(2) 1 2 dump [of "buf ! 0" n s s'] dump [of "buf ! 0" 1 "print (errno_msg ''CommandRunDebug:544'' e2) s" s']
  show ?thesis
    by (auto simp: CommandRunDebug_def Let_def split: if_splits)
qed

lemma run_command_defined:
  assumes "0 \<in> set buf" "length buf = 32" "run_command K P cmd buf state s = Some (Undefined, state', s')"
  shows "cmd = COMMAND_TYPE_DEBUG \<and> state' = state \<and> mem s' = mem s
    \<and> (\<exists>n. n \<noteq> 0 \<and> fst (malloc_ptr P n (world s)) = NULL)"
proof -
  have len: "length ''ancel'' < length buf" "length ''estart'' < length buf" "length ''ack'' < length buf"
    using assms(2) by simp_all
  note nu = run_with_args_defined [OF assms(1)] run_word_defined [OF len(1)] run_word_defined [OF len(2)]
    run_word_defined [OF len(3)]
  from assms(3) have "cmd = COMMAND_TYPE_DEBUG" "CommandRunDebug P buf s = (Undefined, s')" "state' = state"
    by (auto simp: run_command_def dest: nu split: if_splits prod.splits)
  with debug_defined [OF assms(1)] show ?thesis by blast
qed



end
