(* ===== verification/Ota_Boot.thy ===== *)
theory Ota_Boot
  imports Task_Total
begin

text \<open>
  The OTA application from reset: \<open>AppMain\<close>, the start of its task, and the task on its line. The
  calls that set up the kernel's objects and the UART are asked to leave the line alone.
\<close>

definition boot_call :: "os_call \<Rightarrow> bool" where
  "boot_call c \<longleftrightarrow> (case c of
     LOS_TaskCreate name stack prio \<Rightarrow> True | LOS_EventInit u \<Rightarrow> True | Uart_set_pin \<Rightarrow> True
   | Uart_reset u \<Rightarrow> True | Uart_init u dv bwpc \<Rightarrow> True | Uart_rx_irq_trig_level u n \<Rightarrow> True
   | Uart_tx_irq_trig_level u n \<Rightarrow> True | B91IrqRegister u \<Rightarrow> True | Plic_interrupt_enable u \<Rightarrow> True
   | Uart_set_rx_irq_mask u \<Rightarrow> True | _ \<Rightarrow> False)"

definition boot_line :: "'w kernel \<Rightarrow> ('w \<Rightarrow> rx_item list) \<Rightarrow> bool" where
  "boot_line K line \<longleftrightarrow> (\<forall>c w. boot_call c \<longrightarrow> line (snd (os_call K c w)) = line w)"

locale ota_os = task_os K line pend sent obs P hw
  for K :: "'w kernel" and line :: "'w \<Rightarrow> rx_item list" and pend and sent :: "'w \<Rightarrow> u8 list"
    and obs :: "'w \<Rightarrow> 'o" and P :: "('c, 'w) platform" and hw :: "u8 list \<Rightarrow> u32 \<Rightarrow> 'o \<Rightarrow> 'o" +
  assumes boot_keeps_line: "boot_line K line"
begin

lemma drains_boot_call [simp]: "boot_call c \<Longrightarrow> drains line s (call K c s') = drains line s s'"
  by (rule drains_frame) (use boot_keeps_line in \<open>simp_all add: boot_line_def\<close>)

lemma drains_boot_do: "do_call K c s1 = (r, s2) \<Longrightarrow> boot_call c \<Longrightarrow> drains line s s2 = drains line s s1"
  using drains_boot_call [of c s s1] by (simp add: call_def)

lemma SerialInit_drains: "drains line s (SerialInit K s') = drains line s s'"
  by (simp add: SerialInit_def VendorUartRxIrqEnable_def boot_call_def Let_def split: prod.split)

lemma AppMain_drains: "serial_idle s \<Longrightarrow> drains line s (AppMain K banner s)"
  using drains_refl [of s line]
  by (auto simp: AppMain_def OtaUartTestInit_def boot_call_def updater_call_def Let_def drains_boot_do split: prod.split)

lemma OTA_TestThread_init_drains:
  assumes "serial_idle s" "OTA_TestThread_init K P s = (state, s')"
  shows "drains line s s'"
  using assms(2) drains_refl [OF assms(1)]
  by (auto simp: OTA_TestThread_init_def malloc_ptr_of_def Let_def SerialInit_drains drains_outside split: prod.splits)

lemma task_from_reset:
  "\<exists>n \<le> length (line w). \<exists>outs state' s'.
    OTA_TestThread K P n (AppMain K banner (serial_static m w)) = Some (outs, state', s') \<and> serial_idle s'
    \<and> (quiet (serial_stream line s') \<or> Undefined \<in> set outs)"
proof -
  let ?s0 = "serial_static m w" and ?s1 = "AppMain K banner (serial_static m w)"
  obtain state s2 where init: "OTA_TestThread_init K P ?s1 = (state, s2)" by force
  have "drains line ?s0 ?s1" by (rule AppMain_drains) simp
  from drains_trans [OF this OTA_TestThread_init_drains [OF drains_idle [OF this] init]]
  have s2: "serial_idle s2" "length (serial_stream line s2) \<le> length (line w)"
    by (simp_all add: drains_def serial_stream_def)
  from rounds_drain [OF s2(1), of state] s2(2) init show ?thesis
    by (auto simp: OTA_TestThread_def intro: order_trans)
qed

end

interpretation sim_ota: ota_os sim_kernel sim_line sim_pend sim_sent sim_calls sim_platform
    "\<lambda>data off calls. calls @ [HotaWrite data off (of_nat (length data))]"
  by unfold_locales (auto simp: boot_line_def boot_call_def split: os_call.splits)

text \<open>
  C10: The application from reset. On a kernel that behaves as documented, where nothing but the
  driver's reads takes from the serial line: with the state of the program as the linker leaves it,
  \<open>AppMain\<close> and then the task it creates come to a loop that has answered the whole line up to its
  first pause or end, after at most as many rounds as the line has items; the driver is idle, and no
  step before hangs, unless a command did what C leaves undefined.
\<close>

theorem ota_from_reset:
  assumes "line_kernel K line pend sent obs" "hota_kernel K line sent obs hw" "platform_line K P line"
    and "boot_line K line"
  shows "\<exists>n \<le> length (line w). \<exists>outs state' s'.
    OTA_TestThread K P n (AppMain K banner (serial_static m w)) = Some (outs, state', s') \<and> serial_idle s'
    \<and> (quiet (serial_stream line s') \<or> Undefined \<in> set outs)"
  using ota_os.task_from_reset [of K line pend sent obs P hw] assms
  by (simp add: ota_os_def task_os_def hota_os_def line_os_def hota_os_axioms_def task_os_axioms_def ota_os_axioms_def)

lemma ota_from_reset_witness:
  "\<exists>n \<le> 2. \<exists>outs state' s'. OTA_TestThread sim_kernel sim_platform n
      (AppMain sim_kernel [] (serial_static (\<lambda>_. 0) (sim_world [Byte 120, Byte 121]))) = Some (outs, state', s')
    \<and> serial_idle s' \<and> (quiet (serial_stream sim_line s') \<or> Undefined \<in> set outs)"
proof -
  have "length (sim_line (sim_world [Byte 120, Byte 121])) = 2" by simp
  with ota_from_reset [OF sim_line_kernel sim_hota_kernel sim_task.keeps_line sim_ota.boot_keeps_line,
      of "sim_world [Byte 120, Byte 121]" "[]" "\<lambda>_. 0"]
  show ?thesis by (simp only:)
qed

end
