(* ===== verification/Ble_Sdk.thy ===== *)
theory Ble_Sdk
  imports Prelude "HOL-Library.State_Monad"
begin

text \<open>
  What the BLE sample (\<open>ble_demo/b91_gatt_sample\<close>) uses of code that is not in this repository: the
  constants of the SDK's headers (the record \<open>ble_h\<close>, an argument of the definitions that use
  them), the calls of the Telink BLE SDK, of the GPIO driver and of the LiteOS-M kernel (the
  datatype \<open>ble_call\<close>), and what a call returns (an argument \<open>K\<close>, about which nothing is assumed
  here). The program's own state is \<open>g_app_ble_state\<close> of \<open>uni_ble.c\<close> and the log.
\<close>

section \<open>Constants of the headers\<close>

record ble_h =
  GATT_UUID_PRIMARY_SERVICE :: u16
  GATT_UUID_CHARACTER :: u16
  GATT_UUID_DEVICE_NAME :: u16
  GATT_UUID_APPEARANCE :: u16
  GATT_UUID_PERI_CONN_PARAM :: u16
  GATT_UUID_SERVICE_CHANGE :: u16
  GATT_UUID_CLIENT_CHAR_CFG :: u16
  SERVICE_UUID_GENERIC_ACCESS :: u16
  SERVICE_UUID_GENERIC_ATTRIBUTE :: u16
  SERVICE_UUID_DEVICE_INFORMATION :: u16
  CHARACTERISTIC_UUID_PNP_ID :: u16
  GAP_APPEARE_UNKNOWN :: u16
  CHAR_PROP_READ :: u8
  CHAR_PROP_NOTIFY :: u8
  CHAR_PROP_INDICATE :: u8
  ATT_PERMISSIONS_READ :: u8
  ATT_PERMISSIONS_RDWR :: u8
  U16_LO :: "u16 \<Rightarrow> u8"
  U16_HI :: "u16 \<Rightarrow> u8"
  BLE_SUCCESS :: int
  ADV_INTERVAL_500MS :: u16
  ADV_TYPE_CONNECTABLE_UNDIRECTED :: u8
  OWN_ADDRESS_PUBLIC :: u8
  BLT_ENABLE_ADV_ALL :: u8
  ADV_FP_NONE :: u8
  BLC_ADV_ENABLE :: int
  MASTER_MAX_NUM :: int
  SLAVE_MAX_NUM :: int
  CAL_MTU_BUFF_SIZE :: "int \<Rightarrow> int"
  flash_sector_mac_address :: u32
  HCI_FLAG_EVENT_BT_STD :: u32
  HCI_EVT_DISCONNECTION_COMPLETE :: u8
  HCI_EVT_LE_META :: u8
  HCI_SUB_EVT_LE_CONNECTION_COMPLETE :: u8
  HCI_EVT_MASK_DISCONNECTION_COMPLETE :: u32
  HCI_LE_EVT_MASK_CONNECTION_COMPLETE :: u32
  PM_SLEEP_LEG_ADV :: u32
  PM_SLEEP_LEG_SCAN :: u32
  PM_SLEEP_ACL_SLAVE :: u32
  PM_SLEEP_ACL_MASTER :: u32
  FLD_SYSTEM_TRIG_PAST_EN :: u32

section \<open>Calls\<close>

datatype gpio = LED_WHITE_HDF | LED_BLUE_HDF | SW1_2_GPIO_HDF | SW1_3_GPIO_HDF
datatype gpio_val = GPIO_VAL_LOW | GPIO_VAL_HIGH
datatype gpio_dir = GPIO_DIR_IN | GPIO_DIR_OUT

text \<open>The functions that are given to the SDK or to the kernel by their address.\<close>

datatype handler =
    connect_cb | disconnect_cb | AppControllerEventCallback | blc_l2cap_packet_receive
  | blc_l2cap_pktHandler | os_give_sem_cb | RfIrqHandler | StimerIrqHandler

datatype sdk_event = BLT_EV_FLAG_CONNECT | BLT_EV_FLAG_TERMINATE
datatype irq = IRQ15_ZB_RT | IRQ1_SYSTIMER

record adv_param =
  intervalMin :: u16
  intervalMax :: u16
  advType :: u8
  ownAddrType :: u8
  peerAddrType :: u8
  peerAddr :: "u8 list option"
  adv_channelMap :: u8
  advFilterPolicy :: u8

record attribute_t =
  attNum :: nat
  perm :: u8
  uuidLen :: nat
  attrLen :: nat
  uuid :: "u8 list option"
  pAttrValue :: "u8 list option"
  w_callback :: nat

text \<open>A buffer is passed as the number of its bytes, data as its bytes.\<close>

datatype ble_call =
    Bls_ll_setAdvParam adv_param | Blc_ll_setAdvParam adv_param
  | Bls_ll_setAdvData "u8 list" | Blc_ll_setAdvData "u8 list"
  | Bls_ll_setScanRspData "u8 list" | Blc_ll_setScanRspData "u8 list"
  | Bls_ll_setAdvEnable int | Blc_ll_setAdvEnable int
  | Blc_ll_initAclConnTxFifo int int int | Blc_ll_initAclConnSlaveTxFifo int int int int
  | Blc_ll_initAclConnRxFifo int int int
  | Blc_controller_check_appBufferInitialization
  | Blc_ll_setMaxConnectionNumber int int
  | Blc_gap_peripheral_init | Blc_gap_init
  | Blc_l2cap_register_handler handler | Blc_hci_registerControllerDataHandler handler
  | Blc_ll_initAdvertising_module | Blc_ll_initLegacyAdvertising_module
  | Blc_ll_initConnection_module | Blc_ll_initAclConnection_module
  | Blc_ll_initSlaveRole_module | Blc_ll_initAclSlaveRole_module
  | Blt_sdk_main_loop | Blc_sdk_main_loop
  | Irq_blt_sdk_handler | Blc_sdk_irq_handler
  | Bls_app_registerEventCallback sdk_event handler
  | Blc_hci_le_setEventMask_cmd u32 | Blc_hci_registerControllerEventHandler handler
  | Blc_l2cap_initAclConnSlaveMtuBuffer int int int int
  | Bls_att_setAttributeTable "attribute_t list"
  | Blc_ll_initPowerManagement_module | Blc_pm_setSleepMask u32
  | Blc_initMacAddress u32 | Rf_set_power_level | Blc_ll_initBasicMCU | Blc_ll_initStandby_module
  | Random_generator_init | Rf_drv_ble_init | Blc_app_loadCustomizedParameters
  | OsSemCreate nat nat | Blc_ll_registerGiveSemCb handler
  | Ble_LOS_TaskCreate string | Ble_B91IrqRegister irq handler
  | LOS_SemPost | LOS_SemPend | Set_system_irq_mask u32
  | GpioWrite gpio gpio_val | GpioSetDir gpio gpio_dir

record ('f, 'w) ble =
  connect :: "'f option"
  disconnect :: "'f option"
  hilog :: string
  sdk :: 'w

type_synonym 'w sdk_ops = "ble_call \<Rightarrow> 'w \<Rightarrow> int \<times> 'w"

definition sdk_call :: "'w sdk_ops \<Rightarrow> ble_call \<Rightarrow> (('f, 'w) ble, int) state" where
  "sdk_call K c = State (\<lambda>s. let (r, w) = K c (sdk s) in (r, s\<lparr>sdk := w\<rparr>))"

definition sdk_do :: "'w sdk_ops \<Rightarrow> ble_call \<Rightarrow> (('f, 'w) ble, unit) state" where
  "sdk_do K c = sdk_call K c \<bind> (\<lambda>_. State_Monad.return ())"

definition HILOG :: "string \<Rightarrow> (('f, 'w) ble, unit) state" where
  "HILOG t = State (\<lambda>s. ((), s\<lparr>hilog := hilog s @ t\<rparr>))"

lemma run_sdk_call [simp]:
  "run_state (sdk_call K c) s = (fst (K c (sdk s)), s\<lparr>sdk := snd (K c (sdk s))\<rparr>)"
  by (simp add: sdk_call_def split: prod.split)

lemma run_sdk_do [simp]: "run_state (sdk_do K c) s = ((), s\<lparr>sdk := snd (K c (sdk s))\<rparr>)"
  by (simp add: sdk_do_def)

lemma run_HILOG [simp]: "run_state (HILOG t) s = ((), s\<lparr>hilog := hilog s @ t\<rparr>)"
  by (simp add: HILOG_def)

section \<open>An SDK that keeps the history of its calls\<close>

text \<open>
  Every deterministic SDK is one whose results depend on the calls made so far: \<open>scripted res\<close>
  returns \<open>res h c\<close> for the call \<open>c\<close> after the history \<open>h\<close>.
\<close>

definition scripted :: "(ble_call list \<Rightarrow> ble_call \<Rightarrow> int) \<Rightarrow> ble_call list sdk_ops" where
  "scripted res c h = (res h c, h @ [c])"

lemma scripted_simps [simp]: "scripted res c h = (res h c, h @ [c])"
  by (simp add: scripted_def)

end
