(* ===== verification/Gatt.thy ===== *)
theory Gatt
  imports Ble_Sdk
begin

text \<open>
  The GATT table of the BLE sample (\<open>app_att.c\<close>): the handles, the values, the table, the call that
  sets it; and what an attribute server makes of such a table: its services and its
  characteristics. The core is little-endian, so a \<open>u16\<close> in memory is its low byte, then its high.
\<close>

datatype ATT_HANDLE =
    ATT_H_START
  | GenericAccess_PS_H | GenericAccess_DeviceName_CD_H | GenericAccess_DeviceName_DP_H
  | GenericAccess_Appearance_CD_H | GenericAccess_Appearance_DP_H | CONN_PARAM_CD_H | CONN_PARAM_DP_H
  | GenericAttribute_PS_H | GenericAttribute_ServiceChanged_CD_H | GenericAttribute_ServiceChanged_DP_H
  | GenericAttribute_ServiceChanged_CCB_H
  | DeviceInformation_PS_H | DeviceInformation_pnpID_CD_H | DeviceInformation_pnpID_DP_H
  | ATT_END_H

definition all_handles :: "ATT_HANDLE list" where
  "all_handles =
     [ATT_H_START, GenericAccess_PS_H, GenericAccess_DeviceName_CD_H, GenericAccess_DeviceName_DP_H,
      GenericAccess_Appearance_CD_H, GenericAccess_Appearance_DP_H, CONN_PARAM_CD_H, CONN_PARAM_DP_H,
      GenericAttribute_PS_H, GenericAttribute_ServiceChanged_CD_H, GenericAttribute_ServiceChanged_DP_H,
      GenericAttribute_ServiceChanged_CCB_H,
      DeviceInformation_PS_H, DeviceInformation_pnpID_CD_H, DeviceInformation_pnpID_DP_H, ATT_END_H]"

text \<open>The enumerators are numbered in order, from 0.\<close>

fun handle_value :: "ATT_HANDLE \<Rightarrow> nat" where
  "handle_value ATT_H_START = 0"
| "handle_value GenericAccess_PS_H = 1"
| "handle_value GenericAccess_DeviceName_CD_H = 2"
| "handle_value GenericAccess_DeviceName_DP_H = 3"
| "handle_value GenericAccess_Appearance_CD_H = 4"
| "handle_value GenericAccess_Appearance_DP_H = 5"
| "handle_value CONN_PARAM_CD_H = 6"
| "handle_value CONN_PARAM_DP_H = 7"
| "handle_value GenericAttribute_PS_H = 8"
| "handle_value GenericAttribute_ServiceChanged_CD_H = 9"
| "handle_value GenericAttribute_ServiceChanged_DP_H = 10"
| "handle_value GenericAttribute_ServiceChanged_CCB_H = 11"
| "handle_value DeviceInformation_PS_H = 12"
| "handle_value DeviceInformation_pnpID_CD_H = 13"
| "handle_value DeviceInformation_pnpID_DP_H = 14"
| "handle_value ATT_END_H = 15"

text \<open>Handles are ordered by their numbers.\<close>

lemma handle_value_inj: "handle_value h = handle_value k \<Longrightarrow> h = k"
  by (cases h; cases k) simp_all

instantiation ATT_HANDLE :: linorder
begin

definition less_eq_ATT_HANDLE :: "ATT_HANDLE \<Rightarrow> ATT_HANDLE \<Rightarrow> bool" where
  "h \<le> k \<longleftrightarrow> handle_value h \<le> handle_value k"

definition less_ATT_HANDLE :: "ATT_HANDLE \<Rightarrow> ATT_HANDLE \<Rightarrow> bool" where
  "h < k \<longleftrightarrow> handle_value h < handle_value k"

instance
  by standard (auto simp: less_eq_ATT_HANDLE_def less_ATT_HANDLE_def handle_value_inj)

end

abbreviation u16_handle :: "ATT_HANDLE \<Rightarrow> u16" where
  "u16_handle h \<equiv> of_nat (handle_value h)"

record gap_periConnectParams_t =
  gap_intervalMin :: u16
  gap_intervalMax :: u16
  gap_latency :: u16
  gap_timeout :: u16

definition u16_bytes :: "u16 \<Rightarrow> u8 list" where
  "u16_bytes x = [ucast x, ucast (drop_bit 8 x)]"

definition conn_param_bytes :: "gap_periConnectParams_t \<Rightarrow> u8 list" where
  "conn_param_bytes p = u16_bytes (gap_intervalMin p) @ u16_bytes (gap_intervalMax p)
     @ u16_bytes (gap_latency p) @ u16_bytes (gap_timeout p)"

section \<open>UUIDs\<close>

abbreviation (input) my_primaryServiceUUID :: "ble_h \<Rightarrow> u16" where "my_primaryServiceUUID \<equiv> GATT_UUID_PRIMARY_SERVICE"
abbreviation (input) my_gapServiceUUID :: "ble_h \<Rightarrow> u16" where "my_gapServiceUUID \<equiv> SERVICE_UUID_GENERIC_ACCESS"
abbreviation (input) my_characterUUID :: "ble_h \<Rightarrow> u16" where "my_characterUUID \<equiv> GATT_UUID_CHARACTER"
abbreviation (input) my_devNameUUID :: "ble_h \<Rightarrow> u16" where "my_devNameUUID \<equiv> GATT_UUID_DEVICE_NAME"
abbreviation (input) my_gattServiceUUID :: "ble_h \<Rightarrow> u16" where "my_gattServiceUUID \<equiv> SERVICE_UUID_GENERIC_ATTRIBUTE"
abbreviation (input) serviceChangeUUID :: "ble_h \<Rightarrow> u16" where "serviceChangeUUID \<equiv> GATT_UUID_SERVICE_CHANGE"
abbreviation (input) clientCharacterCfgUUID :: "ble_h \<Rightarrow> u16" where "clientCharacterCfgUUID \<equiv> GATT_UUID_CLIENT_CHAR_CFG"
abbreviation (input) my_devServiceUUID :: "ble_h \<Rightarrow> u16" where "my_devServiceUUID \<equiv> SERVICE_UUID_DEVICE_INFORMATION"
abbreviation (input) my_PnPUUID :: "ble_h \<Rightarrow> u16" where "my_PnPUUID \<equiv> CHARACTERISTIC_UUID_PNP_ID"
abbreviation (input) my_appearanceUUID :: "ble_h \<Rightarrow> u16" where "my_appearanceUUID \<equiv> GATT_UUID_APPEARANCE"
abbreviation (input) my_periConnParamUUID :: "ble_h \<Rightarrow> u16" where "my_periConnParamUUID \<equiv> GATT_UUID_PERI_CONN_PARAM"

section \<open>Characteristics\<close>

definition char_decl :: "ble_h \<Rightarrow> u8 \<Rightarrow> ATT_HANDLE \<Rightarrow> u16 \<Rightarrow> u8 list" where
  "char_decl H prop h u = [prop, U16_LO H (u16_handle h), U16_HI H (u16_handle h), U16_LO H u, U16_HI H u]"

definition my_devNameCharVal :: "ble_h \<Rightarrow> u8 list" where
  "my_devNameCharVal H =
     char_decl H (CHAR_PROP_READ H OR CHAR_PROP_NOTIFY H) GenericAccess_DeviceName_DP_H (GATT_UUID_DEVICE_NAME H)"

definition my_appearanceCharVal :: "ble_h \<Rightarrow> u8 list" where
  "my_appearanceCharVal H =
     char_decl H (CHAR_PROP_READ H) GenericAccess_Appearance_DP_H (GATT_UUID_APPEARANCE H)"

definition my_periConnParamCharVal :: "ble_h \<Rightarrow> u8 list" where
  "my_periConnParamCharVal H =
     char_decl H (CHAR_PROP_READ H) CONN_PARAM_DP_H (GATT_UUID_PERI_CONN_PARAM H)"

definition my_serviceChangeCharVal :: "ble_h \<Rightarrow> u8 list" where
  "my_serviceChangeCharVal H =
     char_decl H (CHAR_PROP_INDICATE H) GenericAttribute_ServiceChanged_DP_H (GATT_UUID_SERVICE_CHANGE H)"

definition my_PnCharVal :: "ble_h \<Rightarrow> u8 list" where
  "my_PnCharVal H =
     char_decl H (CHAR_PROP_READ H) DeviceInformation_pnpID_DP_H (CHARACTERISTIC_UUID_PNP_ID H)"

section \<open>Values\<close>

definition my_devName :: "u8 list" where
  "my_devName = map of_char ''eSample''"

abbreviation (input) my_appearance :: "ble_h \<Rightarrow> u16" where "my_appearance \<equiv> GAP_APPEARE_UNKNOWN"

definition my_periConnParameters :: gap_periConnectParams_t where
  "my_periConnParameters = \<lparr>gap_intervalMin = 8, gap_intervalMax = 11, gap_latency = 0, gap_timeout = 1000\<rparr>"

definition serviceChangeVal :: "u16 list" where
  "serviceChangeVal = [0, 0]"

definition serviceChangeCCC :: "u8 list" where
  "serviceChangeCCC = [0, 0]"

definition my_PnPtrs :: "u8 list" where
  "my_PnPtrs = [0x02, 0x8a, 0x24, 0x66, 0x82, 0x01, 0x00]"

section \<open>The table\<close>

text \<open>An entry as the initialisers write it, with \<open>sizeof\<close> of the object behind the pointer.\<close>

definition entry :: "nat \<Rightarrow> u8 \<Rightarrow> nat \<Rightarrow> u16 \<Rightarrow> u8 list \<Rightarrow> attribute_t" where
  "entry num p len u v = \<lparr>attNum = num, perm = p, uuidLen = 2, attrLen = len, uuid = Some (u16_bytes u),
     pAttrValue = Some v, w_callback = 0\<rparr>"

definition gattTable :: "ble_h \<Rightarrow> attribute_t list" where
  "gattTable H = (let R = ATT_PERMISSIONS_READ H in
    [\<lparr>attNum = handle_value ATT_END_H - 1, perm = 0, uuidLen = 0, attrLen = 0, uuid = None,
       pAttrValue = None, w_callback = 0\<rparr>,
     entry 7 R 2 (my_primaryServiceUUID H) (u16_bytes (my_gapServiceUUID H)),
     entry 0 R (length (my_devNameCharVal H)) (my_characterUUID H) (my_devNameCharVal H),
     entry 0 R (length my_devName) (my_devNameUUID H) my_devName,
     entry 0 R (length (my_appearanceCharVal H)) (my_characterUUID H) (my_appearanceCharVal H),
     entry 0 R (length (u16_bytes (my_appearance H))) (my_appearanceUUID H)
       (u16_bytes (my_appearance H)),
     entry 0 R (length (my_periConnParamCharVal H)) (my_characterUUID H) (my_periConnParamCharVal H),
     entry 0 R (length (conn_param_bytes my_periConnParameters)) (my_periConnParamUUID H)
       (conn_param_bytes my_periConnParameters),
     entry 4 R 2 (my_primaryServiceUUID H) (u16_bytes (my_gattServiceUUID H)),
     entry 0 R (length (my_serviceChangeCharVal H)) (my_characterUUID H) (my_serviceChangeCharVal H),
     entry 0 R (length (concat (map u16_bytes serviceChangeVal))) (serviceChangeUUID H)
       (concat (map u16_bytes serviceChangeVal)),
     entry 0 (ATT_PERMISSIONS_RDWR H) (length serviceChangeCCC) (clientCharacterCfgUUID H) serviceChangeCCC,
     entry 3 R 2 (my_primaryServiceUUID H) (u16_bytes (my_devServiceUUID H)),
     entry 0 R (length (my_PnCharVal H)) (my_characterUUID H) (my_PnCharVal H),
     entry 0 R (length my_PnPtrs) (my_PnPUUID H) my_PnPtrs])"

definition AppBleGattInit :: "'w sdk_ops \<Rightarrow> ble_h \<Rightarrow> (('f, 'w) ble, unit) state" where
  "AppBleGattInit K H = sdk_do K (Bls_att_setAttributeTable (gattTable H))"

section \<open>What a server makes of a table\<close>

text \<open>
  The documented values: the UUIDs that the comments of the handle enumeration give, the property
  bits and the byte macros as their names say.
\<close>

definition documented_uuids :: "ble_h \<Rightarrow> bool" where
  "documented_uuids H \<longleftrightarrow> GATT_UUID_PRIMARY_SERVICE H = 0x2800 \<and> GATT_UUID_CHARACTER H = 0x2803
     \<and> GATT_UUID_DEVICE_NAME H = 0x2A00 \<and> GATT_UUID_APPEARANCE H = 0x2A01 \<and> GATT_UUID_PERI_CONN_PARAM H = 0x2A04
     \<and> GATT_UUID_SERVICE_CHANGE H = 0x2A05 \<and> GATT_UUID_CLIENT_CHAR_CFG H = 0x2902
     \<and> SERVICE_UUID_GENERIC_ACCESS H = 0x1800 \<and> SERVICE_UUID_GENERIC_ATTRIBUTE H = 0x1801
     \<and> SERVICE_UUID_DEVICE_INFORMATION H = 0x180A \<and> CHARACTERISTIC_UUID_PNP_ID H = 0x2A50
     \<and> CHAR_PROP_READ H = 0x02 \<and> CHAR_PROP_NOTIFY H = 0x10 \<and> CHAR_PROP_INDICATE H = 0x20
     \<and> (\<forall>x. U16_LO H x = ucast x \<and> U16_HI H x = ucast (drop_bit 8 x))"

definition has_uuid :: "u16 \<Rightarrow> attribute_t \<Rightarrow> bool" where
  "has_uuid u a \<longleftrightarrow> uuid a = Some (u16_bytes u)"

text \<open>The services: first handle, last handle, value, of every primary service declaration.\<close>

definition services :: "ble_h \<Rightarrow> attribute_t list \<Rightarrow> (nat \<times> nat \<times> u8 list option) list" where
  "services H t = map (\<lambda>(h, a). (h, h + attNum a - 1, pAttrValue a))
     (filter (\<lambda>(h, a). has_uuid (GATT_UUID_PRIMARY_SERVICE H) a) (enumerate 0 t))"

text \<open>The services of a table cover its handles, one after the other.\<close>

fun partitioned :: "nat \<Rightarrow> (nat \<times> nat \<times> 'v) list \<Rightarrow> nat \<Rightarrow> bool" where
  "partitioned k [] n = (k = n)"
| "partitioned k ((a, b, v) # ss) n = (a = k \<and> a \<le> b \<and> partitioned (b + 1) ss n)"

text \<open>A declaration at handle \<open>h\<close> describes the attribute after it.\<close>

definition describes_next :: "attribute_t list \<Rightarrow> nat \<Rightarrow> bool" where
  "describes_next t h \<longleftrightarrow> (case pAttrValue (t ! h) of
     Some [prop, lo, hi, ulo, uhi] \<Rightarrow> h + 1 < length t \<and> [lo, hi] = u16_bytes (of_nat (h + 1))
       \<and> uuid (t ! (h + 1)) = Some [ulo, uhi]
   | _ \<Rightarrow> False)"

definition entry_ok :: "attribute_t \<Rightarrow> bool" where
  "entry_ok a \<longleftrightarrow> (case (uuid a, pAttrValue a) of
     (Some u, Some v) \<Rightarrow> uuidLen a = length u \<and> attrLen a = length v
   | _ \<Rightarrow> False)"

text \<open>The declarations that allow notifications or indications, and have no descriptor to enable them.\<close>

definition wants_ccc :: "ble_h \<Rightarrow> attribute_t \<Rightarrow> bool" where
  "wants_ccc H a \<longleftrightarrow> has_uuid (GATT_UUID_CHARACTER H) a \<and> (case pAttrValue a of
     Some (prop # _) \<Rightarrow> prop AND (CHAR_PROP_NOTIFY H OR CHAR_PROP_INDICATE H) \<noteq> 0
   | _ \<Rightarrow> False)"

definition missing_ccc :: "ble_h \<Rightarrow> attribute_t list \<Rightarrow> nat list" where
  "missing_ccc H t = filter (\<lambda>h. wants_ccc H (t ! h)
     \<and> \<not> (h + 2 < length t \<and> has_uuid (GATT_UUID_CLIENT_CHAR_CFG H) (t ! (h + 2)))) [0..<length t]"

lemma length_u16_bytes [simp]: "length (u16_bytes x) = 2"
  by (simp add: u16_bytes_def)

end
