(* ===== verification/Gatt_Props.thy ===== *)
theory Gatt_Props
  imports Gatt
begin

text \<open>
  The GATT table of the sample is well formed: its count, its services, its characteristics; and the
  one characteristic that lacks a descriptor.
\<close>

lemma documented_values:
  assumes "documented_uuids H"
  shows "GATT_UUID_PRIMARY_SERVICE H = 0x2800" "GATT_UUID_CHARACTER H = 0x2803" "GATT_UUID_DEVICE_NAME H = 0x2A00"
    "GATT_UUID_APPEARANCE H = 0x2A01" "GATT_UUID_PERI_CONN_PARAM H = 0x2A04" "GATT_UUID_SERVICE_CHANGE H = 0x2A05"
    "GATT_UUID_CLIENT_CHAR_CFG H = 0x2902" "SERVICE_UUID_GENERIC_ACCESS H = 0x1800"
    "SERVICE_UUID_GENERIC_ATTRIBUTE H = 0x1801" "SERVICE_UUID_DEVICE_INFORMATION H = 0x180A"
    "CHARACTERISTIC_UUID_PNP_ID H = 0x2A50" "CHAR_PROP_READ H = 0x02" "CHAR_PROP_NOTIFY H = 0x10"
    "CHAR_PROP_INDICATE H = 0x20" "U16_LO H x = ucast x" "U16_HI H x = ucast (drop_bit 8 x)"
  using assms by (simp_all add: documented_uuids_def)

lemmas gatt_values = my_devNameCharVal_def my_appearanceCharVal_def my_periConnParamCharVal_def
  my_serviceChangeCharVal_def my_PnCharVal_def my_devName_def my_periConnParameters_def serviceChangeVal_def
  serviceChangeCCC_def my_PnPtrs_def char_decl_def conn_param_bytes_def

lemma handles_numbered: "map handle_value all_handles = [0..<16]"
  by (simp add: all_handles_def upt_rec)

lemma handles_ordered: "sorted all_handles \<and> distinct all_handles"
proof -
  have "sorted (map handle_value all_handles) \<and> distinct (map handle_value all_handles)"
    unfolding handles_numbered by simp
  moreover have "((\<le>) :: ATT_HANDLE \<Rightarrow> ATT_HANDLE \<Rightarrow> bool) = (\<lambda>h k. handle_value h \<le> handle_value k)"
    by (simp add: fun_eq_iff less_eq_ATT_HANDLE_def)
  ultimately show ?thesis by (simp add: sorted_map distinct_map)
qed

text \<open>The bytes of the documented UUIDs.\<close>

lemma uuid_bytes:
  "u16_bytes 0x2800 = [0x00, 0x28]" "u16_bytes 0x2803 = [0x03, 0x28]" "u16_bytes 0x2A00 = [0x00, 0x2A]"
  "u16_bytes 0x2A01 = [0x01, 0x2A]" "u16_bytes 0x2A04 = [0x04, 0x2A]" "u16_bytes 0x2A05 = [0x05, 0x2A]"
  "u16_bytes 0x2902 = [0x02, 0x29]" "u16_bytes 0x1800 = [0x00, 0x18]" "u16_bytes 0x1801 = [0x01, 0x18]"
  "u16_bytes 0x180A = [0x0A, 0x18]" "u16_bytes 0x2A50 = [0x50, 0x2A]"
  by code_simp+

text \<open>The table with the documented constants, written out.\<close>

definition plain_table :: "u8 \<Rightarrow> u8 \<Rightarrow> u8 list \<Rightarrow> attribute_t list" where
  "plain_table R W app =
    (let e = \<lambda>num p u v. \<lparr>attNum = num, perm = p, uuidLen = 2, attrLen = length v, uuid = Some u, pAttrValue = Some v,
       w_callback = 0\<rparr>
     in [\<lparr>attNum = 14, perm = 0, uuidLen = 0, attrLen = 0, uuid = None, pAttrValue = None, w_callback = 0\<rparr>,
       e 7 R [0x00, 0x28] [0x00, 0x18],
       e 0 R [0x03, 0x28] [0x12, 3, 0, 0x00, 0x2A],
       e 0 R [0x00, 0x2A] (map of_char ''eSample''),
       e 0 R [0x03, 0x28] [0x02, 5, 0, 0x01, 0x2A],
       e 0 R [0x01, 0x2A] app,
       e 0 R [0x03, 0x28] [0x02, 7, 0, 0x04, 0x2A],
       e 0 R [0x04, 0x2A] [8, 0, 11, 0, 0, 0, 0xE8, 3],
       e 4 R [0x00, 0x28] [0x01, 0x18],
       e 0 R [0x03, 0x28] [0x20, 10, 0, 0x05, 0x2A],
       e 0 R [0x05, 0x2A] [0, 0, 0, 0],
       e 0 W [0x02, 0x29] [0, 0],
       e 3 R [0x00, 0x28] [0x0A, 0x18],
       e 0 R [0x03, 0x28] [0x02, 14, 0, 0x50, 0x2A],
       e 0 R [0x50, 0x2A] [0x02, 0x8a, 0x24, 0x66, 0x82, 0x01, 0x00]])"

lemma value_bytes:
  "conn_param_bytes my_periConnParameters = [8, 0, 11, 0, 0, 0, 0xE8, 3]"
  "concat (map u16_bytes serviceChangeVal) = [0, 0, 0, 0]"
  "(0x02 OR 0x10 :: u8) = 0x12"
  by code_simp+

lemma decl_bytes:
  "[ucast (of_nat (handle_value GenericAccess_DeviceName_DP_H) :: u16), ucast (drop_bit 8 (of_nat (handle_value GenericAccess_DeviceName_DP_H) :: u16)),
    ucast (0x2A00 :: u16), ucast (drop_bit 8 (0x2A00 :: u16))] = [3, 0, 0, 0x2A :: u8]"
  "[ucast (of_nat (handle_value GenericAccess_Appearance_DP_H) :: u16), ucast (drop_bit 8 (of_nat (handle_value GenericAccess_Appearance_DP_H) :: u16)),
    ucast (0x2A01 :: u16), ucast (drop_bit 8 (0x2A01 :: u16))] = [5, 0, 1, 0x2A :: u8]"
  "[ucast (of_nat (handle_value CONN_PARAM_DP_H) :: u16), ucast (drop_bit 8 (of_nat (handle_value CONN_PARAM_DP_H) :: u16)),
    ucast (0x2A04 :: u16), ucast (drop_bit 8 (0x2A04 :: u16))] = [7, 0, 4, 0x2A :: u8]"
  "[ucast (of_nat (handle_value GenericAttribute_ServiceChanged_DP_H) :: u16), ucast (drop_bit 8 (of_nat (handle_value GenericAttribute_ServiceChanged_DP_H) :: u16)),
    ucast (0x2A05 :: u16), ucast (drop_bit 8 (0x2A05 :: u16))] = [10, 0, 5, 0x2A :: u8]"
  "[ucast (of_nat (handle_value DeviceInformation_pnpID_DP_H) :: u16), ucast (drop_bit 8 (of_nat (handle_value DeviceInformation_pnpID_DP_H) :: u16)),
    ucast (0x2A50 :: u16), ucast (drop_bit 8 (0x2A50 :: u16))] = [14, 0, 0x50, 0x2A :: u8]"
  by code_simp+

lemma char_decl_documented:
  "documented_uuids H \<Longrightarrow> char_decl H p h u
    = p # [ucast (u16_handle h), ucast (drop_bit 8 (u16_handle h)), ucast u, ucast (drop_bit 8 u)]"
  by (simp only: char_decl_def documented_values)

lemma decl_values:
  assumes "documented_uuids H"
  shows "my_devNameCharVal H = [0x12, 3, 0, 0x00, 0x2A]" "my_appearanceCharVal H = [0x02, 5, 0, 0x01, 0x2A]"
    "my_periConnParamCharVal H = [0x02, 7, 0, 0x04, 0x2A]" "my_serviceChangeCharVal H = [0x20, 10, 0, 0x05, 0x2A]"
    "my_PnCharVal H = [0x02, 14, 0, 0x50, 0x2A]"
  by (simp_all only: my_devNameCharVal_def my_appearanceCharVal_def my_periConnParamCharVal_def
      my_serviceChangeCharVal_def my_PnCharVal_def char_decl_documented [OF assms] documented_values [OF assms]
      decl_bytes value_bytes)

lemma gattTable_plain:
  assumes "documented_uuids H"
  shows "gattTable H = plain_table (ATT_PERMISSIONS_READ H) (ATT_PERMISSIONS_RDWR H) (u16_bytes (GAP_APPEARE_UNKNOWN H))"
  unfolding gattTable_def plain_table_def entry_def Let_def decl_values [OF assms] documented_values [OF assms]
    value_bytes uuid_bytes
  by (simp add: my_devName_def serviceChangeCCC_def my_PnPtrs_def)

lemma has_uuid_bytes:
  "has_uuid 0x2800 a \<longleftrightarrow> uuid a = Some [0x00, 0x28]" "has_uuid 0x2803 a \<longleftrightarrow> uuid a = Some [0x03, 0x28]"
  "has_uuid 0x2902 a \<longleftrightarrow> uuid a = Some [0x02, 0x29]"
  unfolding has_uuid_def uuid_bytes by (rule refl)+

lemma plain_table_length: "length (plain_table R W app) = 15"
  by (simp add: plain_table_def)

text \<open>
  The table lists the services that its comments announce. With the documented UUIDs, entry 0
  holds the number of the other entries, which is one less than \<open>ATT_END_H\<close>; the primary services
  are GAP at handles 1 to 7, GATT at 8 to 11 and device information at 12 to 14, they begin at the
  handles that the enumeration names, and cover all handles without a gap or an overlap.
\<close>

theorem gatt_services:
  assumes "documented_uuids H"
  shows "attNum (gattTable H ! 0) = length (gattTable H) - 1 \<and> length (gattTable H) = handle_value ATT_END_H
    \<and> services H (gattTable H) =
       [(handle_value GenericAccess_PS_H, 7, Some [0x00, 0x18]),
        (handle_value GenericAttribute_PS_H, 11, Some [0x01, 0x18]),
        (handle_value DeviceInformation_PS_H, 14, Some [0x0A, 0x18])]
    \<and> partitioned 1 (services H (gattTable H)) (handle_value ATT_END_H)"
proof -
  note v = documented_values [OF assms]
  have "services H (plain_table R W app) = [(1, 7, Some [0x00, 0x18]), (8, 11, Some [0x01, 0x18]), (12, 14, Some [0x0A, 0x18])]"
    for R W app
    by (simp add: services_def v has_uuid_bytes plain_table_def)
  then show ?thesis
    by (simp add: gattTable_plain [OF assms] plain_table_length) (simp add: plain_table_def)
qed

definition sim_ble_h :: ble_h where
  "sim_ble_h = \<lparr>GATT_UUID_PRIMARY_SERVICE = 0x2800, GATT_UUID_CHARACTER = 0x2803, GATT_UUID_DEVICE_NAME = 0x2A00,
     GATT_UUID_APPEARANCE = 0x2A01, GATT_UUID_PERI_CONN_PARAM = 0x2A04, GATT_UUID_SERVICE_CHANGE = 0x2A05,
     GATT_UUID_CLIENT_CHAR_CFG = 0x2902, SERVICE_UUID_GENERIC_ACCESS = 0x1800,
     SERVICE_UUID_GENERIC_ATTRIBUTE = 0x1801, SERVICE_UUID_DEVICE_INFORMATION = 0x180A,
     CHARACTERISTIC_UUID_PNP_ID = 0x2A50, GAP_APPEARE_UNKNOWN = 0, CHAR_PROP_READ = 0x02,
     CHAR_PROP_NOTIFY = 0x10, CHAR_PROP_INDICATE = 0x20, ATT_PERMISSIONS_READ = 1, ATT_PERMISSIONS_RDWR = 3,
     U16_LO = ucast, U16_HI = (\<lambda>x. ucast (drop_bit 8 x)), BLE_SUCCESS = 0, ADV_INTERVAL_500MS = 800,
     ADV_TYPE_CONNECTABLE_UNDIRECTED = 0, OWN_ADDRESS_PUBLIC = 0, BLT_ENABLE_ADV_ALL = 7, ADV_FP_NONE = 0,
     BLC_ADV_ENABLE = 1, MASTER_MAX_NUM = 4, SLAVE_MAX_NUM = 4, CAL_MTU_BUFF_SIZE = (\<lambda>n. n + 13),
     flash_sector_mac_address = 0xFF000, HCI_FLAG_EVENT_BT_STD = 0x2000000, HCI_EVT_DISCONNECTION_COMPLETE = 0x05,
     HCI_EVT_LE_META = 0x3E, HCI_SUB_EVT_LE_CONNECTION_COMPLETE = 0x01, HCI_EVT_MASK_DISCONNECTION_COMPLETE = 0x10,
     HCI_LE_EVT_MASK_CONNECTION_COMPLETE = 1, PM_SLEEP_LEG_ADV = 1, PM_SLEEP_LEG_SCAN = 2, PM_SLEEP_ACL_SLAVE = 4,
     PM_SLEEP_ACL_MASTER = 8, FLD_SYSTEM_TRIG_PAST_EN = 8\<rparr>"

lemma sim_ble_h_documented: "documented_uuids sim_ble_h"
  by (simp add: documented_uuids_def sim_ble_h_def)

lemma gatt_services_witness:
  "partitioned 1 (services sim_ble_h (gattTable sim_ble_h)) 15 \<and> attNum (gattTable sim_ble_h ! 0) = 14"
  using gatt_services [OF sim_ble_h_documented] by simp

lemma handle_bytes:
  "u16_bytes (of_nat (2 + 1)) = [3, 0]" "u16_bytes (of_nat (4 + 1)) = [5, 0]" "u16_bytes (of_nat (6 + 1)) = [7, 0]"
  "u16_bytes (of_nat (9 + 1)) = [10, 0]" "u16_bytes (of_nat (13 + 1)) = [14, 0]"
  by code_simp+

lemma declarations_describe:
  "describes_next (plain_table R W app) 2" "describes_next (plain_table R W app) 4"
  "describes_next (plain_table R W app) 6" "describes_next (plain_table R W app) 9"
  "describes_next (plain_table R W app) 13"
  unfolding describes_next_def handle_bytes plain_table_length by (simp_all add: plain_table_def)

text \<open>
  C29: The table is consistent. With the documented UUIDs, every entry but the first gives the true
  lengths of its UUID and its value, the value of every characteristic declaration names the
  handle of the entry that follows it, and that entry's UUID.
\<close>

theorem gatt_table_typed:
  assumes "documented_uuids H" "0 < h" "h < length (gattTable H)"
  shows "entry_ok (gattTable H ! h)
    \<and> (has_uuid (GATT_UUID_CHARACTER H) (gattTable H ! h) \<longrightarrow> describes_next (gattTable H) h)"
proof -
  note v = documented_values [OF assms(1)]
  have "h \<in> set [1, 2, 3, 4, 5, 6, 7, 8, 9, 10, 11, 12, 13, 14]"
    using assms(2,3) unfolding gattTable_plain [OF assms(1)] plain_table_length by simp presburger
  moreover have "entry_ok (plain_table R W app ! h)" if "h \<in> set [1, 2, 3, 4, 5, 6, 7, 8, 9, 10, 11, 12, 13, 14]" for R W app h
    using that by (auto simp: plain_table_def entry_ok_def)
  moreover have "describes_next (plain_table R W app) h" if "uuid (plain_table R W app ! h) = Some [0x03, 0x28]"
    "h \<in> set [1, 2, 3, 4, 5, 6, 7, 8, 9, 10, 11, 12, 13, 14]" for R W app h
  proof -
    have "h = 2 \<or> h = 4 \<or> h = 6 \<or> h = 9 \<or> h = 13"
      using that by (auto simp: plain_table_def)
    then show ?thesis using declarations_describe [of R W app] by blast
  qed
  ultimately show ?thesis
    unfolding gattTable_plain [OF assms(1)] v has_uuid_bytes by blast
qed

lemma gatt_table_typed_witness: "describes_next (gattTable sim_ble_h) 2"
proof -
  have "length (gattTable sim_ble_h) = 15" using gattTable_plain [OF sim_ble_h_documented] plain_table_length by simp
  moreover have "has_uuid (GATT_UUID_CHARACTER sim_ble_h) (gattTable sim_ble_h ! 2)"
    by (simp add: gattTable_plain [OF sim_ble_h_documented] documented_values [OF sim_ble_h_documented]
        has_uuid_bytes plain_table_def)
  ultimately show ?thesis using gatt_table_typed [OF sim_ble_h_documented, of 2] by simp
qed

text \<open>
  A property that cannot be used: the device name is declared with the notify property, but no
  client characteristic configuration descriptor follows it, so no client can enable its
  notifications. It is the only such characteristic (service changed has its descriptor).
\<close>

theorem device_name_without_ccc:
  assumes "documented_uuids H"
  shows "missing_ccc H (gattTable H) = [handle_value GenericAccess_DeviceName_CD_H]"
proof -
  note v = documented_values [OF assms]
  have bits: "(0x10 OR 0x20 :: u8) = 0x30" "(0x12 AND 0x30 :: u8) = 0x10" "(0x02 AND 0x30 :: u8) = 0"
    "(0x20 AND 0x30 :: u8) = 0x20" by code_simp+
  have "(wants_ccc H (plain_table R W app ! h) \<and> \<not> (h + 2 < 15 \<and> has_uuid 0x2902 (plain_table R W app ! (h + 2)))) = (h = 2)"
    if "h \<in> set [0, 1, 2, 3, 4, 5, 6, 7, 8, 9, 10, 11, 12, 13, 14]" for R W app h
    using that by (auto simp: plain_table_def wants_ccc_def v has_uuid_bytes bits)
  moreover have "set [0..<15] = set [0, 1, 2, 3, 4, 5, 6, 7, 8, 9, 10, 11, 12, 13, 14 :: nat]" by code_simp
  ultimately have "missing_ccc H (plain_table R W app) = filter (\<lambda>h. h = 2) [0..<15]" for R W app
    unfolding missing_ccc_def plain_table_length v by (intro filter_cong) blast+
  moreover have "filter (\<lambda>h. h = 2) [0..<15] = [2 :: nat]" by code_simp
  ultimately have "missing_ccc H (plain_table R W app) = [2]" for R W app by simp
  then show ?thesis by (simp add: gattTable_plain [OF assms])
qed

lemma device_name_without_ccc_witness: "missing_ccc sim_ble_h (gattTable sim_ble_h) = [2]"
  using device_name_without_ccc [OF sim_ble_h_documented] by simp

end
