(* ===== verification/Uni_Ble.thy ===== *)
theory Uni_Ble
  imports Ble_Sdk
begin

text \<open>
  The layer between the sample and the two variants of the SDK (\<open>uni_ble.c\<close>). The preprocessor
  chooses one of two implementations of \<open>uni_ble.h\<close>; here both are modelled, as two values of the
  record \<open>uni_ble\<close> of its operations. \<open>invoke\<close> runs a callback, which is a value of the type \<open>'f\<close>.
\<close>

record ('f, 'w) uni_ble =
  ll_setAdvParam :: "adv_param \<Rightarrow> (('f, 'w) ble, int) state"
  ll_setAdvData :: "u8 list \<Rightarrow> (('f, 'w) ble, int) state"
  ll_setScanRspData :: "u8 list \<Rightarrow> (('f, 'w) ble, int) state"
  ll_setAdvEnable :: "int \<Rightarrow> (('f, 'w) ble, int) state"
  ll_initAclConnTxFifo :: "int \<Rightarrow> int \<Rightarrow> int \<Rightarrow> int \<Rightarrow> (('f, 'w) ble, int) state"
  uni_init :: "(('f, 'w) ble, unit) state"
  l2cap_register_data_handler :: "(('f, 'w) ble, unit) state"
  ll_initAdvertising_module :: "(('f, 'w) ble, unit) state"
  ll_initConnection_module :: "(('f, 'w) ble, unit) state"
  ll_initSlaveRole_module :: "(('f, 'w) ble, unit) state"
  sdk_main_loop :: "(('f, 'w) ble, unit) state"
  sdk_irq_handler :: "(('f, 'w) ble, unit) state"
  register_connect_disconnect_cb :: "'f option \<Rightarrow> 'f option \<Rightarrow> (('f, 'w) ble, unit) state"

text \<open>\<open>if (func) func();\<close>\<close>

definition run_cb :: "('f \<Rightarrow> (('f, 'w) ble, unit) state) \<Rightarrow> (('f, 'w) ble \<Rightarrow> 'f option) \<Rightarrow> (('f, 'w) ble, unit) state" where
  "run_cb invoke field = do {
     s \<leftarrow> State_Monad.get;
     case field s of None \<Rightarrow> State_Monad.return () | Some func \<Rightarrow> invoke func }"

definition store_cbs :: "'f option \<Rightarrow> 'f option \<Rightarrow> (('f, 'w) ble, unit) state" where
  "store_cbs on_connect on_disconnect =
     State_Monad.update (\<lambda>s. s\<lparr>connect := on_connect, disconnect := on_disconnect\<rparr>)"

section \<open>One connection: \<open>TELINK_SDK_B91_BLE_SINGLE\<close>\<close>

definition single_setAdvParam :: "'w sdk_ops \<Rightarrow> adv_param \<Rightarrow> (('f, 'w) ble, int) state" where
  "single_setAdvParam K p = sdk_call K (Bls_ll_setAdvParam p)"

definition single_setAdvData :: "'w sdk_ops \<Rightarrow> u8 list \<Rightarrow> (('f, 'w) ble, int) state" where
  "single_setAdvData K data = sdk_call K (Bls_ll_setAdvData data)"

definition single_setScanRspData :: "'w sdk_ops \<Rightarrow> u8 list \<Rightarrow> (('f, 'w) ble, int) state" where
  "single_setScanRspData K data = sdk_call K (Bls_ll_setScanRspData data)"

definition single_setAdvEnable :: "'w sdk_ops \<Rightarrow> int \<Rightarrow> (('f, 'w) ble, int) state" where
  "single_setAdvEnable K e = sdk_call K (Bls_ll_setAdvEnable e)"

definition single_initAclConnTxFifo :: "'w sdk_ops \<Rightarrow> int \<Rightarrow> int \<Rightarrow> int \<Rightarrow> int \<Rightarrow> (('f, 'w) ble, int) state" where
  "single_initAclConnTxFifo K buf fifo_size fifo_number conn_number =
     sdk_call K (Blc_ll_initAclConnTxFifo buf fifo_size fifo_number)"

definition single_init :: "'w sdk_ops \<Rightarrow> (('f, 'w) ble, unit) state" where
  "single_init K = sdk_do K Blc_gap_peripheral_init"

definition single_l2cap_register :: "'w sdk_ops \<Rightarrow> (('f, 'w) ble, unit) state" where
  "single_l2cap_register K = sdk_do K (Blc_l2cap_register_handler blc_l2cap_packet_receive)"

definition single_initAdvertising_module :: "'w sdk_ops \<Rightarrow> (('f, 'w) ble, unit) state" where
  "single_initAdvertising_module K = sdk_do K Blc_ll_initAdvertising_module"

definition single_initConnection_module :: "'w sdk_ops \<Rightarrow> (('f, 'w) ble, unit) state" where
  "single_initConnection_module K = sdk_do K Blc_ll_initConnection_module"

definition single_initSlaveRole_module :: "'w sdk_ops \<Rightarrow> (('f, 'w) ble, unit) state" where
  "single_initSlaveRole_module K = sdk_do K Blc_ll_initSlaveRole_module"

definition single_main_loop :: "'w sdk_ops \<Rightarrow> (('f, 'w) ble, unit) state" where
  "single_main_loop K = sdk_do K Blt_sdk_main_loop"

definition single_irq_handler :: "'w sdk_ops \<Rightarrow> (('f, 'w) ble, unit) state" where
  "single_irq_handler K = sdk_do K Irq_blt_sdk_handler"

text \<open>The handlers of the two events; their arguments are not used.\<close>

definition single_connect_cb :: "('f \<Rightarrow> (('f, 'w) ble, unit) state) \<Rightarrow> (('f, 'w) ble, unit) state" where
  "single_connect_cb invoke = run_cb invoke connect"

definition single_disconnect_cb :: "('f \<Rightarrow> (('f, 'w) ble, unit) state) \<Rightarrow> (('f, 'w) ble, unit) state" where
  "single_disconnect_cb invoke = run_cb invoke disconnect"

definition single_register :: "'w sdk_ops \<Rightarrow> 'f option \<Rightarrow> 'f option \<Rightarrow> (('f, 'w) ble, unit) state" where
  "single_register K on_connect on_disconnect = do {
     store_cbs on_connect on_disconnect;
     sdk_do K (Bls_app_registerEventCallback BLT_EV_FLAG_CONNECT connect_cb);
     sdk_do K (Bls_app_registerEventCallback BLT_EV_FLAG_TERMINATE disconnect_cb) }"

definition single_api :: "'w sdk_ops \<Rightarrow> ('f, 'w) uni_ble" where
  "single_api K = \<lparr>ll_setAdvParam = single_setAdvParam K, ll_setAdvData = single_setAdvData K,
     ll_setScanRspData = single_setScanRspData K, ll_setAdvEnable = single_setAdvEnable K,
     ll_initAclConnTxFifo = single_initAclConnTxFifo K, uni_init = single_init K,
     l2cap_register_data_handler = single_l2cap_register K,
     ll_initAdvertising_module = single_initAdvertising_module K,
     ll_initConnection_module = single_initConnection_module K,
     ll_initSlaveRole_module = single_initSlaveRole_module K, sdk_main_loop = single_main_loop K,
     sdk_irq_handler = single_irq_handler K, register_connect_disconnect_cb = single_register K\<rparr>"

section \<open>Several connections: \<open>TELINK_SDK_B91_BLE_MULTI\<close>\<close>

definition multi_setAdvParam :: "'w sdk_ops \<Rightarrow> adv_param \<Rightarrow> (('f, 'w) ble, int) state" where
  "multi_setAdvParam K p = sdk_call K (Blc_ll_setAdvParam p)"

definition multi_setAdvData :: "'w sdk_ops \<Rightarrow> u8 list \<Rightarrow> (('f, 'w) ble, int) state" where
  "multi_setAdvData K data = sdk_call K (Blc_ll_setAdvData data)"

definition multi_setScanRspData :: "'w sdk_ops \<Rightarrow> u8 list \<Rightarrow> (('f, 'w) ble, int) state" where
  "multi_setScanRspData K data = sdk_call K (Blc_ll_setScanRspData data)"

definition multi_setAdvEnable :: "'w sdk_ops \<Rightarrow> int \<Rightarrow> (('f, 'w) ble, int) state" where
  "multi_setAdvEnable K e = sdk_call K (Blc_ll_setAdvEnable e)"

definition multi_initAclConnTxFifo :: "'w sdk_ops \<Rightarrow> int \<Rightarrow> int \<Rightarrow> int \<Rightarrow> int \<Rightarrow> (('f, 'w) ble, int) state" where
  "multi_initAclConnTxFifo K buf fifo_size fifo_number conn_number =
     sdk_call K (Blc_ll_initAclConnSlaveTxFifo buf fifo_size fifo_number conn_number)"

definition multi_init :: "'w sdk_ops \<Rightarrow> (('f, 'w) ble, unit) state" where
  "multi_init K = sdk_do K Blc_gap_init"

definition multi_l2cap_register :: "'w sdk_ops \<Rightarrow> (('f, 'w) ble, unit) state" where
  "multi_l2cap_register K = sdk_do K (Blc_hci_registerControllerDataHandler blc_l2cap_pktHandler)"

definition multi_initAdvertising_module :: "'w sdk_ops \<Rightarrow> (('f, 'w) ble, unit) state" where
  "multi_initAdvertising_module K = sdk_do K Blc_ll_initLegacyAdvertising_module"

definition multi_initConnection_module :: "'w sdk_ops \<Rightarrow> (('f, 'w) ble, unit) state" where
  "multi_initConnection_module K = sdk_do K Blc_ll_initAclConnection_module"

definition multi_initSlaveRole_module :: "'w sdk_ops \<Rightarrow> (('f, 'w) ble, unit) state" where
  "multi_initSlaveRole_module K = sdk_do K Blc_ll_initAclSlaveRole_module"

definition multi_main_loop :: "'w sdk_ops \<Rightarrow> (('f, 'w) ble, unit) state" where
  "multi_main_loop K = sdk_do K Blc_sdk_main_loop"

definition multi_irq_handler :: "'w sdk_ops \<Rightarrow> (('f, 'w) ble, unit) state" where
  "multi_irq_handler K = sdk_do K Blc_sdk_irq_handler"

text \<open>\<open>param\<close> is the buffer of the event's parameters; \<open>param[0]\<close> is read for meta events only.\<close>

definition AppControllerEvent ::
    "ble_h \<Rightarrow> ('f \<Rightarrow> (('f, 'w) ble, unit) state) \<Rightarrow> u32 \<Rightarrow> u8 list \<Rightarrow> (('f, 'w) ble, int) state" where
  "AppControllerEvent H invoke event param = do {
     (if event AND HCI_FLAG_EVENT_BT_STD H \<noteq> 0 then
        (let evtCode = ucast (event AND 0xff)
         in if evtCode = HCI_EVT_DISCONNECTION_COMPLETE H then run_cb invoke disconnect
            else if evtCode = HCI_EVT_LE_META H then
              (if param ! 0 = HCI_SUB_EVT_LE_CONNECTION_COMPLETE H then run_cb invoke connect
               else State_Monad.return ())
            else State_Monad.return ())
      else State_Monad.return ());
     State_Monad.return 0 }"

definition multi_register :: "'w sdk_ops \<Rightarrow> ble_h \<Rightarrow> 'f option \<Rightarrow> 'f option \<Rightarrow> (('f, 'w) ble, unit) state" where
  "multi_register K H on_connect on_disconnect = do {
     store_cbs on_connect on_disconnect;
     sdk_do K (Blc_hci_le_setEventMask_cmd
       (HCI_EVT_MASK_DISCONNECTION_COMPLETE H OR HCI_LE_EVT_MASK_CONNECTION_COMPLETE H));
     sdk_do K (Blc_hci_registerControllerEventHandler AppControllerEventCallback) }"

definition multi_api :: "'w sdk_ops \<Rightarrow> ble_h \<Rightarrow> ('f, 'w) uni_ble" where
  "multi_api K H = \<lparr>ll_setAdvParam = multi_setAdvParam K, ll_setAdvData = multi_setAdvData K,
     ll_setScanRspData = multi_setScanRspData K, ll_setAdvEnable = multi_setAdvEnable K,
     ll_initAclConnTxFifo = multi_initAclConnTxFifo K, uni_init = multi_init K,
     l2cap_register_data_handler = multi_l2cap_register K,
     ll_initAdvertising_module = multi_initAdvertising_module K,
     ll_initConnection_module = multi_initConnection_module K,
     ll_initSlaveRole_module = multi_initSlaveRole_module K, sdk_main_loop = multi_main_loop K,
     sdk_irq_handler = multi_irq_handler K, register_connect_disconnect_cb = multi_register K H\<rparr>"

datatype variant = BLE_SINGLE | BLE_MULTI

definition uni_api :: "variant \<Rightarrow> 'w sdk_ops \<Rightarrow> ble_h \<Rightarrow> ('f, 'w) uni_ble" where
  "uni_api V K H = (case V of BLE_SINGLE \<Rightarrow> single_api K | BLE_MULTI \<Rightarrow> multi_api K H)"

lemmas single_defs = single_setAdvParam_def single_setAdvData_def single_setScanRspData_def single_setAdvEnable_def
  single_initAclConnTxFifo_def single_init_def single_l2cap_register_def single_initAdvertising_module_def
  single_initConnection_module_def single_initSlaveRole_module_def single_main_loop_def single_irq_handler_def
  single_register_def

lemmas multi_defs = multi_setAdvParam_def multi_setAdvData_def multi_setScanRspData_def multi_setAdvEnable_def
  multi_initAclConnTxFifo_def multi_init_def multi_l2cap_register_def multi_initAdvertising_module_def
  multi_initConnection_module_def multi_initSlaveRole_module_def multi_main_loop_def multi_irq_handler_def
  multi_register_def

lemma run_store_cbs [simp]: "run_state (store_cbs c d) s = ((), s\<lparr>connect := c, disconnect := d\<rparr>)"
  by (simp add: store_cbs_def State_Monad.update_def)

lemma run_run_cb [simp]:
  "run_state (run_cb invoke field) s = (case field s of None \<Rightarrow> ((), s) | Some f \<Rightarrow> run_state (invoke f) s)"
  by (simp add: run_cb_def split: option.split)

section \<open>Link events\<close>

text \<open>
  What the SDK reports, as each variant is told: the single-connection SDK calls the handler
  registered for the event; the other calls \<open>AppControllerEventCallback\<close> with an event word and
  its parameters.
\<close>

datatype link_event = Connected "u8 list" | Disconnected "u8 list" | Other_meta u8 "u8 list"

definition hci_word :: "ble_h \<Rightarrow> u8 \<Rightarrow> u32" where
  "hci_word H code = HCI_FLAG_EVENT_BT_STD H OR ucast code"

fun single_event :: "('f \<Rightarrow> (('f, 'w) ble, unit) state) \<Rightarrow> link_event \<Rightarrow> (('f, 'w) ble, unit) state" where
  "single_event invoke (Connected ps) = single_connect_cb invoke"
| "single_event invoke (Disconnected ps) = single_disconnect_cb invoke"
| "single_event invoke (Other_meta sub ps) = State_Monad.return ()"

fun multi_event :: "ble_h \<Rightarrow> ('f \<Rightarrow> (('f, 'w) ble, unit) state) \<Rightarrow> link_event \<Rightarrow> (('f, 'w) ble, unit) state" where
  "multi_event H invoke (Connected ps) =
     AppControllerEvent H invoke (hci_word H (HCI_EVT_LE_META H)) (HCI_SUB_EVT_LE_CONNECTION_COMPLETE H # ps)
       \<bind> (\<lambda>_. State_Monad.return ())"
| "multi_event H invoke (Disconnected ps) =
     AppControllerEvent H invoke (hci_word H (HCI_EVT_DISCONNECTION_COMPLETE H)) ps \<bind> (\<lambda>_. State_Monad.return ())"
| "multi_event H invoke (Other_meta sub ps) =
     AppControllerEvent H invoke (hci_word H (HCI_EVT_LE_META H)) (sub # ps) \<bind> (\<lambda>_. State_Monad.return ())"

text \<open>
  The documented constants: the flag is a bit above the event code, the codes are different. Other
  meta events are not the connection event.
\<close>

definition hci_codes :: "ble_h \<Rightarrow> bool" where
  "hci_codes H \<longleftrightarrow> HCI_FLAG_EVENT_BT_STD H \<noteq> 0 \<and> HCI_FLAG_EVENT_BT_STD H AND 0xff = 0
     \<and> HCI_EVT_DISCONNECTION_COMPLETE H \<noteq> HCI_EVT_LE_META H"

fun proper :: "ble_h \<Rightarrow> link_event \<Rightarrow> bool" where
  "proper H (Other_meta sub ps) = (sub \<noteq> HCI_SUB_EVT_LE_CONNECTION_COMPLETE H)"
| "proper H _ = True"

lemma hci_word_code:
  assumes "hci_codes H"
  shows "(ucast (hci_word H code AND 0xff) :: u8) = code" "hci_word H code AND HCI_FLAG_EVENT_BT_STD H \<noteq> 0"
proof -
  have m: "(0xff :: u32) = mask 8" by (simp add: mask_eq_exp_minus_1)
  have c: "(ucast code AND 0xff :: u32) = ucast code"
    unfolding m by (rule bit_word_eqI) (auto simp: bit_simps dest: bit_imp_le_length)
  have "hci_word H code AND 0xff = ucast code"
    using assms by (simp add: hci_word_def hci_codes_def bit.conj_disj_distrib2 and.commute c)
  moreover have "(ucast (ucast code :: u32) :: u8) = code"
    by (rule bit_word_eqI) (auto simp: bit_simps)
  ultimately show "(ucast (hci_word H code AND 0xff) :: u8) = code" by simp
  have "hci_word H code AND HCI_FLAG_EVENT_BT_STD H = HCI_FLAG_EVENT_BT_STD H"
    by (simp add: hci_word_def bit.conj_disj_distrib2 and.commute or.commute word_bw_assocs)
  then show "hci_word H code AND HCI_FLAG_EVENT_BT_STD H \<noteq> 0" using assms by (simp add: hci_codes_def)
qed

section \<open>The contract of both variants\<close>

text \<open>
  What a client of \<open>uni_ble.h\<close> may rely on: registering stores the two callbacks and does nothing else
  to the program's state, a connection runs the first, its end the second, other events neither.
\<close>

locale ble_link =
  fixes U :: "('f, 'w) uni_ble"
    and event :: "('f \<Rightarrow> (('f, 'w) ble, unit) state) \<Rightarrow> link_event \<Rightarrow> (('f, 'w) ble, unit) state"
    and good :: "link_event \<Rightarrow> bool"
  assumes registered: "\<exists>w. run_state (register_connect_disconnect_cb U c d) s
      = ((), s\<lparr>connect := c, disconnect := d, sdk := w\<rparr>)"
    and connected: "run_state (event invoke (Connected ps)) s
      = (case connect s of None \<Rightarrow> ((), s) | Some f \<Rightarrow> run_state (invoke f) s)"
    and disconnected: "run_state (event invoke (Disconnected ps)) s
      = (case disconnect s of None \<Rightarrow> ((), s) | Some f \<Rightarrow> run_state (invoke f) s)"
    and other: "good (Other_meta sub ps) \<Longrightarrow> run_state (event invoke (Other_meta sub ps)) s = ((), s)"

interpretation single: ble_link "single_api K" single_event "proper H" for K :: "'w sdk_ops" and H
  by unfold_locales (auto simp: single_api_def single_register_def single_connect_cb_def single_disconnect_cb_def)

lemma multi_event_run:
  assumes "hci_codes H"
  shows "run_state (multi_event H invoke (Connected ps)) s
      = (case connect s of None \<Rightarrow> ((), s) | Some f \<Rightarrow> run_state (invoke f) s)"
    "run_state (multi_event H invoke (Disconnected ps)) s
      = (case disconnect s of None \<Rightarrow> ((), s) | Some f \<Rightarrow> run_state (invoke f) s)"
    "proper H (Other_meta sub ps) \<Longrightarrow> run_state (multi_event H invoke (Other_meta sub ps)) s = ((), s)"
proof -
  note w = hci_word_code [OF assms]
  have "HCI_EVT_LE_META H \<noteq> HCI_EVT_DISCONNECTION_COMPLETE H" using assms by (auto simp: hci_codes_def)
  then show "run_state (multi_event H invoke (Connected ps)) s
      = (case connect s of None \<Rightarrow> ((), s) | Some f \<Rightarrow> run_state (invoke f) s)"
    "run_state (multi_event H invoke (Disconnected ps)) s
      = (case disconnect s of None \<Rightarrow> ((), s) | Some f \<Rightarrow> run_state (invoke f) s)"
    "proper H (Other_meta sub ps) \<Longrightarrow> run_state (multi_event H invoke (Other_meta sub ps)) s = ((), s)"
    by (simp_all add: AppControllerEvent_def w Let_def split: option.split prod.split)
qed

lemma multi_link: "hci_codes H \<Longrightarrow> ble_link (multi_api K H) (multi_event H) (proper H)"
  by unfold_locales (auto simp: multi_api_def multi_register_def multi_event_run simp del: multi_event.simps)

context ble_link
begin

text \<open>The callbacks stay what they are while events arrive, if running them keeps them.\<close>

lemma events_rule:
  assumes keep: "\<And>f s. connect (snd (run_state (invoke f) s)) = connect s
      \<and> disconnect (snd (run_state (invoke f) s)) = disconnect s"
    and cbs: "connect s = Some c" "disconnect s = Some d"
    and good: "\<forall>e \<in> set es. good e"
  shows "fold (\<lambda>e s. snd (run_state (event invoke e) s)) es s
    = fold (\<lambda>e s. case e of Connected ps \<Rightarrow> snd (run_state (invoke c) s)
        | Disconnected ps \<Rightarrow> snd (run_state (invoke d) s) | Other_meta sub ps \<Rightarrow> s) es s"
  using cbs good
proof (induction es arbitrary: s)
  case (Cons e es)
  let ?s1 = "snd (run_state (event invoke e) s)"
  have "?s1 = (case e of Connected ps \<Rightarrow> snd (run_state (invoke c) s)
        | Disconnected ps \<Rightarrow> snd (run_state (invoke d) s) | Other_meta sub ps \<Rightarrow> s)"
    using Cons.prems by (cases e) (simp_all add: connected disconnected other)
  moreover from this have "connect ?s1 = Some c" "disconnect ?s1 = Some d"
    using Cons.prems(1,2) keep by (auto split: link_event.split)
  ultimately show ?case using Cons.IH Cons.prems(3) by simp
qed simp

end

end
