(* ===== verification/Ble_App.thy ===== *)
theory Ble_App
  imports Uni_Ble Gatt Machine
begin

text \<open>
  The application of the BLE sample (\<open>app.c\<close>): advertising, connections, the initialisation of the
  stack, the main loop. The operations of \<open>uni_ble.h\<close> are an argument \<open>U\<close>; \<open>V\<close> is the variant that
  the preprocessor selects. A failing \<open>assert\<close> is the result \<open>False\<close>.
\<close>

abbreviation (input) ACL_TX_FIFO_SIZE :: int where "ACL_TX_FIFO_SIZE \<equiv> 48"
abbreviation (input) ACL_TX_FIFO_NUM :: int where "ACL_TX_FIFO_NUM \<equiv> 17"
abbreviation (input) ACL_RX_FIFO_SIZE :: int where "ACL_RX_FIFO_SIZE \<equiv> 48"
abbreviation (input) ACL_RX_FIFO_NUM :: int where "ACL_RX_FIFO_NUM \<equiv> 8"
abbreviation (input) ATT_MTU_SLAVE_RX_MAX_SIZE :: int where "ATT_MTU_SLAVE_RX_MAX_SIZE \<equiv> 23"

definition slave_max_num :: "variant \<Rightarrow> ble_h \<Rightarrow> int" where
  "slave_max_num V H = (case V of BLE_SINGLE \<Rightarrow> 1 | BLE_MULTI \<Rightarrow> SLAVE_MAX_NUM H)"

definition MTU_S_BUFF_SIZE_MAX :: "ble_h \<Rightarrow> int" where
  "MTU_S_BUFF_SIZE_MAX H = CAL_MTU_BUFF_SIZE H ATT_MTU_SLAVE_RX_MAX_SIZE"

text \<open>\<open>if (status != BLE_SUCCESS) { HILOG_ERROR(...); return status; }\<close>\<close>

definition status_msg :: "string \<Rightarrow> int \<Rightarrow> string" where
  "status_msg name status = name @ ''(): '' @ show_int status"

definition on_success ::
    "ble_h \<Rightarrow> string \<Rightarrow> int \<Rightarrow> (('f, 'w) ble, int) state \<Rightarrow> (('f, 'w) ble, int) state" where
  "on_success H name status rest =
     (if status \<noteq> BLE_SUCCESS H then do {
        HILOG (status_msg name status);
        State_Monad.return status }
      else rest)"

section \<open>Advertising\<close>

definition tbl_advData :: "u8 list" where
  "tbl_advData = [0x05, 0x09] @ map of_char ''eHID'' @ [0x02, 0x01, 0x05] @ [0x03, 0x19, 0x80, 0x01]
     @ [0x05, 0x02, 0x12, 0x18, 0x0F, 0x18]"

definition tbl_scanRsp :: "u8 list" where
  "tbl_scanRsp = [0x08, 0x09] @ map of_char ''eSample''"

definition app_adv_param :: "ble_h \<Rightarrow> adv_param" where
  "app_adv_param H = \<lparr>intervalMin = ADV_INTERVAL_500MS H, intervalMax = ADV_INTERVAL_500MS H,
     advType = ADV_TYPE_CONNECTABLE_UNDIRECTED H, ownAddrType = OWN_ADDRESS_PUBLIC H, peerAddrType = 0,
     peerAddr = None, adv_channelMap = BLT_ENABLE_ADV_ALL H, advFilterPolicy = ADV_FP_NONE H\<rparr>"

definition AppBleAdvInit :: "('f, 'w) uni_ble \<Rightarrow> ble_h \<Rightarrow> (('f, 'w) ble, int) state" where
  "AppBleAdvInit U H = do {
     status \<leftarrow> ll_setAdvParam U (app_adv_param H);
     on_success H ''uni_ble_ll_setAdvParam'' status (do {
     status \<leftarrow> ll_setAdvData U tbl_advData;
     on_success H ''uni_ble_ll_setAdvData'' status (do {
     status \<leftarrow> ll_setScanRspData U tbl_scanRsp;
     on_success H ''uni_ble_ll_setScanRspData'' status (do {
     status \<leftarrow> ll_setAdvEnable U (BLC_ADV_ENABLE H);
     on_success H ''uni_ble_ll_setAdvEnable'' status (State_Monad.return status) }) }) }) }"

section \<open>Connections\<close>

text \<open>The two callbacks of the application, \<open>connect\<close> and \<open>disconnect\<close>, and what each does.\<close>

datatype app_cb = App_connect | App_disconnect

fun app_invoke :: "'w sdk_ops \<Rightarrow> app_cb \<Rightarrow> ((app_cb, 'w) ble, unit) state" where
  "app_invoke K App_connect = sdk_do K (GpioWrite LED_WHITE_HDF GPIO_VAL_HIGH)"
| "app_invoke K App_disconnect = sdk_do K (GpioWrite LED_WHITE_HDF GPIO_VAL_LOW)"

definition when_multi :: "variant \<Rightarrow> (('f, 'w) ble, unit) state \<Rightarrow> (('f, 'w) ble, unit) state" where
  "when_multi V m = (case V of BLE_SINGLE \<Rightarrow> State_Monad.return () | BLE_MULTI \<Rightarrow> m)"

text \<open>What follows the checks of the buffers and of the number of connections.\<close>

definition conn_modules :: "variant \<Rightarrow> 'w sdk_ops \<Rightarrow> ble_h \<Rightarrow> (app_cb, 'w) uni_ble \<Rightarrow> ((app_cb, 'w) ble, unit) state" where
  "conn_modules V K H U = do {
     uni_init U;
     when_multi V (sdk_do K (Blc_l2cap_initAclConnSlaveMtuBuffer
       (slave_max_num V H * MTU_S_BUFF_SIZE_MAX H) (MTU_S_BUFF_SIZE_MAX H)
       (slave_max_num V H * MTU_S_BUFF_SIZE_MAX H) (MTU_S_BUFF_SIZE_MAX H)));
     AppBleGattInit K H;
     l2cap_register_data_handler U;
     sdk_do K (GpioSetDir LED_WHITE_HDF GPIO_DIR_OUT);
     register_connect_disconnect_cb U (Some App_connect) (Some App_disconnect);
     sdk_do K Blc_ll_initPowerManagement_module;
     sdk_do K (Blc_pm_setSleepMask (PM_SLEEP_LEG_ADV H OR PM_SLEEP_LEG_SCAN H OR PM_SLEEP_ACL_SLAVE H
       OR PM_SLEEP_ACL_MASTER H)) }"

definition max_connections ::
    "variant \<Rightarrow> 'w sdk_ops \<Rightarrow> ble_h \<Rightarrow> int \<Rightarrow> (int \<Rightarrow> (('f, 'w) ble, int) state) \<Rightarrow> (('f, 'w) ble, int) state" where
  "max_connections V K H status rest = (case V of
       BLE_SINGLE \<Rightarrow> rest status
     | BLE_MULTI \<Rightarrow> do {
         status \<leftarrow> sdk_call K (Blc_ll_setMaxConnectionNumber (MASTER_MAX_NUM H) (slave_max_num V H));
         on_success H ''blc_ll_setMaxConnectionNumber'' status (rest status) })"

definition AppBleConnInit ::
    "variant \<Rightarrow> 'w sdk_ops \<Rightarrow> ble_h \<Rightarrow> (app_cb, 'w) uni_ble \<Rightarrow> ((app_cb, 'w) ble, int) state" where
  "AppBleConnInit V K H U = do {
     status \<leftarrow> ll_initAclConnTxFifo U (ACL_TX_FIFO_SIZE * ACL_TX_FIFO_NUM * slave_max_num V H)
       ACL_TX_FIFO_SIZE ACL_TX_FIFO_NUM (slave_max_num V H);
     on_success H ''uni_ble_ll_initAclConnTxFifo'' status (do {
     status \<leftarrow> sdk_call K (Blc_ll_initAclConnRxFifo (ACL_RX_FIFO_SIZE * ACL_RX_FIFO_NUM) ACL_RX_FIFO_SIZE ACL_RX_FIFO_NUM);
     on_success H ''blc_ll_initAclConnRxFifo'' status (do {
     status \<leftarrow> sdk_call K Blc_controller_check_appBufferInitialization;
     on_success H ''blc_controller_check_appBufferInitialization'' status (
       max_connections V K H status (\<lambda>status. do {
         conn_modules V K H U;
         State_Monad.return status })) }) }) }"

section \<open>Initialisation and main loop\<close>

definition AppBleInit ::
    "variant \<Rightarrow> 'w sdk_ops \<Rightarrow> ble_h \<Rightarrow> (app_cb, 'w) uni_ble \<Rightarrow> ((app_cb, 'w) ble, bool) state" where
  "AppBleInit V K H U = do {
     sdk_do K (Blc_initMacAddress (flash_sector_mac_address H));
     sdk_do K Rf_set_power_level;
     sdk_do K Blc_ll_initBasicMCU;
     sdk_do K Blc_ll_initStandby_module;
     ll_initAdvertising_module U;
     ll_initConnection_module U;
     ll_initSlaveRole_module U;
     status \<leftarrow> AppBleAdvInit U H;
     HILOG (status_msg ''AppBleAdvInit'' status);
     if status \<noteq> BLE_SUCCESS H then State_Monad.return False
     else do {
       status \<leftarrow> AppBleConnInit V K H U;
       HILOG (status_msg ''AppBleConnInit'' status);
       State_Monad.return (status = BLE_SUCCESS H) } }"

definition UserInitNormal ::
    "variant \<Rightarrow> 'w sdk_ops \<Rightarrow> ble_h \<Rightarrow> (app_cb, 'w) uni_ble \<Rightarrow> ((app_cb, 'w) ble, bool) state" where
  "UserInitNormal V K H U = do {
     sdk_do K Random_generator_init;
     AppBleInit V K H U }"

definition MainLoop :: "('f, 'w) uni_ble \<Rightarrow> (('f, 'w) ble, unit) state" where
  "MainLoop U = sdk_main_loop U"

end
