(* ===== verification/Ble_Task.thy ===== *)
theory Ble_Task
  imports Ble_App
begin

text \<open>
  The task of the BLE sample (\<open>ble_sample_main.c\<close>): the semaphore that the SDK gives, the task that
  runs the main loop, the interrupt handlers, and the start of the sample.
\<close>

abbreviation (input) BLE_TASK_SEM_TIME :: nat where "BLE_TASK_SEM_TIME \<equiv> 50"

definition give_sem :: "'w sdk_ops \<Rightarrow> (('f, 'w) ble, unit) state" where
  "give_sem K = sdk_do K LOS_SemPost"

definition BleTask_start :: "'w sdk_ops \<Rightarrow> ble_h \<Rightarrow> (('f, 'w) ble, unit) state" where
  "BleTask_start K H = do {
     sdk_do K (Set_system_irq_mask (FLD_SYSTEM_TRIG_PAST_EN H));
     HILOG ''BleTask:64'' }"

text \<open>\<open>n\<close> rounds of the task's endless loop.\<close>

fun BleTask_rounds :: "'w sdk_ops \<Rightarrow> ('f, 'w) uni_ble \<Rightarrow> nat \<Rightarrow> (('f, 'w) ble, unit) state" where
  "BleTask_rounds K U 0 = State_Monad.return ()"
| "BleTask_rounds K U (Suc n) = do {
     MainLoop U;
     sdk_do K LOS_SemPend;
     BleTask_rounds K U n }"

definition BleTask :: "'w sdk_ops \<Rightarrow> ble_h \<Rightarrow> ('f, 'w) uni_ble \<Rightarrow> nat \<Rightarrow> (('f, 'w) ble, unit) state" where
  "BleTask K H U n = do {
     BleTask_start K H;
     BleTask_rounds K U n }"

definition RfIrq :: "('f, 'w) uni_ble \<Rightarrow> (('f, 'w) ble, unit) state" where
  "RfIrq U = sdk_irq_handler U"

definition StimerIrq :: "('f, 'w) uni_ble \<Rightarrow> (('f, 'w) ble, unit) state" where
  "StimerIrq U = sdk_irq_handler U"

text \<open>The result is \<open>False\<close> if an assertion stopped the initialisation of the stack.\<close>

definition BleSampleInit ::
    "variant \<Rightarrow> 'w sdk_ops \<Rightarrow> ble_h \<Rightarrow> (app_cb, 'w) uni_ble \<Rightarrow> ((app_cb, 'w) ble, bool) state" where
  "BleSampleInit V K H U = do {
     sdk_do K Rf_drv_ble_init;
     sdk_do K Blc_app_loadCustomizedParameters;
     ok \<leftarrow> UserInitNormal V K H U;
     if \<not> ok then State_Monad.return False
     else do {
       sdk_do K (OsSemCreate 0 BLE_TASK_SEM_TIME);
       sdk_do K (Blc_ll_registerGiveSemCb os_give_sem_cb);
       ret \<leftarrow> sdk_call K (Ble_LOS_TaskCreate ''BleTask'');
       (if ret \<noteq> 0 then HILOG (''ret of LOS_TaskCreate(BleTask) = 0x'' @ show_hex (u32_of_int ret))
        else State_Monad.return ());
       sdk_do K (Ble_B91IrqRegister IRQ15_ZB_RT RfIrqHandler);
       sdk_do K (Ble_B91IrqRegister IRQ1_SYSTIMER StimerIrqHandler);
       State_Monad.return True } }"

section \<open>The semaphore\<close>

text \<open>
  The task and the SDK's interrupt side share one counting semaphore, created with 0 of at most
  \<open>BLE_TASK_SEM_TIME\<close>. \<open>work\<close> records that something was given after the main loop last began.
\<close>

datatype place = At_loop | In_loop | At_pend

record task_state =
  sem :: nat
  place :: place
  work :: bool

definition task_init :: task_state where
  "task_init = \<lparr>sem = 0, place = At_loop, work = False\<rparr>"

definition sem_post :: "nat \<Rightarrow> nat" where
  "sem_post n = (if n < BLE_TASK_SEM_TIME then n + 1 else n)"

inductive task_step :: "task_state \<Rightarrow> task_state \<Rightarrow> bool" where
  Begin: "place s = At_loop \<Longrightarrow> task_step s (s\<lparr>place := In_loop, work := False\<rparr>)"
| End: "place s = In_loop \<Longrightarrow> task_step s (s\<lparr>place := At_pend\<rparr>)"
| Take: "place s = At_pend \<Longrightarrow> sem s > 0 \<Longrightarrow> task_step s (s\<lparr>place := At_loop, sem := sem s - 1\<rparr>)"

inductive ble_step :: "task_state \<Rightarrow> task_state \<Rightarrow> bool" where
  Give: "ble_step s (s\<lparr>sem := sem_post (sem s), work := True\<rparr>)"
| Task: "task_step s s' \<Longrightarrow> ble_step s s'"

inductive reachable :: "task_state \<Rightarrow> bool" where
  Init: "reachable task_init"
| Step: "reachable s \<Longrightarrow> ble_step s s' \<Longrightarrow> reachable s'"

inductive_cases task_stepE: "task_step s s'"
inductive_cases ble_stepE: "ble_step s s'"
inductive_simps task_step_simps: "task_step s s'"

lemma ble_step_invariant:
  assumes "ble_step s s'" "sem s \<le> 50 \<and> (work s \<longrightarrow> 0 < sem s \<or> place s = At_loop)"
  shows "sem s' \<le> 50 \<and> (work s' \<longrightarrow> 0 < sem s' \<or> place s' = At_loop)"
  using assms by (auto simp: sem_post_def elim!: ble_stepE task_stepE)

lemma reachable_invariant:
  "reachable s \<Longrightarrow> sem s \<le> 50 \<and> (work s \<longrightarrow> 0 < sem s \<or> place s = At_loop)"
proof (induction rule: reachable.induct)
  case Init
  then show ?case by (simp add: task_init_def)
next
  case (Step s s')
  then show ?case using ble_step_invariant by blast
qed

end
