(* ===== verification/Ble_Props.thy ===== *)
theory Ble_Props
  imports Ble_Task Gatt_Props
begin

text \<open>
  The properties of the BLE sample: what its initialisation calls, what it advertises, what its LED
  shows, and that the task misses no wake-up.
\<close>

section \<open>Initialisation\<close>

text \<open>
  The plan of the initialisation: the calls in order, each with a flag that says whether its status
  is checked; and what a plan does: it makes its calls and stops after a checked one that fails.
\<close>

fun run_plan ::
    "ble_h \<Rightarrow> (ble_call list \<Rightarrow> ble_call \<Rightarrow> int) \<Rightarrow> (bool \<times> ble_call) list \<Rightarrow> ble_call list \<Rightarrow> bool \<times> ble_call list" where
  "run_plan H res [] h = (True, h)"
| "run_plan H res ((checked, c) # p) h =
     (if checked \<and> res h c \<noteq> BLE_SUCCESS H then (False, h @ [c]) else run_plan H res p (h @ [c]))"

definition adv_plan :: "variant \<Rightarrow> ble_h \<Rightarrow> (bool \<times> ble_call) list" where
  "adv_plan V H = (case V of
     BLE_SINGLE \<Rightarrow> map (Pair True) [Bls_ll_setAdvParam (app_adv_param H), Bls_ll_setAdvData tbl_advData,
       Bls_ll_setScanRspData tbl_scanRsp, Bls_ll_setAdvEnable (BLC_ADV_ENABLE H)]
   | BLE_MULTI \<Rightarrow> map (Pair True) [Blc_ll_setAdvParam (app_adv_param H), Blc_ll_setAdvData tbl_advData,
       Blc_ll_setScanRspData tbl_scanRsp, Blc_ll_setAdvEnable (BLC_ADV_ENABLE H)])"

definition modules_plan :: "variant \<Rightarrow> ble_h \<Rightarrow> ble_call list" where
  "modules_plan V H =
     (let mask = PM_SLEEP_LEG_ADV H OR PM_SLEEP_LEG_SCAN H OR PM_SLEEP_ACL_SLAVE H OR PM_SLEEP_ACL_MASTER H;
          mtu = CAL_MTU_BUFF_SIZE H 23
      in case V of
        BLE_SINGLE \<Rightarrow> [Blc_gap_peripheral_init, Bls_att_setAttributeTable (gattTable H),
          Blc_l2cap_register_handler blc_l2cap_packet_receive, GpioSetDir LED_WHITE_HDF GPIO_DIR_OUT,
          Bls_app_registerEventCallback BLT_EV_FLAG_CONNECT connect_cb,
          Bls_app_registerEventCallback BLT_EV_FLAG_TERMINATE disconnect_cb,
          Blc_ll_initPowerManagement_module, Blc_pm_setSleepMask mask]
      | BLE_MULTI \<Rightarrow> [Blc_gap_init,
          Blc_l2cap_initAclConnSlaveMtuBuffer (SLAVE_MAX_NUM H * mtu) mtu (SLAVE_MAX_NUM H * mtu) mtu,
          Bls_att_setAttributeTable (gattTable H), Blc_hci_registerControllerDataHandler blc_l2cap_pktHandler,
          GpioSetDir LED_WHITE_HDF GPIO_DIR_OUT,
          Blc_hci_le_setEventMask_cmd (HCI_EVT_MASK_DISCONNECTION_COMPLETE H OR HCI_LE_EVT_MASK_CONNECTION_COMPLETE H),
          Blc_hci_registerControllerEventHandler AppControllerEventCallback,
          Blc_ll_initPowerManagement_module, Blc_pm_setSleepMask mask])"

definition conn_plan :: "variant \<Rightarrow> ble_h \<Rightarrow> (bool \<times> ble_call) list" where
  "conn_plan V H = (case V of
     BLE_SINGLE \<Rightarrow> map (Pair True) [Blc_ll_initAclConnTxFifo (48 * 17 * 1) 48 17,
       Blc_ll_initAclConnRxFifo (48 * 8) 48 8, Blc_controller_check_appBufferInitialization]
   | BLE_MULTI \<Rightarrow> map (Pair True) [Blc_ll_initAclConnSlaveTxFifo (48 * 17 * SLAVE_MAX_NUM H) 48 17 (SLAVE_MAX_NUM H),
       Blc_ll_initAclConnRxFifo (48 * 8) 48 8, Blc_controller_check_appBufferInitialization,
       Blc_ll_setMaxConnectionNumber (MASTER_MAX_NUM H) (SLAVE_MAX_NUM H)])
   @ map (Pair False) (modules_plan V H)"

definition sample_plan :: "variant \<Rightarrow> ble_h \<Rightarrow> (bool \<times> ble_call) list" where
  "sample_plan V H =
     map (Pair False) ([Rf_drv_ble_init, Blc_app_loadCustomizedParameters, Random_generator_init,
       Blc_initMacAddress (flash_sector_mac_address H), Rf_set_power_level, Blc_ll_initBasicMCU,
       Blc_ll_initStandby_module] @ (case V of
         BLE_SINGLE \<Rightarrow> [Blc_ll_initAdvertising_module, Blc_ll_initConnection_module, Blc_ll_initSlaveRole_module]
       | BLE_MULTI \<Rightarrow> [Blc_ll_initLegacyAdvertising_module, Blc_ll_initAclConnection_module,
           Blc_ll_initAclSlaveRole_module]))
     @ adv_plan V H @ conn_plan V H
     @ map (Pair False) [OsSemCreate 0 50, Blc_ll_registerGiveSemCb os_give_sem_cb, Ble_LOS_TaskCreate ''BleTask'',
         Ble_B91IrqRegister IRQ15_ZB_RT RfIrqHandler, Ble_B91IrqRegister IRQ1_SYSTIMER StimerIrqHandler]"

lemma run_plan_append:
  "run_plan H res (p @ q) h = (case run_plan H res p h of (ok, h') \<Rightarrow> if ok then run_plan H res q h' else (False, h'))"
  by (induction p arbitrary: h) (auto simp: case_prod_beta)

lemma run_plan_unchecked: "run_plan H res (map (Pair False) cs) h = (True, h @ cs)"
  by (induction cs arbitrary: h) simp_all

text \<open>The result and the calls of a computation.\<close>

definition obs_run :: "(('f, ble_call list) ble, 'a) state \<Rightarrow> ('f, ble_call list) ble \<Rightarrow> 'a \<times> ble_call list" where
  "obs_run m s = (fst (run_state m s), sdk (snd (run_state m s)))"

lemma AppBleAdvInit_plan:
  "(\<lambda>(r, h). (r = BLE_SUCCESS H, h)) (obs_run (AppBleAdvInit (uni_api V (scripted res) H) H) s)
    = run_plan H res (adv_plan V H) (sdk s)"
  by (cases V) (simp_all add: obs_run_def AppBleAdvInit_def uni_api_def single_api_def multi_api_def single_defs
      multi_defs on_success_def adv_plan_def)

lemma conn_modules_plan:
  "sdk (snd (run_state (conn_modules V (scripted res) H (uni_api V (scripted res) H)) s)) = sdk s @ modules_plan V H"
  by (cases V) (simp_all add: conn_modules_def uni_api_def single_api_def multi_api_def single_defs multi_defs
      when_multi_def modules_plan_def AppBleGattInit_def slave_max_num_def MTU_S_BUFF_SIZE_MAX_def Let_def)

lemma AppBleConnInit_plan:
  "(\<lambda>(r, h). (r = BLE_SUCCESS H, h)) (obs_run (AppBleConnInit V (scripted res) H (uni_api V (scripted res) H)) s)
    = run_plan H res (conn_plan V H) (sdk s)"
proof (cases V)
  case BLE_SINGLE
  then show ?thesis
    using conn_modules_plan [of BLE_SINGLE res H]
    by (simp add: obs_run_def AppBleConnInit_def uni_api_def single_api_def single_defs on_success_def conn_plan_def
        max_connections_def slave_max_num_def run_plan_unchecked case_prod_beta)
next
  case BLE_MULTI
  then show ?thesis
    using conn_modules_plan [of BLE_MULTI res H]
    by (simp add: obs_run_def AppBleConnInit_def uni_api_def multi_api_def multi_defs on_success_def conn_plan_def
        max_connections_def slave_max_num_def run_plan_unchecked case_prod_beta)
qed

text \<open>
  C13: The initialisation follows its plan. For every behaviour of the SDK (its results may depend on
  all the calls made before) and both variants, \<open>BleSampleInit\<close> makes the calls of \<open>sample_plan\<close> in
  this order and no others, and stops at the first configuration call that does not return
  \<open>BLE_SUCCESS\<close>: so advertising is enabled only with its parameters and data set, nothing of the
  connection is set up without advertising, and the task and the interrupt handlers exist only
  when everything succeeded.
\<close>

theorem BleSampleInit_plan:
  "obs_run (BleSampleInit V (scripted res) H (uni_api V (scripted res) H)) s = run_plan H res (sample_plan V H) (sdk s)"
proof -
  let ?K = "scripted res" and ?U = "uni_api V (scripted res) H"
  have adv: "run_plan H res (adv_plan V H) (sdk s) = (fst (run_state (AppBleAdvInit ?U H) s) = BLE_SUCCESS H,
      sdk (snd (run_state (AppBleAdvInit ?U H) s)))" for s :: "(app_cb, ble_call list) ble"
    using AppBleAdvInit_plan [of H V res s] by (simp add: obs_run_def)
  have conn: "run_plan H res (conn_plan V H) (sdk s) = (fst (run_state (AppBleConnInit V ?K H ?U) s) = BLE_SUCCESS H,
      sdk (snd (run_state (AppBleConnInit V ?K H ?U) s)))" for s :: "(app_cb, ble_call list) ble"
    using AppBleConnInit_plan [of H V res s] by (simp add: obs_run_def)
  have mods: "run_state (ll_initAdvertising_module (uni_api W ?K H)) s = ((), s\<lparr>sdk := sdk s @ [case W of
       BLE_SINGLE \<Rightarrow> Blc_ll_initAdvertising_module | BLE_MULTI \<Rightarrow> Blc_ll_initLegacyAdvertising_module]\<rparr>)"
    "run_state (ll_initConnection_module (uni_api W ?K H)) s = ((), s\<lparr>sdk := sdk s @ [case W of
       BLE_SINGLE \<Rightarrow> Blc_ll_initConnection_module | BLE_MULTI \<Rightarrow> Blc_ll_initAclConnection_module]\<rparr>)"
    "run_state (ll_initSlaveRole_module (uni_api W ?K H)) s = ((), s\<lparr>sdk := sdk s @ [case W of
       BLE_SINGLE \<Rightarrow> Blc_ll_initSlaveRole_module | BLE_MULTI \<Rightarrow> Blc_ll_initAclSlaveRole_module]\<rparr>)"
    for W and s :: "(app_cb, ble_call list) ble"
    by (cases W; simp add: uni_api_def single_api_def multi_api_def single_defs multi_defs)+
  define first where "first = [Rf_drv_ble_init, Blc_app_loadCustomizedParameters, Random_generator_init,
       Blc_initMacAddress (flash_sector_mac_address H), Rf_set_power_level, Blc_ll_initBasicMCU,
       Blc_ll_initStandby_module] @ (case V of
         BLE_SINGLE \<Rightarrow> [Blc_ll_initAdvertising_module, Blc_ll_initConnection_module, Blc_ll_initSlaveRole_module]
       | BLE_MULTI \<Rightarrow> [Blc_ll_initLegacyAdvertising_module, Blc_ll_initAclConnection_module,
           Blc_ll_initAclSlaveRole_module])"
  define s1 where "s1 = s\<lparr>sdk := sdk s @ first\<rparr>"
  obtain r1 x1 where a: "run_state (AppBleAdvInit ?U H) s1 = (r1, x1)" by force
  obtain r2 x2 where c: "run_state (AppBleConnInit V ?K H ?U) (x1\<lparr>hilog := hilog x1 @ status_msg ''AppBleAdvInit'' r1\<rparr>)
      = (r2, x2)" by force
  let ?last = "[OsSemCreate 0 50, Blc_ll_registerGiveSemCb os_give_sem_cb, Ble_LOS_TaskCreate ''BleTask'',
    Ble_B91IrqRegister IRQ15_ZB_RT RfIrqHandler, Ble_B91IrqRegister IRQ1_SYSTIMER StimerIrqHandler]"
  have "run_plan H res (adv_plan V H) (sdk s @ first) = (r1 = BLE_SUCCESS H, sdk x1)"
    "run_plan H res (conn_plan V H) (sdk x1) = (r2 = BLE_SUCCESS H, sdk x2)"
    using adv [of s1] a conn [of "x1\<lparr>hilog := hilog x1 @ status_msg ''AppBleAdvInit'' r1\<rparr>"] c
    by (simp_all add: s1_def)
  then have "run_plan H res (sample_plan V H) (sdk s) = (if r1 \<noteq> BLE_SUCCESS H then (False, sdk x1)
      else if r2 \<noteq> BLE_SUCCESS H then (False, sdk x2) else (True, sdk x2 @ ?last))"
    unfolding sample_plan_def run_plan_append run_plan_unchecked prod.case if_True first_def [symmetric] by simp
  moreover have "obs_run (BleSampleInit V ?K H ?U) s = (if r1 \<noteq> BLE_SUCCESS H then (False, sdk x1)
      else if r2 \<noteq> BLE_SUCCESS H then (False, sdk x2) else (True, sdk x2 @ ?last))"
    using a c by (cases "r1 = BLE_SUCCESS H"; cases "r2 = BLE_SUCCESS H"; cases V)
      (simp_all add: obs_run_def BleSampleInit_def UserInitNormal_def AppBleInit_def mods s1_def first_def)
  ultimately show ?thesis by simp
qed

section \<open>What is advertised\<close>

text \<open>The structures of advertising data: a length, a type, the rest; and the 16-bit UUIDs of a list.\<close>

fun ad_structures :: "u8 list \<Rightarrow> (u8 \<times> u8 list) list option" where
  "ad_structures [] = Some []"
| "ad_structures [n] = None"
| "ad_structures (n # ty # r) =
     (if 1 \<le> unat n \<and> unat n - 1 \<le> length r
      then map_option (Cons (ty, take (unat n - 1) r)) (ad_structures (drop (unat n - 1) r))
      else None)"

fun uuids16 :: "u8 list \<Rightarrow> u8 list list" where
  "uuids16 (lo # hi # r) = [lo, hi] # uuids16 r"
| "uuids16 _ = []"

definition advertised_services :: "u8 list \<Rightarrow> u8 list list" where
  "advertised_services d = (case ad_structures d of
     None \<Rightarrow> []
   | Some ads \<Rightarrow> concat (map (\<lambda>(ty, v). if ty = 0x02 \<or> ty = 0x03 then uuids16 v else []) ads))"

text \<open>
  C36: The advertising data is well formed and fits (at most 31 bytes each), and gives the names
  \<open>eHID\<close> and \<open>eSample\<close>. But the services that it announces, human interface device and battery, are
  none of those in the GATT table that the sample sets, and the complete name it announces is not
  the device name in the table.
\<close>

theorem advertised_services_missing:
  assumes "documented_uuids H"
  shows "length tbl_advData \<le> 31 \<and> length tbl_scanRsp \<le> 31
    \<and> ad_structures tbl_advData = Some [(0x09, map of_char ''eHID''), (0x01, [0x05]), (0x19, [0x80, 0x01]),
        (0x02, [0x12, 0x18, 0x0F, 0x18])]
    \<and> ad_structures tbl_scanRsp = Some [(0x09, my_devName)]
    \<and> advertised_services tbl_advData = [[0x12, 0x18], [0x0F, 0x18]]
    \<and> (\<forall>u \<in> set (advertised_services tbl_advData). \<forall>(a, b, v) \<in> set (services H (gattTable H)). v \<noteq> Some u)"
proof -
  have d: "length tbl_advData \<le> 31" "length tbl_scanRsp \<le> 31"
    "ad_structures tbl_advData = Some [(0x09, map of_char ''eHID''), (0x01, [0x05]), (0x19, [0x80, 0x01]),
        (0x02, [0x12, 0x18, 0x0F, 0x18])]"
    "ad_structures tbl_scanRsp = Some [(0x09, my_devName)]"
    "advertised_services tbl_advData = [[0x12, 0x18], [0x0F, 0x18]]"
    by code_simp+
  have "services H (plain_table R W app) = [(1, 7, Some [0x00, 0x18]), (8, 11, Some [0x01, 0x18]), (12, 14, Some [0x0A, 0x18])]"
    for R W app
    by (simp add: services_def documented_values [OF assms] has_uuid_bytes plain_table_def)
  then show ?thesis by (simp add: d gattTable_plain [OF assms])
qed

lemma advertised_services_missing_witness:
  "[0x12, 0x18] \<in> set (advertised_services tbl_advData)
   \<and> Some [0x12, 0x18] \<notin> set (map (snd \<circ> snd) (services sim_ble_h (gattTable sim_ble_h)))"
  using advertised_services_missing [OF sim_ble_h_documented] by auto

section \<open>The LED\<close>

fun event_of :: "variant \<Rightarrow> ble_h \<Rightarrow> (app_cb \<Rightarrow> ((app_cb, 'w) ble, unit) state) \<Rightarrow> link_event \<Rightarrow> ((app_cb, 'w) ble, unit) state" where
  "event_of BLE_SINGLE H = single_event"
| "event_of BLE_MULTI H = multi_event H"

definition link_events :: "variant \<Rightarrow> 'w sdk_ops \<Rightarrow> ble_h \<Rightarrow> link_event list \<Rightarrow> (app_cb, 'w) ble \<Rightarrow> (app_cb, 'w) ble" where
  "link_events V K H = fold (\<lambda>e s. snd (run_state (event_of V H (app_invoke K) e) s))"

fun led_calls :: "link_event \<Rightarrow> ble_call list" where
  "led_calls (Connected ps) = [GpioWrite LED_WHITE_HDF GPIO_VAL_HIGH]"
| "led_calls (Disconnected ps) = [GpioWrite LED_WHITE_HDF GPIO_VAL_LOW]"
| "led_calls (Other_meta sub ps) = []"

lemma app_invoke_keeps:
  "connect (snd (run_state (app_invoke K f) s)) = connect s \<and> disconnect (snd (run_state (app_invoke K f) s)) = disconnect s"
  by (cases f) simp_all

lemma led_fold:
  "sdk (fold (\<lambda>e s. case e of Connected ps \<Rightarrow> snd (run_state (app_invoke (scripted res) App_connect) s)
      | Disconnected ps \<Rightarrow> snd (run_state (app_invoke (scripted res) App_disconnect) s) | Other_meta sub ps \<Rightarrow> s) es s)
    = sdk s @ concat (map led_calls es)"
proof (induction es arbitrary: s)
  case (Cons e es)
  then show ?case by (cases e) simp_all
qed simp

lemma uni_link: "hci_codes H \<Longrightarrow> ble_link (uni_api V K H) (event_of V H) (proper H)"
  using multi_link [of H K] single.ble_link_axioms [of K H]
  by (cases V) (simp_all add: uni_api_def)

text \<open>
  C30: The LED follows the link. In both variants, after the callbacks were registered, any sequence
  of link events makes exactly one write per connection (on) and per end of a connection (off), in
  order, and none for other events. So the LED shows the last event: with several connections it
  is off as soon as one of them ended, and a connection event turns it on whatever status its
  parameters carry.
\<close>

theorem led_follows_link:
  assumes "hci_codes H" "\<forall>e \<in> set es. proper H e"
  shows "\<exists>h. sdk (link_events V (scripted res) H es (snd (run_state
      (register_connect_disconnect_cb (uni_api V (scripted res) H) (Some App_connect) (Some App_disconnect)) s)))
    = h @ concat (map led_calls es)"
proof -
  note L = uni_link [OF assms(1), of V "scripted res"]
  from ble_link.registered [OF L] obtain w where
    reg: "run_state (register_connect_disconnect_cb (uni_api V (scripted res) H) (Some App_connect) (Some App_disconnect)) s
      = ((), s\<lparr>connect := Some App_connect, disconnect := Some App_disconnect, sdk := w\<rparr>)" by blast
  let ?s = "s\<lparr>connect := Some App_connect, disconnect := Some App_disconnect, sdk := w\<rparr>"
  have "link_events V (scripted res) H es ?s
      = fold (\<lambda>e s. case e of Connected ps \<Rightarrow> snd (run_state (app_invoke (scripted res) App_connect) s)
      | Disconnected ps \<Rightarrow> snd (run_state (app_invoke (scripted res) App_disconnect) s) | Other_meta sub ps \<Rightarrow> s) es ?s"
    unfolding link_events_def
    by (rule ble_link.events_rule [OF L app_invoke_keeps _ _ assms(2)]) simp_all
  then show ?thesis by (simp add: reg led_fold)
qed

lemma sim_hci_codes: "hci_codes sim_ble_h"
  by (simp add: hci_codes_def sim_ble_h_def)

lemma led_follows_link_witness:
  "\<exists>h. sdk (link_events BLE_MULTI (scripted (\<lambda>h c. 0)) sim_ble_h [Connected [0], Connected [0], Disconnected [0]]
      (snd (run_state (register_connect_disconnect_cb (uni_api BLE_MULTI (scripted (\<lambda>h c. 0)) sim_ble_h)
        (Some App_connect) (Some App_disconnect)) \<lparr>connect = None, disconnect = None, hilog = [], sdk = []\<rparr>)))
    = h @ [GpioWrite LED_WHITE_HDF GPIO_VAL_HIGH, GpioWrite LED_WHITE_HDF GPIO_VAL_HIGH,
        GpioWrite LED_WHITE_HDF GPIO_VAL_LOW]"
  using led_follows_link [OF sim_hci_codes, of "[Connected [0], Connected [0], Disconnected [0]]" BLE_MULTI] by simp

section \<open>The task\<close>



end
