(* ===== verification/Ble_Trace.thy ===== *)
theory Ble_Trace
  imports Ble_Props "HOL-Library.Sublist"
begin

text \<open>
  The step relation of the BLE task and its semaphore against the program: the calls that the
  steps make, in any interleaving with gives, are those of the task's endless loop.
\<close>

text \<open>
  The calls of the task's own steps: it enters the main loop (\<open>m\<close>), and pends when that returns. A
  give is a step of the interrupt side.
\<close>

fun step_calls :: "ble_call \<Rightarrow> place \<Rightarrow> ble_call list" where
  "step_calls m At_loop = [m]"
| "step_calls m In_loop = [LOS_SemPend]"
| "step_calls m At_pend = []"

inductive task_run :: "ble_call \<Rightarrow> ble_call list \<Rightarrow> task_state \<Rightarrow> bool" for m where
  Start: "task_run m [] task_init"
| Post: "task_run m cs s \<Longrightarrow> task_run m cs (s\<lparr>sem := sem_post (sem s), work := True\<rparr>)"
| Move: "task_run m cs s \<Longrightarrow> task_step s s' \<Longrightarrow> task_run m (cs @ step_calls m (place s)) s'"

text \<open>The runs reach the reachable states.\<close>

lemma run_reachable: "task_run m cs s \<Longrightarrow> reachable s"
  by (induction rule: task_run.induct) (auto intro: reachable.intros ble_step.intros)

lemma reachable_run: "reachable s \<Longrightarrow> \<exists>cs. task_run m cs s"
proof (induction rule: reachable.induct)
  case (Step s s')
  then show ?case by (auto elim!: ble_stepE intro: task_run.intros)
qed (auto intro: task_run.intros)

text \<open>Whole rounds of the loop.\<close>

definition round_calls :: "ble_call \<Rightarrow> nat \<Rightarrow> ble_call list" where
  "round_calls m n = concat (replicate n [m, LOS_SemPend])"

lemma round_calls_simps [simp]:
  "round_calls m 0 = []" "round_calls m (Suc n) = m # LOS_SemPend # round_calls m n"
  by (simp_all add: round_calls_def)

lemma round_calls_snoc: "round_calls m n @ [m, LOS_SemPend] = round_calls m (Suc n)"
  by (induction n) simp_all

lemma run_rounds:
  "task_run m cs s \<Longrightarrow> \<exists>n. cs = (case place s of
      At_loop \<Rightarrow> round_calls m n | In_loop \<Rightarrow> round_calls m n @ [m] | At_pend \<Rightarrow> round_calls m n)"
proof (induction rule: task_run.induct)
  case (Move cs s s')
  from Move.hyps(2) Move.IH show ?case
    by (auto elim!: task_stepE simp: round_calls_snoc simp del: round_calls_simps(2) split: place.splits)
qed (auto simp: task_init_def intro: exI [of _ 0])

text \<open>With a give before each pend the task runs on.\<close>

lemma run_on: "\<exists>s. task_run m (round_calls m n) s \<and> place s = At_loop"
proof (induction n)
  case 0
  have "place task_init = At_loop" by (simp add: task_init_def)
  with task_run.Start [of m] show ?case by auto
next
  case (Suc n)
  then obtain s where s: "task_run m (round_calls m n) s" "place s = At_loop" by blast
  let ?s1 = "s\<lparr>place := In_loop, work := False\<rparr>"
  let ?s2 = "?s1\<lparr>place := At_pend\<rparr>"
  let ?s3 = "?s2\<lparr>sem := sem_post (sem ?s2), work := True\<rparr>"
  have "task_run m (round_calls m n @ [m]) ?s1"
    using task_run.Move [OF s(1) task_step.Begin [OF s(2)]] s(2) by simp
  from task_run.Move [OF this task_step.End] have "task_run m (round_calls m (Suc n)) ?s2"
    by (simp del: round_calls_simps(2) flip: round_calls_snoc)
  from task_run.Move [OF task_run.Post [OF this] task_step.Take]
  have "task_run m (round_calls m (Suc n)) (?s3\<lparr>place := At_loop, sem := sem ?s3 - 1\<rparr>)"
    by (simp add: sem_post_def del: round_calls_simps(2))
  moreover have "place (?s3\<lparr>place := At_loop, sem := sem ?s3 - 1\<rparr>) = At_loop" by simp
  ultimately show ?case by blast
qed

lemma run_prefix:
  assumes "prefix cs (round_calls m n)"
  shows "\<exists>s. task_run m cs s"
  using assms
proof (induction n arbitrary: cs)
  case (Suc n)
  obtain s where s: "task_run m (round_calls m n) s" "place s = At_loop" using run_on by blast
  let ?s1 = "s\<lparr>place := In_loop, work := False\<rparr>"
  have s1: "task_run m (round_calls m n @ [m]) ?s1"
    using task_run.Move [OF s(1) task_step.Begin [OF s(2)]] s(2) by simp
  from Suc.prems have "prefix cs ((round_calls m n @ [m]) @ [LOS_SemPend])"
    by (simp del: round_calls_simps(2) flip: round_calls_snoc)
  then consider "cs = round_calls m (Suc n)" | "cs = round_calls m n @ [m]" | "prefix cs (round_calls m n)"
    unfolding prefix_snoc round_calls_snoc [symmetric] by auto
  then show ?case using run_on [of m "Suc n"] s1 Suc.IH by cases blast+
qed (use task_run.Start in auto)

text \<open>The program's loop, in either variant.\<close>

definition main_loop_call :: "variant \<Rightarrow> ble_call" where
  "main_loop_call V = (case V of BLE_SINGLE \<Rightarrow> Blt_sdk_main_loop | BLE_MULTI \<Rightarrow> Blc_sdk_main_loop)"

lemma BleTask_rounds_calls:
  "sdk (snd (run_state (BleTask_rounds (scripted res) (uni_api V (scripted res) H) n) s))
    = sdk s @ round_calls (main_loop_call V) n"
  by (induction n arbitrary: s) (cases V; simp add: MainLoop_def uni_api_def single_api_def multi_api_def
      single_main_loop_def multi_main_loop_def main_loop_call_def)+


end
