(* ===== verification/Demo_Os.thy ===== *)
theory Demo_Os
  imports Ble_Sdk Machine
begin

text \<open>
  What the small demos (LED, UART, mbedTLS) use of code that is not in this repository: the LiteOS-M
  kernel, the HDF GPIO and UART drivers and mbedTLS. A call returns a status and what it stored
  through its pointer arguments, a number or bytes, if it did. The state is the text printed, the
  text logged, and the world.
\<close>

datatype demo_task = HelloWorldTask | LedTask | Uart_test_task | MbedTLS_TestThread

text \<open>
  A handle is an address, 0 is \<open>NULL\<close>. mbedTLS contexts are named by their kind: there is one of
  each.
\<close>

datatype demo_call =
    Task_create demo_task string nat nat
  | Task_delay nat
  | LOS_Msleep nat
  | Time
  | Gpio_set_dir gpio gpio_dir
  | Gpio_write gpio gpio_val
  | Gpio_set_up_down_res gpio
  | Gpio_set_irq gpio
  | Gpio_enable_irq gpio
  | UartOpen nat
  | UartGetBaud nat
  | UartSetBaud nat int
  | UartWrite nat "u8 list" nat
  | Entropy_init | Entropy_free
  | Drbg_init | Drbg_free
  | Drbg_seed "u8 list"
  | Drbg_random nat
  | Ecp_self_test int

record reply =
  status :: int
  stored_int :: "int option"
  stored :: "u8 list option"

record 'w demo =
  printed :: string
  logged_text :: string
  demo_world :: 'w

type_synonym 'w demo_ops = "demo_call \<Rightarrow> 'w \<Rightarrow> reply \<times> 'w"

definition ask :: "'w demo_ops \<Rightarrow> demo_call \<Rightarrow> ('w demo, reply) state" where
  "ask K c = State (\<lambda>s. let (r, w) = K c (demo_world s) in (r, s\<lparr>demo_world := w\<rparr>))"

definition act :: "'w demo_ops \<Rightarrow> demo_call \<Rightarrow> ('w demo, unit) state" where
  "act K c = ask K c \<bind> (\<lambda>_. State_Monad.return ())"

definition printf :: "string \<Rightarrow> ('w demo, unit) state" where
  "printf t = State (\<lambda>s. ((), s\<lparr>printed := printed s @ t\<rparr>))"

definition log_error :: "string \<Rightarrow> ('w demo, unit) state" where
  "log_error t = State (\<lambda>s. ((), s\<lparr>logged_text := logged_text s @ t\<rparr>))"

definition when_do :: "bool \<Rightarrow> ('s, unit) state \<Rightarrow> ('s, unit) state" where
  "when_do b m = (if b then m else State_Monad.return ())"

lemma run_ask [simp]:
  "run_state (ask K c) s = (fst (K c (demo_world s)), s\<lparr>demo_world := snd (K c (demo_world s))\<rparr>)"
  by (simp add: ask_def split: prod.split)

lemma run_act [simp]: "run_state (act K c) s = ((), s\<lparr>demo_world := snd (K c (demo_world s))\<rparr>)"
  by (simp add: act_def)

lemma run_printf [simp]: "run_state (printf t) s = ((), s\<lparr>printed := printed s @ t\<rparr>)"
  by (simp add: printf_def)

lemma run_log_error [simp]: "run_state (log_error t) s = ((), s\<lparr>logged_text := logged_text s @ t\<rparr>)"
  by (simp add: log_error_def)

lemma run_when_do [simp]: "run_state (when_do b m) s = (if b then run_state m s else ((), s))"
  by (simp add: when_do_def)

lemma run_when_printf [simp]:
  "run_state (when_do b (printf t)) s = ((), s\<lparr>printed := printed s @ (if b then t else [])\<rparr>)"
  by simp

declare run_when_do [simp del]

text \<open>A world that keeps the history of calls; every deterministic world is one of these.\<close>

definition answering :: "(demo_call list \<Rightarrow> demo_call \<Rightarrow> reply) \<Rightarrow> demo_call list demo_ops" where
  "answering res c h = (res h c, h @ [c])"

lemma answering_simps [simp]: "answering res c h = (res h c, h @ [c])"
  by (simp add: answering_def)

end
