(* ===== verification/Demos.thy ===== *)
theory Demos
  imports Demo_Os
begin

text \<open>
  The LED demo (\<open>led_demo/led_demo/app.c\<close>), the UART demo (\<open>uart_demo/uart_demo/app.c\<close>) and the
  mbedTLS demo (\<open>mbedtls_demo/mbedtls_demo/app.c\<close>). The endless loops of the LED demo's tasks are
  modelled as a number of their rounds. \<open>prio\<close> and \<open>stack\<close> are constants of the kernel's headers.
\<close>

section \<open>LED demo\<close>

abbreviation (input) LED_DELAY :: nat where "LED_DELAY \<equiv> 1000"

text \<open>\<open>%lld\<close> of the value that \<open>time(NULL)\<close> returned.\<close>

fun HelloWorld_rounds :: "'w demo_ops \<Rightarrow> nat \<Rightarrow> ('w demo, unit) state" where
  "HelloWorld_rounds K 0 = State_Monad.return ()"
| "HelloWorld_rounds K (Suc n) = do {
     t \<leftarrow> ask K Time;
     printf (''Hello World, time: '' @ show_int (status t) @ CRLF);
     act K (Task_delay LED_DELAY);
     HelloWorld_rounds K n }"

fun LedTask_rounds :: "'w demo_ops \<Rightarrow> nat \<Rightarrow> ('w demo, unit) state" where
  "LedTask_rounds K 0 = State_Monad.return ()"
| "LedTask_rounds K (Suc n) = do {
     act K (Gpio_write LED_BLUE_HDF GPIO_VAL_HIGH);
     act K (LOS_Msleep LED_DELAY);
     act K (Gpio_write LED_BLUE_HDF GPIO_VAL_LOW);
     act K (LOS_Msleep LED_DELAY);
     LedTask_rounds K n }"

definition Led_task :: "'w demo_ops \<Rightarrow> nat \<Rightarrow> ('w demo, unit) state" where
  "Led_task K n = do {
     act K (Gpio_set_dir LED_BLUE_HDF GPIO_DIR_OUT);
     LedTask_rounds K n }"

definition gpio_handler :: "('w demo, int) state" where
  "gpio_handler = do {
     printf (''=== gpio_handler:67'' @ CRLF);
     State_Monad.return 0 }"

definition create_failed :: "string \<Rightarrow> int \<Rightarrow> ('w demo, unit) state" where
  "create_failed name ret = when_do (ret \<noteq> 0)
     (log_error (''ret of LOS_TaskCreate('' @ name @ '') = 0x'' @ show_hex (u32_of_int ret)))"

text \<open>\<open>irq_sample\<close> is the preprocessor's \<open>TELINK_GPIO_IRQ_SAMPLE_ENABLE\<close>.\<close>

definition led_AppMain :: "'w demo_ops \<Rightarrow> bool \<Rightarrow> nat \<Rightarrow> nat \<Rightarrow> ('w demo, unit) state" where
  "led_AppMain K irq_sample prio stack = do {
     ret \<leftarrow> ask K (Task_create HelloWorldTask ''HelloWorldTask'' stack prio);
     create_failed ''HelloWorldTask'' (status ret);
     ret \<leftarrow> ask K (Task_create LedTask ''LedTask'' stack prio);
     create_failed ''LedTask'' (status ret);
     when_do irq_sample (do {
       act K (Gpio_set_dir SW1_2_GPIO_HDF GPIO_DIR_OUT);
       act K (Gpio_write SW1_2_GPIO_HDF GPIO_VAL_HIGH);
       act K (Gpio_set_dir SW1_3_GPIO_HDF GPIO_DIR_IN);
       act K (Gpio_set_up_down_res SW1_3_GPIO_HDF);
       act K (Gpio_set_irq SW1_3_GPIO_HDF);
       act K (Gpio_enable_irq SW1_3_GPIO_HDF) }) }"

section \<open>UART demo\<close>

abbreviation (input) UART_DELAY :: nat where "UART_DELAY \<equiv> 2000"
abbreviation (input) BAUD_115200 :: int where "BAUD_115200 \<equiv> 115200"
abbreviation (input) BAUD_921600 :: int where "BAUD_921600 \<equiv> 921600"

definition uart_text :: "u8 list" where
  "uart_text = map of_char (CHR 10 # ''HDF uart test string 1'' @ [CHR 10])"

definition txbuf :: "u8 list" where
  "txbuf = uart_text @ replicate (80 - length uart_text) 0"

definition baud_msg :: "string \<Rightarrow> int \<Rightarrow> string" where
  "baud_msg what baud = ''uart_test_task: '' @ what @ '' baudrate '' @ show_int baud @ CRLF"

text \<open>\<open>baud\<close> keeps its value when \<open>UartGetBaud\<close> stores none; first it is uninitialised (\<open>junk\<close>).\<close>

definition read_baud :: "'w demo_ops \<Rightarrow> nat \<Rightarrow> int \<Rightarrow> ('w demo, int) state" where
  "read_baud K h baud = do {
     r \<leftarrow> ask K (UartGetBaud h);
     State_Monad.return (case stored_int r of None \<Rightarrow> baud | Some b \<Rightarrow> b) }"

definition uart_test_task :: "'w demo_ops \<Rightarrow> int \<Rightarrow> ('w demo, unit) state" where
  "uart_test_task K junk = do {
     act K (Task_delay UART_DELAY);
     r \<leftarrow> ask K (UartOpen 1);
     let uart1 = nat (status r);
     when_do (uart1 = 0) (printf (''UartOpen 1: failed!'' @ [CHR 10]));
     baud \<leftarrow> read_baud K uart1 junk;
     printf (CHR 10 # baud_msg ''Get'' baud);
     act K (UartSetBaud uart1 BAUD_115200);
     baud \<leftarrow> read_baud K uart1 BAUD_115200;
     printf (baud_msg ''Set'' baud);
     act K (UartSetBaud uart1 BAUD_921600);
     baud \<leftarrow> read_baud K uart1 BAUD_921600;
     printf (baud_msg ''Set'' baud);
     let n = length (takeWhile (\<lambda>c. c \<noteq> 0) txbuf);
     r \<leftarrow> ask K (UartWrite uart1 (take n txbuf) n);
     when_do (status r \<noteq> 0) (printf (''UartWrite 1: failed!'' @ [CHR 10])) }"

definition uart_AppMain :: "'w demo_ops \<Rightarrow> nat \<Rightarrow> nat \<Rightarrow> ('w demo, unit) state" where
  "uart_AppMain K prio stack = do {
     ret \<leftarrow> ask K (Task_create Uart_test_task ''uart_task'' stack prio);
     create_failed ''uart_task'' (status ret) }"

section \<open>mbedTLS demo\<close>

abbreviation (input) MBEDTLS_DEMO_TASK_PRIORITY :: nat where "MBEDTLS_DEMO_TASK_PRIORITY \<equiv> 7"
abbreviation (input) MBEDTLS_DEMO_TASK_STACK_SIZE :: nat where "MBEDTLS_DEMO_TASK_STACK_SIZE \<equiv> 16 * 1024"
abbreviation (input) DEMO_START_DELAY_MS :: nat where "DEMO_START_DELAY_MS \<equiv> 5000"
abbreviation (input) DEMO_DELAY_MS :: nat where "DEMO_DELAY_MS \<equiv> 1000"
abbreviation (input) KEY_LEN :: nat where "KEY_LEN \<equiv> 32"

definition rule_line :: string where
  "rule_line = replicate 20 (CHR ''='') @ CRLF"

text \<open>\<open>%04x\<close>.\<close>

definition show_hex4 :: "u32 \<Rightarrow> string" where
  "show_hex4 x = (let h = show_hex x in replicate (4 - length h) (CHR ''0'') @ h)"

definition tls_failed :: "string \<Rightarrow> int \<Rightarrow> string" where
  "tls_failed f ret = '' failed'' @ [CHR 10] @ '' ! '' @ f @ '' returned -0x'' @ show_hex4 (u32_of_int (- ret)) @ [CHR 10]"

definition random_key :: "'w demo_ops \<Rightarrow> ('w demo, unit) state" where
  "random_key K = do {
     act K (LOS_Msleep DEMO_START_DELAY_MS);
     printf rule_line;
     act K Entropy_init;
     act K Drbg_init;
     r \<leftarrow> ask K (Drbg_seed (map of_char ''my_app_specific_string''));
     when_do (status r \<noteq> 0) (printf (tls_failed ''mbedtls_ctr_drbg_init'' (status r)));
     let key = replicate KEY_LEN 0;
     r \<leftarrow> ask K (Drbg_random KEY_LEN);
     let key = (case stored r of None \<Rightarrow> key | Some b \<Rightarrow> take KEY_LEN (b @ key));
     (if status r \<noteq> 0 then printf (tls_failed ''mbedtls_ctr_drbg_random'' (status r))
      else printf (''key: '' @ hex_dump key @ CRLF));
     act K Drbg_free;
     act K Entropy_free;
     printf rule_line }"

definition ecp_test :: "'w demo_ops \<Rightarrow> ('w demo, unit) state" where
  "ecp_test K = do {
     act K (LOS_Msleep DEMO_DELAY_MS);
     printf rule_line;
     r \<leftarrow> ask K (Ecp_self_test 1);
     printf ([CHR 9] @ (if status r = 0 then ''ECP test ok'' else ''ECP test failed'') @ [CHR 10]);
     printf rule_line }"

definition Mbedtls_thread :: "'w demo_ops \<Rightarrow> ('w demo, unit) state" where
  "Mbedtls_thread K = do { random_key K; ecp_test K }"

definition mbedtls_AppMain :: "'w demo_ops \<Rightarrow> string \<Rightarrow> ('w demo, unit) state" where
  "mbedtls_AppMain K date_time = do {
     printf (date_time @ CRLF);
     ret \<leftarrow> ask K (Task_create MbedTLS_TestThread ''MbedTLS_TestThread''
       MBEDTLS_DEMO_TASK_STACK_SIZE MBEDTLS_DEMO_TASK_PRIORITY);
     when_do (status ret \<noteq> 0) (printf (''Create Task(MbedTLS_TestThread) failed! ERROR: 0x''
       @ show_hex (u32_of_int (status ret)) @ CRLF)) }"

section \<open>Properties\<close>

text \<open>What a history of calls does to the blue LED: its level, and the milliseconds on and off.\<close>

fun led_time :: "demo_call list \<Rightarrow> gpio_val \<times> nat \<times> nat \<Rightarrow> gpio_val \<times> nat \<times> nat" where
  "led_time [] x = x"
| "led_time (c # cs) (v, on, off) = led_time cs (case c of
     Gpio_write g w \<Rightarrow> if g = LED_BLUE_HDF then (w, on, off) else (v, on, off)
   | LOS_Msleep ms \<Rightarrow> if v = GPIO_VAL_HIGH then (v, on + ms, off) else (v, on, off + ms)
   | _ \<Rightarrow> (v, on, off))"

lemma led_time_append: "led_time (a @ b) x = led_time b (led_time a x)"
  by (induction a x rule: led_time.induct) simp_all

lemma LedTask_calls:
  "demo_world (snd (run_state (LedTask_rounds (answering res) n) s)) = demo_world s @ concat (replicate n
     [Gpio_write LED_BLUE_HDF GPIO_VAL_HIGH, LOS_Msleep 1000, Gpio_write LED_BLUE_HDF GPIO_VAL_LOW, LOS_Msleep 1000])"
  by (induction n arbitrary: s) simp_all

lemma led_time_rounds:
  "led_time (concat (replicate n [Gpio_write LED_BLUE_HDF GPIO_VAL_HIGH, LOS_Msleep 1000,
      Gpio_write LED_BLUE_HDF GPIO_VAL_LOW, LOS_Msleep 1000])) (GPIO_VAL_LOW, on, off)
    = (GPIO_VAL_LOW, on + 1000 * n, off + 1000 * n)"
  by (induction n arbitrary: on off) simp_all

text \<open>
  C40: The LED blinks. Whatever the drivers return, \<open>n\<close> rounds of the LED task, started with the LED
  off, set the pin to output first, keep the LED on for \<open>n\<close> seconds and off for \<open>n\<close> seconds in total,
  and leave it off.
\<close>

theorem led_blinks:
  "\<exists>cs. demo_world (snd (run_state (Led_task (answering res) n) s))
      = demo_world s @ Gpio_set_dir LED_BLUE_HDF GPIO_DIR_OUT # cs
    \<and> led_time cs (GPIO_VAL_LOW, 0, 0) = (GPIO_VAL_LOW, 1000 * n, 1000 * n)"
  using led_time_rounds [of n 0 0] LedTask_calls [of res n] by (simp add: Led_task_def)

text \<open>
  C39: The UART demo does not react to errors: for every behaviour of the driver the task makes the
  same calls, with the handle that \<open>UartOpen\<close> returned, even when it is \<open>NULL\<close>; it writes exactly
  the 24 characters of its string.
\<close>

theorem uart_demo_calls:
  "\<exists>h. demo_world (snd (run_state (uart_test_task (answering res) junk) s)) = demo_world s @
      [Task_delay 2000, UartOpen 1, UartGetBaud h, UartSetBaud h 115200, UartGetBaud h, UartSetBaud h 921600,
       UartGetBaud h, UartWrite h uart_text 24]
    \<and> h = nat (status (res (demo_world s @ [Task_delay 2000]) (UartOpen 1)))"
proof -
  have t: "0 \<notin> set uart_text" "length uart_text = 24" by code_simp+
  have "takeWhile (\<lambda>c. c \<noteq> 0) txbuf = uart_text"
    using t(1) unfolding txbuf_def by (subst takeWhile_append2) auto
  moreover have "take 24 txbuf = uart_text" using t(2) by (simp add: txbuf_def)
  ultimately show ?thesis
    by (simp add: uart_test_task_def read_baud_def Let_def t split del: if_split)
qed


end
