(* ===== verification/Hal.thy ===== *)
theory Hal
  imports Prelude
begin

text \<open>
  The vendor's part of the OpenHarmony HAL: \<open>hals/utils/token/hal_token.c\<close> and
  \<open>hals/utils/sys_param/hal_sys_param.c\<close>. Each demo has a copy; the functions are the same in all. A
  buffer argument is \<open>None\<close> for \<open>NULL\<close>; the result is the return value and the buffer afterwards.
\<close>

abbreviation (input) EC_SUCCESS :: int where "EC_SUCCESS \<equiv> 0"
abbreviation (input) EC_FAILURE :: int where "EC_FAILURE \<equiv> -1"

type_synonym buffer = "u8 list"

definition OEMReadToken :: "buffer \<Rightarrow> u32 \<Rightarrow> int \<times> buffer" where
  "OEMReadToken token len = (EC_SUCCESS, token)"

definition OEMWriteToken :: "buffer \<Rightarrow> u32 \<Rightarrow> int" where
  "OEMWriteToken token len = EC_SUCCESS"

definition OEMGetAcKey :: "buffer \<Rightarrow> u32 \<Rightarrow> int \<times> buffer" where
  "OEMGetAcKey acKey len = (EC_SUCCESS, acKey)"

definition OEMGetProdId :: "buffer \<Rightarrow> u32 \<Rightarrow> int \<times> buffer" where
  "OEMGetProdId productId len = (EC_SUCCESS, productId)"

definition OEMGetProdKey :: "buffer \<Rightarrow> u32 \<Rightarrow> int \<times> buffer" where
  "OEMGetProdKey productKey len = (EC_SUCCESS, productKey)"

definition unless_null :: "('b \<Rightarrow> int \<times> 'b) \<Rightarrow> 'b option \<Rightarrow> int \<times> 'b option" where
  "unless_null f p = (case p of None \<Rightarrow> (EC_FAILURE, None) | Some b \<Rightarrow> map_prod id Some (f b))"

definition HalReadToken :: "buffer option \<Rightarrow> u32 \<Rightarrow> int \<times> buffer option" where
  "HalReadToken token len = unless_null (\<lambda>b. OEMReadToken b len) token"

definition HalWriteToken :: "buffer option \<Rightarrow> u32 \<Rightarrow> int" where
  "HalWriteToken token len = (case token of None \<Rightarrow> EC_FAILURE | Some b \<Rightarrow> OEMWriteToken b len)"

definition HalGetAcKey :: "buffer option \<Rightarrow> u32 \<Rightarrow> int \<times> buffer option" where
  "HalGetAcKey acKey len = unless_null (\<lambda>b. OEMGetAcKey b len) acKey"

definition HalGetProdId :: "buffer option \<Rightarrow> u32 \<Rightarrow> int \<times> buffer option" where
  "HalGetProdId productId len = unless_null (\<lambda>b. OEMGetProdId b len) productId"

definition HalGetProdKey :: "buffer option \<Rightarrow> u32 \<Rightarrow> int \<times> buffer option" where
  "HalGetProdKey productKey len = unless_null (\<lambda>b. OEMGetProdKey b len) productKey"

definition OHOS_SERIAL :: string where
  "OHOS_SERIAL = ''1234567890''"

definition HalGetSerial :: string where
  "HalGetSerial = OHOS_SERIAL"

text \<open>
  The readers refuse a null pointer and report success for any other buffer, which they leave as it
  is: no token, key or identifier is ever stored.
\<close>

lemma hal_readers_store_nothing:
  "snd (HalReadToken p len) = p" "snd (HalGetAcKey p len) = p"
  "snd (HalGetProdId p len) = p" "snd (HalGetProdKey p len) = p"
  by (simp_all add: HalReadToken_def HalGetAcKey_def HalGetProdId_def HalGetProdKey_def unless_null_def
      OEMReadToken_def OEMGetAcKey_def OEMGetProdId_def OEMGetProdKey_def split: option.split)

lemma hal_failure_iff_null:
  "fst (HalReadToken p len) = (if p = None then EC_FAILURE else EC_SUCCESS)"
  "HalWriteToken p len = (if p = None then EC_FAILURE else EC_SUCCESS)"
  "fst (HalGetAcKey p len) = (if p = None then EC_FAILURE else EC_SUCCESS)"
  "fst (HalGetProdId p len) = (if p = None then EC_FAILURE else EC_SUCCESS)"
  "fst (HalGetProdKey p len) = (if p = None then EC_FAILURE else EC_SUCCESS)"
  by (auto simp: HalReadToken_def HalWriteToken_def HalGetAcKey_def HalGetProdId_def HalGetProdKey_def
      unless_null_def OEMReadToken_def OEMWriteToken_def OEMGetAcKey_def OEMGetProdId_def OEMGetProdKey_def)

end
