(* ===== verification/Hal_Copies.thy ===== *)
theory Hal_Copies
  imports Hal
begin

text \<open>
  The HAL of the other demos. Every demo of this repository is an image of its own, which links its
  own copy of \<open>hals/utils/token/hal_token.c\<close> and \<open>hals/utils/sys_param/hal_sys_param.c\<close>; nothing keeps
  the copies the same. Each is translated here from its own file, as the record of the functions it
  provides, and all are shown to be one implementation, the one of \<open>Hal\<close>.
\<close>

record hal_token =
  ReadToken :: "buffer option \<Rightarrow> u32 \<Rightarrow> int \<times> buffer option"
  WriteToken :: "buffer option \<Rightarrow> u32 \<Rightarrow> int"
  GetAcKey :: "buffer option \<Rightarrow> u32 \<Rightarrow> int \<times> buffer option"
  GetProdId :: "buffer option \<Rightarrow> u32 \<Rightarrow> int \<times> buffer option"
  GetProdKey :: "buffer option \<Rightarrow> u32 \<Rightarrow> int \<times> buffer option"

section \<open>The copies\<close>

definition ota_hal_token :: hal_token where
  "ota_hal_token = \<lparr>ReadToken = HalReadToken, WriteToken = HalWriteToken, GetAcKey = HalGetAcKey,
     GetProdId = HalGetProdId, GetProdKey = HalGetProdKey\<rparr>"

definition ble_hal_token :: hal_token where
  "ble_hal_token =
     (let oem_read_token = (\<lambda>(token :: buffer) (len :: u32). (EC_SUCCESS, token));
          oem_write_token = (\<lambda>(token :: buffer) (len :: u32). EC_SUCCESS);
          oem_get_ac_key = (\<lambda>(acKey :: buffer) (len :: u32). (EC_SUCCESS, acKey));
          oem_get_prod_id = (\<lambda>(productId :: buffer) (len :: u32). (EC_SUCCESS, productId));
          oem_get_prod_key = (\<lambda>(productKey :: buffer) (len :: u32). (EC_SUCCESS, productKey))
      in \<lparr>ReadToken = (\<lambda>token len. case token of None \<Rightarrow> (EC_FAILURE, None)
            | Some b \<Rightarrow> map_prod id Some (oem_read_token b len)),
          WriteToken = (\<lambda>token len. case token of None \<Rightarrow> EC_FAILURE
            | Some b \<Rightarrow> oem_write_token b len),
          GetAcKey = (\<lambda>acKey len. case acKey of None \<Rightarrow> (EC_FAILURE, None)
            | Some b \<Rightarrow> map_prod id Some (oem_get_ac_key b len)),
          GetProdId = (\<lambda>productId len. case productId of None \<Rightarrow> (EC_FAILURE, None)
            | Some b \<Rightarrow> map_prod id Some (oem_get_prod_id b len)),
          GetProdKey = (\<lambda>productKey len. case productKey of None \<Rightarrow> (EC_FAILURE, None)
            | Some b \<Rightarrow> map_prod id Some (oem_get_prod_key b len))\<rparr>)"

definition led_hal_token :: hal_token where
  "led_hal_token =
     (let oem_read_token = (\<lambda>(token :: buffer) (len :: u32). (EC_SUCCESS, token));
          oem_write_token = (\<lambda>(token :: buffer) (len :: u32). EC_SUCCESS);
          oem_get_ac_key = (\<lambda>(acKey :: buffer) (len :: u32). (EC_SUCCESS, acKey));
          oem_get_prod_id = (\<lambda>(productId :: buffer) (len :: u32). (EC_SUCCESS, productId));
          oem_get_prod_key = (\<lambda>(productKey :: buffer) (len :: u32). (EC_SUCCESS, productKey))
      in \<lparr>ReadToken = (\<lambda>token len. case token of None \<Rightarrow> (EC_FAILURE, None)
            | Some b \<Rightarrow> map_prod id Some (oem_read_token b len)),
          WriteToken = (\<lambda>token len. case token of None \<Rightarrow> EC_FAILURE
            | Some b \<Rightarrow> oem_write_token b len),
          GetAcKey = (\<lambda>acKey len. case acKey of None \<Rightarrow> (EC_FAILURE, None)
            | Some b \<Rightarrow> map_prod id Some (oem_get_ac_key b len)),
          GetProdId = (\<lambda>productId len. case productId of None \<Rightarrow> (EC_FAILURE, None)
            | Some b \<Rightarrow> map_prod id Some (oem_get_prod_id b len)),
          GetProdKey = (\<lambda>productKey len. case productKey of None \<Rightarrow> (EC_FAILURE, None)
            | Some b \<Rightarrow> map_prod id Some (oem_get_prod_key b len))\<rparr>)"

definition uart_hal_token :: hal_token where
  "uart_hal_token =
     (let oem_read_token = (\<lambda>(token :: buffer) (len :: u32). (EC_SUCCESS, token));
          oem_write_token = (\<lambda>(token :: buffer) (len :: u32). EC_SUCCESS);
          oem_get_ac_key = (\<lambda>(acKey :: buffer) (len :: u32). (EC_SUCCESS, acKey));
          oem_get_prod_id = (\<lambda>(productId :: buffer) (len :: u32). (EC_SUCCESS, productId));
          oem_get_prod_key = (\<lambda>(productKey :: buffer) (len :: u32). (EC_SUCCESS, productKey))
      in \<lparr>ReadToken = (\<lambda>token len. case token of None \<Rightarrow> (EC_FAILURE, None)
            | Some b \<Rightarrow> map_prod id Some (oem_read_token b len)),
          WriteToken = (\<lambda>token len. case token of None \<Rightarrow> EC_FAILURE
            | Some b \<Rightarrow> oem_write_token b len),
          GetAcKey = (\<lambda>acKey len. case acKey of None \<Rightarrow> (EC_FAILURE, None)
            | Some b \<Rightarrow> map_prod id Some (oem_get_ac_key b len)),
          GetProdId = (\<lambda>productId len. case productId of None \<Rightarrow> (EC_FAILURE, None)
            | Some b \<Rightarrow> map_prod id Some (oem_get_prod_id b len)),
          GetProdKey = (\<lambda>productKey len. case productKey of None \<Rightarrow> (EC_FAILURE, None)
            | Some b \<Rightarrow> map_prod id Some (oem_get_prod_key b len))\<rparr>)"

definition xts_hal_token :: hal_token where
  "xts_hal_token =
     (let oem_read_token = (\<lambda>(token :: buffer) (len :: u32). (EC_SUCCESS, token));
          oem_write_token = (\<lambda>(token :: buffer) (len :: u32). EC_SUCCESS);
          oem_get_ac_key = (\<lambda>(acKey :: buffer) (len :: u32). (EC_SUCCESS, acKey));
          oem_get_prod_id = (\<lambda>(productId :: buffer) (len :: u32). (EC_SUCCESS, productId));
          oem_get_prod_key = (\<lambda>(productKey :: buffer) (len :: u32). (EC_SUCCESS, productKey))
      in \<lparr>ReadToken = (\<lambda>token len. case token of None \<Rightarrow> (EC_FAILURE, None)
            | Some b \<Rightarrow> map_prod id Some (oem_read_token b len)),
          WriteToken = (\<lambda>token len. case token of None \<Rightarrow> EC_FAILURE
            | Some b \<Rightarrow> oem_write_token b len),
          GetAcKey = (\<lambda>acKey len. case acKey of None \<Rightarrow> (EC_FAILURE, None)
            | Some b \<Rightarrow> map_prod id Some (oem_get_ac_key b len)),
          GetProdId = (\<lambda>productId len. case productId of None \<Rightarrow> (EC_FAILURE, None)
            | Some b \<Rightarrow> map_prod id Some (oem_get_prod_id b len)),
          GetProdKey = (\<lambda>productKey len. case productKey of None \<Rightarrow> (EC_FAILURE, None)
            | Some b \<Rightarrow> map_prod id Some (oem_get_prod_key b len))\<rparr>)"

definition mbedtls_hal_token :: hal_token where
  "mbedtls_hal_token =
     (let oem_read_token = (\<lambda>(token :: buffer) (len :: u32). (EC_SUCCESS, token));
          oem_write_token = (\<lambda>(token :: buffer) (len :: u32). EC_SUCCESS);
          oem_get_ac_key = (\<lambda>(acKey :: buffer) (len :: u32). (EC_SUCCESS, acKey));
          oem_get_prod_id = (\<lambda>(productId :: buffer) (len :: u32). (EC_SUCCESS, productId));
          oem_get_prod_key = (\<lambda>(productKey :: buffer) (len :: u32). (EC_SUCCESS, productKey))
      in \<lparr>ReadToken = (\<lambda>token len. case token of None \<Rightarrow> (EC_FAILURE, None)
            | Some b \<Rightarrow> map_prod id Some (oem_read_token b len)),
          WriteToken = (\<lambda>token len. case token of None \<Rightarrow> EC_FAILURE
            | Some b \<Rightarrow> oem_write_token b len),
          GetAcKey = (\<lambda>acKey len. case acKey of None \<Rightarrow> (EC_FAILURE, None)
            | Some b \<Rightarrow> map_prod id Some (oem_get_ac_key b len)),
          GetProdId = (\<lambda>productId len. case productId of None \<Rightarrow> (EC_FAILURE, None)
            | Some b \<Rightarrow> map_prod id Some (oem_get_prod_id b len)),
          GetProdKey = (\<lambda>productKey len. case productKey of None \<Rightarrow> (EC_FAILURE, None)
            | Some b \<Rightarrow> map_prod id Some (oem_get_prod_key b len))\<rparr>)"

definition ble_HalGetSerial :: string where
  "ble_HalGetSerial = (let ohos_serial = ''1234567890'' in ohos_serial)"

definition led_HalGetSerial :: string where
  "led_HalGetSerial = (let ohos_serial = ''1234567890'' in ohos_serial)"

definition uart_HalGetSerial :: string where
  "uart_HalGetSerial = (let ohos_serial = ''1234567890'' in ohos_serial)"

definition xts_HalGetSerial :: string where
  "xts_HalGetSerial = (let ohos_serial = ''1234567890'' in ohos_serial)"

definition mbedtls_HalGetSerial :: string where
  "mbedtls_HalGetSerial = (let ohos_serial = ''1234567890'' in ohos_serial)"

section \<open>The demos and what they link\<close>

datatype demo = OTA_demo | BLE_demo | LED_demo | UART_demo | XTS_demo | MbedTLS_demo

fun linked_token :: "demo \<Rightarrow> hal_token" where
  "linked_token OTA_demo = ota_hal_token"
| "linked_token BLE_demo = ble_hal_token"
| "linked_token LED_demo = led_hal_token"
| "linked_token UART_demo = uart_hal_token"
| "linked_token XTS_demo = xts_hal_token"
| "linked_token MbedTLS_demo = mbedtls_hal_token"

fun linked_serial :: "demo \<Rightarrow> string" where
  "linked_serial OTA_demo = HalGetSerial"
| "linked_serial BLE_demo = ble_HalGetSerial"
| "linked_serial LED_demo = led_HalGetSerial"
| "linked_serial UART_demo = uart_HalGetSerial"
| "linked_serial XTS_demo = xts_HalGetSerial"
| "linked_serial MbedTLS_demo = mbedtls_HalGetSerial"

section \<open>The contract of the stubs\<close>

text \<open>What the callers of a HAL may rely on while the manufacturer has not filled it in.\<close>

locale hal_stub =
  fixes h :: hal_token
  assumes read_stub: "ReadToken h p len = (if p = None then EC_FAILURE else EC_SUCCESS, p)"
    and write_stub: "WriteToken h p len = (if p = None then EC_FAILURE else EC_SUCCESS)"
    and ac_key_stub: "GetAcKey h p len = (if p = None then EC_FAILURE else EC_SUCCESS, p)"
    and prod_id_stub: "GetProdId h p len = (if p = None then EC_FAILURE else EC_SUCCESS, p)"
    and prod_key_stub: "GetProdKey h p len = (if p = None then EC_FAILURE else EC_SUCCESS, p)"
begin

lemma token_not_kept:
  "WriteToken h (Some t) len = EC_SUCCESS \<and> ReadToken h (Some b) len = (EC_SUCCESS, Some b)"
  by (simp add: read_stub write_stub)

lemma determined: "hal_stub h' \<Longrightarrow> h' = h"
  by (intro hal_token.equality ext)
    (simp_all add: read_stub write_stub ac_key_stub prod_id_stub prod_key_stub hal_stub.read_stub
      hal_stub.write_stub hal_stub.ac_key_stub hal_stub.prod_id_stub hal_stub.prod_key_stub)

end

lemmas hal_copy_defs = ota_hal_token_def ble_hal_token_def led_hal_token_def uart_hal_token_def
  xts_hal_token_def mbedtls_hal_token_def

lemma ota_stub:
  "HalReadToken p len = (if p = None then EC_FAILURE else EC_SUCCESS, p)"
  "HalGetAcKey p len = (if p = None then EC_FAILURE else EC_SUCCESS, p)"
  "HalGetProdId p len = (if p = None then EC_FAILURE else EC_SUCCESS, p)"
  "HalGetProdKey p len = (if p = None then EC_FAILURE else EC_SUCCESS, p)"
  using hal_readers_store_nothing [of p len] hal_failure_iff_null [of p len] by (simp_all add: prod_eq_iff)

interpretation linked: hal_stub "linked_token d" for d
  by unfold_locales
    (cases d; simp add: hal_copy_defs ota_stub hal_failure_iff_null split: option.split)+


end
