(* ===== verification/Spec2Isabelle.thy ===== *)
theory Spec2Isabelle
  imports Prelude Crc16 Machine Fifo Serial Serial_Inv Uart_Port Serial_Line Line_Sim Serial_Props
    Xmodem Xmodem_Safe Xmodem_Sender Xmodem_Line Xmodem_Total Xmodem_Ends Platform Xmodem_Props
    Cstring Console Console_Line Commands Command_Safe Command_Line Sign_Line Pages Command_Props Console_Props Update_Props
    Console_Total Task_Total Command_Defined Ota_Boot
    Ble_Sdk Gatt Gatt_Props Uni_Ble Ble_App Ble_Task Ble_Props Ble_Trace
    Demo_Os Demos Hal Hal_Copies
begin

text \<open>
  A verification of the OpenHarmony vendor demos for the Telink B91 chip (\<open>src/\<close>): the OTA update
  demo in full, the BLE sample, the LED, UART and mbedTLS demos, and the vendor's HAL functions.

  \<^bold>\<open>The program.\<close> The OTA demo (\<open>ota_demo/ota_demo\<close>) is one task over a serial line. \<open>serial.c\<close> is the
  driver: an interrupt handler puts received bytes into a ring of 256 (or straight into a buffer that
  a block read lends it), readers take them, sleeping on a kernel event. \<open>app.c\<close> reads command lines
  with echo, runs them, and receives firmware with XMODEM, whose blocks go through a callback to a
  SHA-256 context and to the HOTA updater. The BLE sample (\<open>ble_demo/b91_gatt_sample\<close>) initialises
  the Telink BLE stack through \<open>uni_ble.c\<close>, which has two variants for two SDKs, gives it the GATT
  table of \<open>app_att.c\<close>, and runs the stack's main loop in a task that a semaphore wakes. The other
  demos are one or two short tasks each.

  \<^bold>\<open>The theories\<close>, in the order of their imports.
  \<^item> \<open>Prelude\<close>: integer types and conversions, byte memory, endless loops (\<open>forever\<close>, with its rules
    for partial and total correctness), the collections of simplification rules.
  \<^item> \<open>Crc16\<close> (\<open>crc16_ccitt\<close>, \<open>check\<close> in \<open>app.c\<close>): the CRC loops, the polynomial remainder they compute,
    the errors that the packet check detects.
  \<^item> \<open>Machine\<close>: the OTA demo's global state and the record \<open>kernel\<close> of everything outside it.
  \<^item> \<open>Fifo\<close>: bounded queues as a contract. \<open>Serial\<close> (\<open>serial.c\<close>): the driver, statement by statement.
    \<open>Serial_Inv\<close>: its invariant, for every kernel. \<open>Uart_Port\<close>: the interface between driver and
    clients as the locales \<open>rx_port\<close> (every line) and \<open>rx_line\<close> (a line that is a timed stream), and
    \<open>line_kernel\<close>, what the kernel's documentation says. \<open>Serial_Line\<close>: the driver provides \<open>rx_line\<close>.
    \<open>Line_Sim\<close>: a concrete kernel. \<open>Serial_Props\<close>: the driver's properties.
  \<^item> \<open>Xmodem\<close> (\<open>_inbyte\<close> to \<open>xmodemReceive\<close> in \<open>app.c\<close>): the receiver over a port. \<open>Xmodem_Safe\<close>: memory
    safety and the contract \<open>xm_safe\<close> of its callback; \<open>Xmodem_Sender\<close>: packets, transmissions and
    what a session delivers; \<open>Xmodem_Line\<close>: the receiver against a sender (\<open>xm_client\<close>);
    \<open>Xmodem_Total\<close>, \<open>Xmodem_Ends\<close>: it returns, and how. \<open>Platform\<close>: hash, updater, flash, \<open>malloc\<close> as
    the record \<open>platform\<close>, and \<open>xmodemReceiveCB\<close>, which satisfies both contracts. \<open>Xmodem_Props\<close>: the
    properties of the receiver as it is linked.
  \<^item> \<open>Cstring\<close>: \<open>strtoul\<close> and \<open>strcmp\<close> of the C library. \<open>Console\<close> (\<open>read_with_echo\<close>, \<open>ReadLine\<close>,
    \<open>ReadSign\<close>), \<open>Console_Line\<close> (typed lines), \<open>Commands\<close> (every command, \<open>CommandProcess\<close>, the task, the
    start), \<open>Command_Safe\<close> (what commands leave alone, for every kernel), \<open>Command_Line\<close> and \<open>Sign_Line\<close>
    (what typing does), \<open>Pages\<close> (partitions), \<open>Command_Props\<close> and \<open>Console_Props\<close> (their properties),
    \<open>Update_Props\<close> (commands that follow each other: an update and its signature check, where the
    hash comes from, the debug command), \<open>Console_Total\<close> and \<open>Task_Total\<close> (every read and every command
    returns on a line that ends, and the task works it off), \<open>Command_Defined\<close> (when a command is left
    undefined), \<open>Ota_Boot\<close> (the application from reset).
  \<^item> \<open>Ble_Sdk\<close>: the constants and calls of the SDK. \<open>Gatt\<close> (\<open>app_att.c\<close>), \<open>Uni_Ble\<close> (\<open>uni_ble.c\<close>, both
    variants, and their common contract \<open>ble_link\<close>), \<open>Ble_App\<close> (\<open>app.c\<close>), \<open>Ble_Task\<close>
    (\<open>ble_sample_main.c\<close>, with the task and its semaphore as a step relation), \<open>Gatt_Props\<close>,
    \<open>Ble_Props\<close>, \<open>Ble_Trace\<close> (the step relation makes the calls of the program's loop and no others).
  \<^item> \<open>Demo_Os\<close>, \<open>Demos\<close> (the \<open>app.c\<close> of the LED, UART and mbedTLS demos), \<open>Hal\<close> (\<open>hal_token.c\<close>,
    \<open>hal_sys_param.c\<close> of the OTA demo), \<open>Hal_Copies\<close> (those of the other five, and the contract
    \<open>hal_stub\<close> that all six satisfy).

  \<^bold>\<open>What is shown.\<close> Two kinds of theorems are kept apart. The safety theorems hold for every kernel,
  line and platform, however it behaves: the ring is a bounded queue, reads never invent, repeat or
  reorder bytes, block reads and the receiver stay inside their buffers, the task writes only its
  work buffer, text is read past its end only after a line that fills its buffer, the hash that
  signatures are checked against is that of an upload, signatures stay inside their arrays, a damaged
  packet is refused without effect. The
  functional theorems assume a kernel that behaves as documented (\<open>line_kernel\<close>: events wake sleepers,
  bytes arrive while the program waits, timeouts expire) and say what happens on a given line: reads
  deliver the line; an upload, from the typed command to the last acknowledgement, arrives intact
  whatever was damaged, cut short or repeated on the way, and the signature typed after it is checked
  against the hash of exactly what was written; every session and
  every command ends, so that the task works off its line; lines are edited,
  numbers and signatures are read back, words are dispatched, garbage is skipped. For the BLE sample
  and the demos every deterministic behaviour of the code outside is covered by letting its results
  depend on the history of calls (\<open>scripted\<close>, \<open>answering\<close>): the initialisation follows its plan and
  stops at the first failure, the table is well formed, the LED follows the link, the task misses no
  wake-up. Where the code does something it does not seem to mean, the theorem says what it does: the
  repeat of block 255, sizes that are multiples of 1024, lines of 32 characters, timeouts that an
  unsigned \<open>char\<close> hides, advertised services that do not exist, a notification nobody can enable.

  \<^bold>\<open>Correspondence.\<close> A C function is the definition of its name where Isabelle allows it (\<open>inbyte\<close> for
  \<open>_inbyte\<close>, \<open>outbyte\<close> for \<open>_outbyte\<close>, \<open>single_\<close> and \<open>multi_\<close> for the two variants of \<open>uni_ble.c\<close>).
  Global variables and memory are fields of an explicit state; a pointer into memory is a number, 0
  is \<open>NULL\<close>; local arrays are lists; machine integers are words, or \<open>int\<close> where they provably stay in
  range. Text printed is kept, with the line numbers that \<open>__LINE__\<close> gives. Not returning is \<open>None\<close>;
  behaviour that C leaves undefined is \<open>Undefined\<close> in the console.

  \<^bold>\<open>Loops and bounds.\<close> Loops that may run for ever are \<open>forever\<close>, without fuel, so that returning is
  itself a theorem. The endless loops of tasks are a number of their rounds, for every number.

  \<^bold>\<open>Not modelled.\<close> The fields of \<open>serial.c\<close> behind \<open>LOSCFG_UART_BUFFERED_TX_BUFFER_ENABLE\<close>, an option that no
  configuration here sets and no code uses, and the unused field \<open>init\<close>; the arguments that are only
  constants of the chip's headers (pins, stop bits, power levels); the addresses that \<open>printf\<close> shows;
  the contents of the SDK, the kernel, the updater and mbedTLS, which are not in this repository;
  build files, HDF and kernel configuration, and the C library beyond what is used.
\<close>

end
